(* ===== verification/Prelude.thy ===== *)
theory Prelude
  imports Main "HOL-Library.Sublist"
begin

text \<open>
  Shared vocabulary of the development: the error type of thrown JavaScript values, sequencing
  of fallible computations, the collections of rewrite rules the component proofs use, and the
  generic list lemmas they share.
\<close>

section \<open>Rule collections\<close>

named_theorems js_string_simps "laws of the modelled string operations"
named_theorems js_value_simps "laws of the modelled dynamic values"
named_theorems sse_simps "step equations of the event-stream client"
named_theorems chat_simps "step equations of the chat provider"
named_theorems http_simps "step equations of the NDJSON client"
named_theorems cluster_simps "step equations of the cluster provider"
named_theorems view_simps "unfolding rules of the rendered views"

section \<open>Thrown values and fallible results\<close>

text \<open>
  A JavaScript computation that can throw returns a value of \<open>js_error + 'a\<close>.  The constructors
  are the kinds of thrown values that the source distinguishes: a \<open>TypeError\<close> of the language
  (reading a property of \<open>undefined\<close>), an abort raised by an \<open>AbortController\<close> without a reason
  (an \<open>Error\<close> named \<open>AbortError\<close>), a value that is no \<open>Error\<close> (the reason given to \<open>abort\<close>), and
  an \<open>Error\<close> with a message.
\<close>

datatype js_error =
    TypeError
  | SyntaxError
  | AbortError
  | Thrown string
  | ErrorMsg string

fun bind_sum :: "'e + 'a \<Rightarrow> ('a \<Rightarrow> 'e + 'b) \<Rightarrow> 'e + 'b" where
  "bind_sum (Inl e) f = Inl e"
| "bind_sum (Inr a) f = f a"

lemma bind_sum_Inr_iff: "bind_sum m f = Inr b \<longleftrightarrow> (\<exists>a. m = Inr a \<and> f a = Inr b)"
  by (cases m) auto

lemma bind_sum_Inl_iff:
  "bind_sum m f = Inl e \<longleftrightarrow> m = Inl e \<or> (\<exists>a. m = Inr a \<and> f a = Inl e)"
  by (cases m) auto

lemma bind_sum_assoc: "bind_sum (bind_sum m f) g = bind_sum m (\<lambda>x. bind_sum (f x) g)"
  by (cases m) auto

fun fold_sum :: "('a \<Rightarrow> 's \<Rightarrow> 'e + 's) \<Rightarrow> 'a list \<Rightarrow> 's \<Rightarrow> 'e + 's" where
  "fold_sum f [] s = Inr s"
| "fold_sum f (x # xs) s = bind_sum (f x s) (fold_sum f xs)"

lemma fold_sum_append:
  "fold_sum f (xs @ ys) s = bind_sum (fold_sum f xs s) (fold_sum f ys)"
proof (induction xs arbitrary: s)
  case (Cons x xs)
  then show ?case by (cases "f x s") auto
qed simp

lemma fold_sum_invariant:
  assumes step: "\<And>x s s'. x \<in> set xs \<Longrightarrow> P s \<Longrightarrow> f x s = Inr s' \<Longrightarrow> P s'"
    and start: "P s"
    and run: "fold_sum f xs s = Inr s'"
  shows "P s'"
  using assms
proof (induction xs arbitrary: s)
  case Nil
  then show ?case by simp
next
  case (Cons x xs)
  from Cons.prems(3) obtain t where t: "f x s = Inr t" "fold_sum f xs t = Inr s'"
    by (auto simp: bind_sum_Inr_iff)
  have "P t" using Cons.prems(1,2) t(1) by auto
  with Cons.IH Cons.prems(1) t(2) show ?case by auto
qed

section \<open>Lists\<close>

text \<open>\<open>xs.slice(0, -1)\<close> is \<open>butlast\<close>; \<open>xs[xs.length - 1]\<close> is \<open>undefined\<close> on the empty array.\<close>

definition last_opt :: "'a list \<Rightarrow> 'a option" where
  "last_opt xs = (if xs = [] then None else Some (last xs))"

lemma last_opt_simps [simp]:
  "last_opt [] = None"
  "last_opt (xs @ [x]) = Some x"
  "last_opt (x # xs) = Some (last (x # xs))"
  by (auto simp: last_opt_def)

lemma last_opt_None_iff [simp]: "last_opt xs = None \<longleftrightarrow> xs = []"
  by (simp add: last_opt_def)

lemma last_opt_SomeD: "last_opt xs = Some x \<Longrightarrow> xs = butlast xs @ [x]"
  by (auto simp: last_opt_def split: if_splits)

lemma list_all_upt: "list_all P [0..<n] \<Longrightarrow> d < n \<Longrightarrow> P d"
  by (simp add: list_all_iff)

fun find_index :: "('a \<Rightarrow> bool) \<Rightarrow> 'a list \<Rightarrow> nat option" where
  "find_index P [] = None"
| "find_index P (x # xs) = (if P x then Some 0 else map_option Suc (find_index P xs))"

lemma find_index_SomeD:
  "find_index P xs = Some i \<Longrightarrow> i < length xs \<and> P (xs ! i) \<and> (\<forall>j < i. \<not> P (xs ! j))"
proof (induction xs arbitrary: i)
  case Nil
  then show ?case by simp
next
  case (Cons x xs)
  then show ?case
    by (cases "P x") (auto simp: nth_Cons split: nat.splits)
qed

lemma find_index_None_iff: "find_index P xs = None \<longleftrightarrow> (\<forall>x \<in> set xs. \<not> P x)"
  by (induction xs) auto

end
