(* ===== verification/Js_String.thy ===== *)
theory Js_String
  imports Prelude
begin

text \<open>
  The operations of JavaScript's \<open>String.prototype\<close> that the frontend uses.  A string is a HOL
  \<open>string\<close>, its code units restricted to the range 0 to 255 of \<open>char\<close>.  \<open>indexOf\<close> keeps the
  source's \<open>-1\<close>, \<open>substring\<close> clamps and swaps its arguments, and a replacement string is expanded
  by the rules for \<open>$\<close> as the language does.
\<close>

section \<open>Searching\<close>

fun find_sub :: "string \<Rightarrow> string \<Rightarrow> nat option" where
  "find_sub pat [] = (if pat = [] then Some 0 else None)"
| "find_sub pat (c # cs) =
     (if prefix pat (c # cs) then Some 0 else map_option Suc (find_sub pat cs))"

definition str_includes :: "string \<Rightarrow> string \<Rightarrow> bool" where
  "str_includes s pat = (find_sub pat s \<noteq> None)"

definition index_of :: "string \<Rightarrow> string \<Rightarrow> int" where
  "index_of s pat = (case find_sub pat s of None \<Rightarrow> -1 | Some i \<Rightarrow> int i)"

lemma find_sub_SomeD:
  "find_sub pat s = Some i \<Longrightarrow> \<exists>v. s = take i s @ pat @ v \<and> i \<le> length s"
proof (induction s arbitrary: i)
  case Nil
  then show ?case by (auto split: if_splits)
next
  case (Cons c cs)
  show ?case
  proof (cases "prefix pat (c # cs)")
    case True
    with Cons.prems show ?thesis by (auto elim: prefixE)
  next
    case False
    with Cons.prems obtain j where "find_sub pat cs = Some j" and "i = Suc j" by auto
    with Cons.IH show ?thesis by fastforce
  qed
qed

lemma find_sub_empty [simp]: "find_sub [] s = Some 0"
  by (cases s) auto

lemma str_includes_append_mono1: "str_includes a pat \<Longrightarrow> str_includes (a @ b) pat"
  unfolding str_includes_def
proof (induction a)
  case Nil
  then show ?case by (auto split: if_splits)
next
  case (Cons c a)
  show ?case
  proof (cases "prefix pat (c # a)")
    case True
    then have "prefix pat (c # a @ b)" by (metis append_Cons prefix_prefix)
    then show ?thesis by simp
  next
    case False
    with Cons show ?thesis by auto
  qed
qed

lemma str_includes_append_mono2: "str_includes b pat \<Longrightarrow> str_includes (a @ b) pat"
  unfolding str_includes_def by (induction a) auto

lemma str_includes_iff_sublist: "str_includes s pat \<longleftrightarrow> sublist pat s"
proof
  assume "str_includes s pat"
  then obtain i where "find_sub pat s = Some i" by (auto simp: str_includes_def)
  then show "sublist pat s" by (metis find_sub_SomeD sublist_appendI)
next
  assume "sublist pat s"
  then obtain a b where "s = a @ pat @ b" by (auto simp: sublist_def)
  moreover have "str_includes pat pat" by (cases pat) (auto simp: str_includes_def)
  ultimately show "str_includes s pat"
    by (simp add: str_includes_append_mono1 str_includes_append_mono2)
qed

text \<open>
  A tag is a pattern whose first character does not occur again in it (\<open><think>\<close>, \<open><|end|>\<close>).
  Two occurrences of tags with the same first character cannot overlap, so a search in front of
  such a character splits.
\<close>

definition is_tag :: "char \<Rightarrow> string \<Rightarrow> bool" where
  "is_tag c pat = (case pat of [] \<Rightarrow> False | d # ds \<Rightarrow> d = c \<and> c \<notin> set ds)"

lemma is_tagE: "is_tag c pat \<Longrightarrow> \<exists>p. pat = c # p \<and> c \<notin> set p"
  by (auto simp: is_tag_def split: list.splits)

lemma prefix_before_char:
  assumes "c \<notin> set p" "prefix p (a @ c # b)"
  shows "prefix p a"
  using assms
proof (induction p arbitrary: a)
  case Nil
  then show ?case by simp
next
  case (Cons x p a)
  show ?case
  proof (cases a)
    case Nil
    with Cons.prems show ?thesis by simp
  next
    case (Cons y ys)
    with Cons.prems have "x = y" "prefix p (ys @ c # b)" "c \<notin> set p" by simp_all
    with Cons.IH [of ys] Cons show ?thesis by simp
  qed
qed

lemma find_sub_tag_append:
  assumes "is_tag c pat"
  shows "find_sub pat (a @ c # b) =
    (case find_sub pat a of
       Some i \<Rightarrow> Some i
     | None \<Rightarrow> map_option (\<lambda>i. i + length a) (find_sub pat (c # b)))"
proof -
  obtain p where p: "pat = c # p" "c \<notin> set p" using is_tagE [OF assms] by auto
  show ?thesis
  proof (induction a)
    case Nil
    show ?case using p(1) by (simp add: option.map_ident)
  next
    case (Cons x a)
    have pre: "prefix pat (x # a @ c # b) \<longleftrightarrow> prefix pat (x # a)"
    proof
      assume "prefix pat (x # a @ c # b)"
      then have "x = c" and "prefix p (a @ c # b)" using p by auto
      then show "prefix pat (x # a)" using p prefix_before_char by simp
    next
      assume "prefix pat (x # a)"
      then show "prefix pat (x # a @ c # b)" by (metis append_Cons prefix_prefix)
    qed
    show ?case
    proof (cases "prefix pat (x # a)")
      case True
      with pre show ?thesis by simp
    next
      case False
      with pre Cons.IH show ?thesis
        by (cases "find_sub pat a") (auto simp: option.map_comp o_def split: option.splits)
    qed
  qed
qed

lemma find_sub_tag_hit:
  assumes "is_tag c pat" "find_sub pat a = None"
  shows "find_sub pat (a @ pat @ b) = Some (length a)"
proof -
  obtain p where p: "pat = c # p" using is_tagE [OF assms(1)] by auto
  have "find_sub pat (c # p @ b) = Some 0" using p by simp
  then show ?thesis
    using find_sub_tag_append [OF assms(1), of a "p @ b"] assms(2) p by simp
qed

lemma find_sub_take_None: "find_sub pat s = Some i \<Longrightarrow> pat \<noteq> [] \<Longrightarrow> find_sub pat (take i s) = None"
proof (induction s arbitrary: i)
  case Nil
  then show ?case by simp
next
  case (Cons c s)
  show ?case
  proof (cases "prefix pat (c # s)")
    case True
    with Cons.prems show ?thesis by simp
  next
    case False
    with Cons.prems obtain j where j: "find_sub pat s = Some j" "i = Suc j" by auto
    have "\<not> prefix pat (c # take j s)"
    proof
      assume "prefix pat (c # take j s)"
      then have "prefix pat ((c # take j s) @ drop j s)" by (rule prefix_prefix)
      with False show False by simp
    qed
    with j Cons show ?thesis by simp
  qed
qed

lemma find_sub_extend:
  "find_sub p s = Some i \<Longrightarrow> prefix (p @ q) (drop i s) \<Longrightarrow> p \<noteq> [] \<Longrightarrow> find_sub (p @ q) s = Some i"
proof (induction s arbitrary: i)
  case Nil
  then show ?case by (auto split: if_splits)
next
  case (Cons c s)
  show ?case
  proof (cases "prefix p (c # s)")
    case True
    with Cons.prems show ?thesis by simp
  next
    case False
    then have "\<not> prefix (p @ q) (c # s)" by (metis append_prefixD)
    with False Cons show ?thesis by auto
  qed
qed

lemma find_sub_split:
  assumes "str_includes s pat" "pat \<noteq> []"
  shows "\<exists>a r. s = a @ pat @ r \<and> find_sub pat a = None"
proof -
  obtain i where i: "find_sub pat s = Some i" using assms(1) by (auto simp: str_includes_def)
  then obtain v where "s = take i s @ pat @ v" using find_sub_SomeD by blast
  with find_sub_take_None [OF i assms(2)] show ?thesis by blast
qed

section \<open>Slicing and replacing\<close>

definition substring :: "string \<Rightarrow> int \<Rightarrow> int \<Rightarrow> string" where
  "substring s i j =
     (let n = int (length s);
          a = max 0 (min i n);
          b = max 0 (min j n);
          lo = nat (min a b);
          hi = nat (max a b)
      in take (hi - lo) (drop lo s))"

text \<open>\<open>GetSubstitution\<close> for a match without capture groups.\<close>

fun get_substitution :: "string \<Rightarrow> string \<Rightarrow> string \<Rightarrow> string \<Rightarrow> string" where
  "get_substitution matched before after [] = []"
| "get_substitution matched before after [c] = [c]"
| "get_substitution matched before after (c # d # r) =
     (if c = CHR ''$'' \<and> d = CHR ''$'' then CHR ''$'' # get_substitution matched before after r
      else if c = CHR ''$'' \<and> d = CHR ''&'' then matched @ get_substitution matched before after r
      else if c = CHR ''$'' \<and> d = CHR 0x60 then before @ get_substitution matched before after r
      else if c = CHR ''$'' \<and> d = CHR 0x27 then after @ get_substitution matched before after r
      else c # get_substitution matched before after (d # r))"

definition replace_first :: "string \<Rightarrow> string \<Rightarrow> string \<Rightarrow> string" where
  "replace_first s pat rep =
     (case find_sub pat s of
        None \<Rightarrow> s
      | Some i \<Rightarrow>
          take i s @ get_substitution pat (take i s) (drop (i + length pat) s) rep
          @ drop (i + length pat) s)"

lemma replace_first_empty:
  "find_sub pat s = Some i \<Longrightarrow> replace_first s pat [] = take i s @ drop (i + length pat) s"
  by (simp add: replace_first_def)

lemma find_sub_bound:
  assumes "find_sub pat s = Some i"
  shows "i + length pat \<le> length s"
proof -
  obtain v where v: "s = take i s @ pat @ v" and "i \<le> length s"
    using find_sub_SomeD [OF assms] by blast
  have "length s = length (take i s @ pat @ v)" using v by (rule arg_cong)
  then have "length s = i + (length pat + length v)"
    using \<open>i \<le> length s\<close> by (simp only: length_append length_take min_absorb2)
  then show ?thesis by linarith
qed

lemma length_replace_first_empty:
  assumes "find_sub pat s = Some i"
  shows "length (replace_first s pat []) + length pat = length s"
  using find_sub_bound [OF assms] by (simp add: replace_first_empty [OF assms])

lemma substring_tail:
  "0 \<le> k \<Longrightarrow> substring (a @ b) (int (length a) + k) (int (length (a @ b))) = drop (nat k) b"
  by (auto simp: substring_def Let_def min_def max_def nat_add_distrib)

lemma substring_mid:
  "substring (a @ b @ c) (int (length a)) (int (length a) + int (length b)) = b"
  by (auto simp: substring_def Let_def min_def max_def nat_add_distrib)

lemma replace_first_mid:
  "find_sub pat (a @ pat @ b) = Some (length a) \<Longrightarrow> replace_first (a @ pat @ b) pat [] = a @ b"
  by (simp add: replace_first_def)

section \<open>Trimming, case, splitting\<close>

definition is_space :: "char \<Rightarrow> bool" where
  "is_space c = (c \<in> set [CHR 0x09, CHR 0x0A, CHR 0x0B, CHR 0x0C, CHR 0x0D, CHR 0x20, CHR 0xA0])"

definition trim :: "string \<Rightarrow> string" where
  "trim s = rev (dropWhile is_space (rev (dropWhile is_space s)))"

definition trimmed :: "string \<Rightarrow> bool" where
  "trimmed s = (s = [] \<or> \<not> is_space (hd s) \<and> \<not> is_space (last s))"

lemma trim_Nil [simp]: "trim [] = []"
  by (simp add: trim_def)

lemma trim_trimmed_id: "trimmed s \<Longrightarrow> trim s = s"
proof (cases s)
  case (Cons c cs)
  assume "trimmed s"
  then have hd: "\<not> is_space c" and last: "\<not> is_space (last s)"
    using Cons by (auto simp: trimmed_def)
  have "dropWhile is_space s = s" using hd Cons by simp
  moreover have "dropWhile is_space (rev s) = rev s"
    using last Cons by (cases "rev s" rule: list.exhaust) (auto simp: hd_rev [symmetric])
  ultimately show ?thesis by (simp add: trim_def)
qed simp

lemma dropWhile_rev_last:
  "xs \<noteq> [] \<Longrightarrow> \<not> P (last xs) \<Longrightarrow> dropWhile P xs \<noteq> [] \<and> last (dropWhile P xs) = last xs"
  by (induction xs) (auto split: if_splits)

lemma trimmed_trim: "trimmed (trim s)"
proof (cases "dropWhile is_space s")
  case Nil
  then have "trim s = []" unfolding trim_def by (simp only: rev.simps dropWhile.simps)
  then show ?thesis by (simp add: trimmed_def)
next
  case (Cons c cs)
  define t where "t = dropWhile is_space s"
  have tne: "t \<noteq> []" using Cons by (simp add: t_def)
  have hd: "\<not> is_space (hd t)" using hd_dropWhile [of is_space s] tne by (simp add: t_def)
  define u where "u = dropWhile is_space (rev t)"
  have lu: "last (rev t) = hd t" using tne by (simp add: last_rev)
  have u: "u \<noteq> []" "last u = hd t"
    using dropWhile_rev_last [of "rev t" is_space] hd tne lu by (auto simp: u_def)
  have hu: "\<not> is_space (hd u)" using hd_dropWhile [of is_space "rev t"] u(1) by (simp add: u_def)
  have "trim s = rev u" by (simp add: trim_def t_def u_def)
  with u hu hd show ?thesis by (simp add: trimmed_def hd_rev last_rev)
qed

lemma trim_idem [simp]: "trim (trim s) = trim s"
  by (simp add: trim_trimmed_id trimmed_trim)

lemma trim_sublist: "sublist (trim s) s"
proof -
  have "suffix (dropWhile is_space s) s" by (simp add: suffix_dropWhile)
  moreover have "prefix (trim s) (dropWhile is_space s)"
    unfolding trim_def
    by (metis rev_rev_ident suffix_dropWhile suffix_to_prefix)
  ultimately show ?thesis
    by (metis prefix_imp_sublist sublist_order.order_trans suffix_imp_sublist)
qed

text \<open>\<open>toLowerCase\<close> on the code units 0 to 255.\<close>

definition lower_char :: "char \<Rightarrow> char" where
  "lower_char c =
     (let n = (of_char c :: nat) in
      if 65 \<le> n \<and> n \<le> 90 \<or> 192 \<le> n \<and> n \<le> 222 \<and> n \<noteq> 215 then char_of (n + 32) else c)"

definition to_lower :: "string \<Rightarrow> string" where
  "to_lower s = map lower_char s"

fun split_on :: "(char \<Rightarrow> bool) \<Rightarrow> string \<Rightarrow> string list" where
  "split_on P [] = [[]]"
| "split_on P (c # cs) =
     (if P c then [] # split_on P cs
      else (case split_on P cs of [] \<Rightarrow> [[c]] | x # xs \<Rightarrow> (c # x) # xs))"

lemma split_on_ne [simp]: "split_on P s \<noteq> []"
  by (cases s) (auto split: list.splits)

lemma split_on_append:
  "split_on P (a @ b) = butlast (split_on P a) @ split_on P (last (split_on P a) @ b)"
proof (induction a)
  case Nil
  then show ?case by simp
next
  case (Cons c a)
  obtain x xs where xs: "split_on P a = x # xs" using split_on_ne [of P a] by (cases "split_on P a") auto
  show ?case
  proof (cases "P c")
    case True
    with Cons.IH show ?thesis by simp
  next
    case False
    show ?thesis
    proof (cases xs)
      case Nil
      with xs have "split_on P a = [x]" by simp
      with Cons.IH False show ?thesis by (simp split: list.splits)
    next
      case (Cons y ys)
      with xs Cons.IH False show ?thesis by simp
    qed
  qed
qed

lemma split_on_no_sep: "\<forall>c \<in> set s. \<not> P c \<Longrightarrow> split_on P s = [s]"
  by (induction s) auto

lemma split_on_free: "x \<in> set (split_on P s) \<Longrightarrow> \<forall>c \<in> set x. \<not> P c"
proof (induction s arbitrary: x)
  case Nil
  then show ?case by simp
next
  case (Cons c s)
  obtain y ys where ys: "split_on P s = y # ys" using split_on_ne [of P s] by (cases "split_on P s") auto
  then have "\<forall>d \<in> set y. \<not> P d" using Cons.IH [of y] by simp
  with Cons ys show ?case by (auto split: if_splits)
qed

lemma split_on_sep:
  assumes "\<forall>c \<in> set a. \<not> P c" "P c"
  shows "split_on P (a @ c # b) = a # split_on P b"
proof -
  have "split_on P (a @ c # b) = split_on P (a @ (c # b))" by simp
  also have "\<dots> = butlast [a] @ split_on P (a @ c # b)"
    using split_on_append [of P a "c # b"] split_on_no_sep [OF assms(1)] by simp
  finally show ?thesis
    using assms by (induction a) auto
qed

fun join :: "string \<Rightarrow> string list \<Rightarrow> string" where
  "join sep [] = []"
| "join sep [x] = x"
| "join sep (x # y # ys) = x @ sep @ join sep (y # ys)"

abbreviation newline :: "char" where
  "newline \<equiv> CHR 0x0A"

abbreviation split_lines :: "string \<Rightarrow> string list" where
  "split_lines \<equiv> split_on (\<lambda>c. c = newline)"

end
