(* ===== verification/Js_Value.thy ===== *)
theory Js_Value
  imports Js_String
begin

text \<open>
  Dynamic values: what \<open>JSON.parse\<close> returns and what the handlers read out of a message typed
  \<open>any\<close>.  A number is a decimal \<open>Num m k\<close>, standing for \<open>m / 10 ^ k\<close>: the literals of the wire
  format are decimals, and the frontend only compares, prints and tests them.  Rounding to binary
  floating point and the exponent notation of very large and very small numbers are not modelled.
  Objects keep their properties in insertion order; \<open>undefined\<close> is a value of its own.
\<close>

section \<open>Numbers\<close>

datatype number = Num int nat

definition num_of_int :: "int \<Rightarrow> number" where
  "num_of_int i = Num i 0"

fun normalise :: "int \<Rightarrow> nat \<Rightarrow> number" where
  "normalise m 0 = Num m 0"
| "normalise m (Suc k) = (if m mod 10 = 0 then normalise (m div 10) k else Num m (Suc k))"

fun normal_number :: "number \<Rightarrow> bool" where
  "normal_number (Num m k) = (k = 0 \<or> m mod 10 \<noteq> 0)"

lemma normal_normalise: "normal_number (normalise m k)"
  by (induction m k rule: normalise.induct) auto

lemma normalise_normal: "normal_number (Num m k) \<Longrightarrow> normalise m k = Num m k"
  by (cases k) auto

fun num_is_zero :: "number \<Rightarrow> bool" where
  "num_is_zero (Num m k) = (m = 0)"

text \<open>\<open>num_gt x i\<close> is \<open>x > i\<close> for an integer \<open>i\<close>.\<close>

fun num_gt :: "number \<Rightarrow> int \<Rightarrow> bool" where
  "num_gt (Num m k) i = (m > i * 10 ^ k)"

fun num_floor :: "number \<Rightarrow> int" where
  "num_floor (Num m k) = m div 10 ^ k"

lemma num_gt_int [simp]: "num_gt (num_of_int j) i \<longleftrightarrow> i < j"
  by (simp add: num_of_int_def)

lemma num_floor_int [simp]: "num_floor (num_of_int j) = j"
  by (simp add: num_of_int_def)

section \<open>Values\<close>

datatype jsval =
    JUndef
  | JNull
  | JBool bool
  | JNum number
  | JStr string
  | JArr "jsval list"
  | JObj "(string \<times> jsval) list"

fun truthy :: "jsval \<Rightarrow> bool" where
  "truthy JUndef = False"
| "truthy JNull = False"
| "truthy (JBool b) = b"
| "truthy (JNum n) = (\<not> num_is_zero n)"
| "truthy (JStr s) = (s \<noteq> [])"
| "truthy (JArr xs) = True"
| "truthy (JObj kvs) = True"

text \<open>\<open>a || b\<close> and \<open>a && b\<close> return one of their operands.\<close>

definition js_or :: "jsval \<Rightarrow> jsval \<Rightarrow> jsval" where
  "js_or a b = (if truthy a then a else b)"

definition js_and :: "jsval \<Rightarrow> jsval \<Rightarrow> jsval" where
  "js_and a b = (if truthy a then b else a)"

text \<open>
  \<open>get_prop v k\<close> is the own property \<open>v.k\<close>: \<open>undefined\<close> where there is none, a \<open>TypeError\<close> on
  \<open>undefined\<close> and \<open>null\<close>.  The \<open>length\<close> of strings and arrays is the only inherited or built-in
  property that the source reads from such a value.
\<close>

fun lookup :: "(string \<times> jsval) list \<Rightarrow> string \<Rightarrow> jsval" where
  "lookup [] k = JUndef"
| "lookup ((l, v) # kvs) k = (if l = k then v else lookup kvs k)"

fun get_prop :: "jsval \<Rightarrow> string \<Rightarrow> js_error + jsval" where
  "get_prop JUndef k = Inl TypeError"
| "get_prop JNull k = Inl TypeError"
| "get_prop (JObj kvs) k = Inr (lookup kvs k)"
| "get_prop (JArr xs) k = Inr (if k = ''length'' then JNum (num_of_int (int (length xs))) else JUndef)"
| "get_prop (JStr s) k = Inr (if k = ''length'' then JNum (num_of_int (int (length s))) else JUndef)"
| "get_prop (JBool b) k = Inr JUndef"
| "get_prop (JNum n) k = Inr JUndef"

fun js_str :: "jsval \<Rightarrow> string option" where
  "js_str (JStr s) = Some s"
| "js_str v = None"

section \<open>Printing: \<open>JSON.stringify\<close>\<close>

definition digit_char :: "nat \<Rightarrow> char" where
  "digit_char d = char_of (48 + d)"

fun nat_digits :: "nat \<Rightarrow> string" where
  "nat_digits n = (if n < 10 then [digit_char n] else nat_digits (n div 10) @ [digit_char (n mod 10)])"

declare nat_digits.simps [simp del]

definition pad_digits :: "nat \<Rightarrow> nat \<Rightarrow> string" where
  "pad_digits w n = (let ds = nat_digits n in replicate (w - length ds) (CHR ''0'') @ ds)"

fun print_number :: "number \<Rightarrow> string" where
  "print_number (Num m k) =
     (let n = nat \<bar>m\<bar>; sign = (if m < 0 then ''-'' else []) in
      if k = 0 then sign @ nat_digits n
      else sign @ nat_digits (n div 10 ^ k) @ ''.'' @ pad_digits k (n mod 10 ^ k))"

definition hex_char :: "nat \<Rightarrow> char" where
  "hex_char d = (if d < 10 then char_of (48 + d) else char_of (87 + d))"

definition escape_char :: "char \<Rightarrow> string" where
  "escape_char c =
     (if c = CHR 0x22 then [CHR 0x5C, CHR 0x22]
      else if c = CHR 0x5C then [CHR 0x5C, CHR 0x5C]
      else if c = CHR 0x08 then [CHR 0x5C, CHR ''b'']
      else if c = CHR 0x0C then [CHR 0x5C, CHR ''f'']
      else if c = CHR 0x0A then [CHR 0x5C, CHR ''n'']
      else if c = CHR 0x0D then [CHR 0x5C, CHR ''r'']
      else if c = CHR 0x09 then [CHR 0x5C, CHR ''t'']
      else if (of_char c :: nat) < 32
      then [CHR 0x5C, CHR ''u'', CHR ''0'', CHR ''0'',
            hex_char (of_char c div 16), hex_char (of_char c mod 16)]
      else [c])"

definition quote :: "string \<Rightarrow> string" where
  "quote s = CHR 0x22 # concat (map escape_char s) @ [CHR 0x22]"

text \<open>
  \<open>undefined\<close> is printed as \<open>null\<close> inside an array and its property is left out of an object.  At
  the top level \<open>JSON.stringify(undefined)\<close> is \<open>undefined\<close>, which the source never does.
\<close>

fun is_undef :: "jsval \<Rightarrow> bool" where
  "is_undef JUndef = True"
| "is_undef v = False"

fun stringify :: "jsval \<Rightarrow> string"
  and stringify_items :: "jsval list \<Rightarrow> string list"
  and stringify_members :: "(string \<times> jsval) list \<Rightarrow> string list" where
  "stringify JUndef = ''null''"
| "stringify JNull = ''null''"
| "stringify (JBool b) = (if b then ''true'' else ''false'')"
| "stringify (JNum n) = print_number n"
| "stringify (JStr s) = quote s"
| "stringify (JArr xs) = ''['' @ join '','' (stringify_items xs) @ '']''"
| "stringify (JObj kvs) = ''{'' @ join '','' (stringify_members kvs) @ ''}''"
| "stringify_items [] = []"
| "stringify_items (x # xs) = stringify x # stringify_items xs"
| "stringify_members [] = []"
| "stringify_members ((k, v) # kvs) =
     (if is_undef v then stringify_members kvs
      else (quote k @ '':'' @ stringify v) # stringify_members kvs)"

text \<open>\<open>`${v}`\<close> and \<open>String(v)\<close>; an array joins its elements, \<open>undefined\<close> and \<open>null\<close> as the empty text.\<close>

fun js_to_string :: "jsval \<Rightarrow> string"
  and item_strings :: "jsval list \<Rightarrow> string list" where
  "js_to_string JUndef = ''undefined''"
| "js_to_string JNull = ''null''"
| "js_to_string (JBool b) = (if b then ''true'' else ''false'')"
| "js_to_string (JNum n) = print_number n"
| "js_to_string (JStr s) = s"
| "js_to_string (JArr xs) = join '','' (item_strings xs)"
| "js_to_string (JObj kvs) = ''[object Object]''"
| "item_strings [] = []"
| "item_strings (x # xs) =
     (if x = JUndef \<or> x = JNull then [] else js_to_string x) # item_strings xs"

section \<open>Parsing: \<open>JSON.parse\<close>\<close>

type_synonym 'a parser = "string \<Rightarrow> ('a \<times> string) option"

definition json_space :: "char \<Rightarrow> bool" where
  "json_space c = (c \<in> set [CHR 0x20, CHR 0x09, CHR 0x0A, CHR 0x0D])"

definition skip_space :: "string \<Rightarrow> string" where
  "skip_space s = dropWhile json_space s"

definition digit_value :: "char \<Rightarrow> nat option" where
  "digit_value c =
     (let n = (of_char c :: nat) in if 48 \<le> n \<and> n \<le> 57 then Some (n - 48) else None)"

definition is_digit :: "char \<Rightarrow> bool" where
  "is_digit c = (digit_value c \<noteq> None)"

definition hex_value :: "char \<Rightarrow> nat option" where
  "hex_value c =
     (let n = (of_char c :: nat) in
      if 48 \<le> n \<and> n \<le> 57 then Some (n - 48)
      else if 97 \<le> n \<and> n \<le> 102 then Some (n - 87)
      else if 65 \<le> n \<and> n \<le> 70 then Some (n - 55) else None)"

fun value_of_digits :: "nat \<Rightarrow> string \<Rightarrow> nat" where
  "value_of_digits a [] = a"
| "value_of_digits a (c # cs) =
     value_of_digits (10 * a + (case digit_value c of Some d \<Rightarrow> d | None \<Rightarrow> 0)) cs"

definition unescape :: "char \<Rightarrow> char option" where
  "unescape c =
     (if c = CHR 0x22 \<or> c = CHR 0x5C \<or> c = CHR ''/'' then Some c
      else if c = CHR ''b'' then Some (CHR 0x08)
      else if c = CHR ''f'' then Some (CHR 0x0C)
      else if c = CHR ''n'' then Some (CHR 0x0A)
      else if c = CHR ''r'' then Some (CHR 0x0D)
      else if c = CHR ''t'' then Some (CHR 0x09)
      else None)"

text \<open>
  The characters of a string literal after its opening quote.  An escape \<open>\uXXXX\<close> of a code unit
  above 255 is outside the alphabet of the model and rejected.
\<close>

fun parse_chars :: "string parser" where
  "parse_chars [] = None"
| "parse_chars (c # cs) =
     (if c = CHR 0x22 then Some ([], cs)
      else if c = CHR 0x5C then
        (case cs of
           [] \<Rightarrow> None
         | e # r \<Rightarrow>
             if e = CHR ''u'' then
               (case r of
                  a # b # x # y # r' \<Rightarrow>
                    (case (hex_value a, hex_value b, hex_value x, hex_value y) of
                       (Some ha, Some hb, Some hx, Some hy) \<Rightarrow>
                         if ha = 0 \<and> hb = 0 then
                           map_option (\<lambda>(s, t). (char_of (16 * hx + hy) # s, t)) (parse_chars r')
                         else None
                     | _ \<Rightarrow> None)
                | _ \<Rightarrow> None)
             else
               (case unescape e of
                  None \<Rightarrow> None
                | Some d \<Rightarrow> map_option (\<lambda>(s, t). (d # s, t)) (parse_chars r)))
      else if (of_char c :: nat) < 32 then None
      else map_option (\<lambda>(s, t). (c # s, t)) (parse_chars cs))"

definition parse_exponent :: "int parser" where
  "parse_exponent s =
     (case s of
        c # r \<Rightarrow>
          if c = CHR ''e'' \<or> c = CHR ''E'' then
            (let (sg, t) =
               (case r of
                  d # r' \<Rightarrow> if d = CHR ''-'' then (-1, r') else if d = CHR ''+'' then (1, r') else (1, r)
                | [] \<Rightarrow> (1 :: int, r));
                 ds = takeWhile is_digit t
             in if ds = [] then None
                else Some (sg * int (value_of_digits 0 ds), dropWhile is_digit t))
          else Some (0, s)
      | [] \<Rightarrow> Some (0, s))"

definition scale :: "int \<Rightarrow> nat \<Rightarrow> int \<Rightarrow> number" where
  "scale m k e =
     (if e \<ge> 0 then normalise (m * 10 ^ nat e) k else normalise m (k + nat (- e)))"

definition parse_sign :: "string \<Rightarrow> int \<times> string" where
  "parse_sign s = (case s of c # r \<Rightarrow> if c = CHR ''-'' then (-1, r) else (1, s) | [] \<Rightarrow> (1, s))"

definition parse_fraction :: "string parser" where
  "parse_fraction u =
     (case u of
        c # r \<Rightarrow>
          if c = CHR ''.'' then
            (if takeWhile is_digit r = [] then None
             else Some (takeWhile is_digit r, dropWhile is_digit r))
          else Some ([], u)
      | [] \<Rightarrow> Some ([], u))"

definition parse_number :: "number parser" where
  "parse_number s =
     (let (sg, t) = parse_sign s;
          ds = takeWhile is_digit t
      in if ds = [] \<or> (hd ds = CHR ''0'' \<and> length ds > 1) then None
         else
           (case parse_fraction (dropWhile is_digit t) of
              None \<Rightarrow> None
            | Some (fs, w) \<Rightarrow>
                (case parse_exponent w of
                   None \<Rightarrow> None
                 | Some (e, rest) \<Rightarrow>
                     Some (scale (sg * int (value_of_digits 0 (ds @ fs))) (length fs) e, rest))))"

text \<open>A repeated key keeps its first position and takes the last value.\<close>

fun set_member :: "string \<Rightarrow> jsval \<Rightarrow> (string \<times> jsval) list \<Rightarrow> (string \<times> jsval) list" where
  "set_member k v [] = [(k, v)]"
| "set_member k v ((l, w) # kvs) = (if l = k then (l, v) # kvs else (l, w) # set_member k v kvs)"

text \<open>
  The recursion is bounded by a fuel argument.  Each step from a value to its items or members
  consumes the opening bracket, and each further item a comma, so the \<open>2 * length s + 2\<close> that
  \<open>json_parse\<close> starts with is not exhausted; \<open>json_parse_stringify\<close> in \<open>Json_Roundtrip\<close> proves
  it for every printed value.
\<close>

fun parse_value :: "nat \<Rightarrow> jsval parser"
  and parse_items :: "nat \<Rightarrow> jsval list \<Rightarrow> jsval list parser"
  and parse_members :: "nat \<Rightarrow> (string \<times> jsval) list \<Rightarrow> (string \<times> jsval) list parser" where
  "parse_value 0 s = None"
| "parse_value (Suc n) s =
     (case skip_space s of
        [] \<Rightarrow> None
      | c # r \<Rightarrow>
          if c = CHR ''{'' then
            (if prefix ''}'' (skip_space r) then Some (JObj [], tl (skip_space r))
             else map_option (\<lambda>(kvs, t). (JObj kvs, t)) (parse_members n [] r))
          else if c = CHR ''['' then
            (if prefix '']'' (skip_space r) then Some (JArr [], tl (skip_space r))
             else map_option (\<lambda>(xs, t). (JArr xs, t)) (parse_items n [] r))
          else if c = CHR 0x22 then map_option (\<lambda>(x, t). (JStr x, t)) (parse_chars r)
          else if prefix ''null'' (c # r) then Some (JNull, drop 4 (c # r))
          else if prefix ''true'' (c # r) then Some (JBool True, drop 4 (c # r))
          else if prefix ''false'' (c # r) then Some (JBool False, drop 5 (c # r))
          else map_option (\<lambda>(x, t). (JNum x, t)) (parse_number (c # r)))"
| "parse_items 0 acc s = None"
| "parse_items (Suc n) acc s =
     (case parse_value n s of
        None \<Rightarrow> None
      | Some (v, t) \<Rightarrow>
          (case skip_space t of
             [] \<Rightarrow> None
           | c # r \<Rightarrow>
               if c = CHR '','' then parse_items n (acc @ [v]) r
               else if c = CHR '']'' then Some (acc @ [v], r)
               else None))"
| "parse_members 0 acc s = None"
| "parse_members (Suc n) acc s =
     (case skip_space s of
        [] \<Rightarrow> None
      | q # r \<Rightarrow>
          if q \<noteq> CHR 0x22 then None
          else
            (case parse_chars r of
               None \<Rightarrow> None
             | Some (k, t) \<Rightarrow>
                 if \<not> prefix '':'' (skip_space t) then None
                 else
                   (case parse_value n (tl (skip_space t)) of
                      None \<Rightarrow> None
                    | Some (v, u) \<Rightarrow>
                        (case skip_space u of
                           [] \<Rightarrow> None
                         | c # w \<Rightarrow>
                             if c = CHR '','' then parse_members n (set_member k v acc) w
                             else if c = CHR ''}'' then Some (set_member k v acc, w)
                             else None))))"

definition json_parse :: "string \<Rightarrow> js_error + jsval" where
  "json_parse s =
     (case parse_value (2 * length s + 2) s of
        Some (v, t) \<Rightarrow> if skip_space t = [] then Inr v else Inl SyntaxError
      | None \<Rightarrow> Inl SyntaxError)"

end
