(* ===== verification/Json_Roundtrip.thy ===== *)
theory Json_Roundtrip
  imports Js_Value
begin

text \<open>
  Parsing a printed value gives the value back.  The clients of the NDJSON and event streams rest
  on this for the end-to-end delivery theorems, and the cluster provider for reading its comparison
  of two printed records as equality of the records.
\<close>

section \<open>Digits and numbers\<close>

lemma digit_char_facts:
  assumes "d < 10"
  shows "digit_value (digit_char d) = Some d"
    and "digit_char d = CHR ''0'' \<longleftrightarrow> d = 0"
proof -
  show "digit_value (digit_char d) = Some d" using assms
    by (simp add: digit_value_def digit_char_def)
  have "digit_char d = CHR ''0'' \<longleftrightarrow> (of_char (digit_char d) :: nat) = of_char (CHR ''0'')"
    by (simp only: of_char_eq_iff)
  then show "digit_char d = CHR ''0'' \<longleftrightarrow> d = 0" using assms by (simp add: digit_char_def)
qed

lemma is_digit_char [simp]: "d < 10 \<Longrightarrow> is_digit (digit_char d)"
  by (simp add: is_digit_def digit_char_facts)

lemma is_digit_examples [simp]:
  "is_digit (CHR ''0'')" "\<not> is_digit (CHR ''-'')" "\<not> is_digit (CHR ''.'')" "\<not> is_digit (CHR ''e'')"
  "\<not> is_digit (CHR ''E'')" "\<not> is_digit (CHR '','')" "\<not> is_digit (CHR '']'')"
  "\<not> is_digit (CHR ''}'')" "\<not> is_digit (CHR ''{'')" "\<not> is_digit (CHR ''['')"
  "\<not> is_digit (CHR 0x22)" "\<not> is_digit (CHR ''n'')" "\<not> is_digit (CHR ''t'')"
  "\<not> is_digit (CHR ''f'')"
  by (simp_all add: is_digit_def digit_value_def)

lemma nat_digits_ne [simp]: "nat_digits n \<noteq> []"
  by (subst nat_digits.simps) simp

lemma nat_digits_all: "\<forall>c \<in> set (nat_digits n). is_digit c"
proof (induction n rule: nat_digits.induct)
  case (1 n)
  then show ?case by (subst nat_digits.simps) auto
qed

lemma value_of_digits_append:
  "value_of_digits a (xs @ ys) = value_of_digits (value_of_digits a xs) ys"
  by (induction xs arbitrary: a) auto

lemma value_of_digits_acc: "value_of_digits a xs = a * 10 ^ length xs + value_of_digits 0 xs"
proof (induction xs arbitrary: a)
  case Nil
  then show ?case by simp
next
  case (Cons x xs)
  let ?d = "case digit_value x of None \<Rightarrow> 0 | Some d \<Rightarrow> d"
  show ?case using Cons [of "10 * a + ?d"] Cons [of ?d]
    by (simp add: algebra_simps)
qed

lemma value_of_nat_digits [simp]: "value_of_digits 0 (nat_digits n) = n"
proof (induction n rule: nat_digits.induct)
  case (1 n)
  show ?case
  proof (cases "n < 10")
    case True
    then show ?thesis by (subst nat_digits.simps) (simp add: digit_char_facts)
  next
    case False
    with 1 show ?thesis
      by (subst nat_digits.simps) (simp add: value_of_digits_append digit_char_facts)
  qed
qed

lemma nat_digits_zero: "hd (nat_digits n) = CHR ''0'' \<Longrightarrow> nat_digits n = ''0''"
proof (induction n rule: nat_digits.induct)
  case (1 n)
  show ?case
  proof (cases "n < 10")
    case True
    with "1.prems" show ?thesis
      by (simp add: nat_digits.simps [of n] nat_digits.simps [of 0] digit_char_facts)
  next
    case False
    then have e: "nat_digits n = nat_digits (n div 10) @ [digit_char (n mod 10)]"
      by (subst nat_digits.simps) simp
    with "1.prems" have "hd (nat_digits (n div 10)) = CHR ''0''" by simp
    with "1.IH" False have "nat_digits (n div 10) = ''0''" by simp
    then have "n div 10 = 0" using value_of_nat_digits [of "n div 10"]
      by (simp add: digit_value_def)
    with False show ?thesis by simp
  qed
qed

lemma nat_digits_length: "x < 10 ^ k \<Longrightarrow> 0 < k \<Longrightarrow> length (nat_digits x) \<le> k"
proof (induction k arbitrary: x)
  case 0
  then show ?case by simp
next
  case (Suc k)
  show ?case
  proof (cases "x < 10")
    case True
    then show ?thesis by (subst nat_digits.simps) simp
  next
    case False
    with Suc.prems have "0 < k" by (cases k) auto
    moreover have "x div 10 < 10 ^ k" using Suc.prems by simp
    ultimately have "length (nat_digits (x div 10)) \<le> k" using Suc.IH by blast
    with False show ?thesis by (subst nat_digits.simps) simp
  qed
qed

lemma pad_digits_facts:
  assumes "x < 10 ^ k" "0 < k"
  shows "length (pad_digits k x) = k" "\<forall>c \<in> set (pad_digits k x). is_digit c"
    "value_of_digits 0 (pad_digits k x) = x"
proof -
  show "length (pad_digits k x) = k"
    using nat_digits_length [OF assms] by (simp add: pad_digits_def Let_def)
  show "\<forall>c \<in> set (pad_digits k x). is_digit c"
    using nat_digits_all [of x] by (auto simp: pad_digits_def Let_def is_digit_examples)
  have z: "value_of_digits 0 (replicate j (CHR ''0'')) = 0" for j
    by (induction j) (simp_all add: digit_value_def)
  show "value_of_digits 0 (pad_digits k x) = x"
    by (simp add: pad_digits_def Let_def value_of_digits_append z)
qed

text \<open>What may follow a number: the end of the text, or no digit, point or exponent mark.\<close>

definition number_end :: "string \<Rightarrow> bool" where
  "number_end t =
     (case t of [] \<Rightarrow> True | c # _ \<Rightarrow> \<not> is_digit c \<and> c \<noteq> CHR ''.'' \<and> c \<noteq> CHR ''e'' \<and> c \<noteq> CHR ''E'')"

lemma digits_span:
  assumes "\<forall>c \<in> set ds. is_digit c" "t = [] \<or> \<not> is_digit (hd t)"
  shows "takeWhile is_digit (ds @ t) = ds" "dropWhile is_digit (ds @ t) = t"
proof -
  have "takeWhile is_digit t = []" "dropWhile is_digit t = t"
    using assms(2) by (cases t; simp)+
  then show "takeWhile is_digit (ds @ t) = ds" "dropWhile is_digit (ds @ t) = t"
    using assms(1) by (simp_all add: takeWhile_append2 dropWhile_append2)
qed

lemma number_end_digit: "number_end t \<Longrightarrow> t = [] \<or> \<not> is_digit (hd t)"
  by (cases t) (auto simp: number_end_def)

lemma parse_exponent_end: "number_end t \<Longrightarrow> parse_exponent t = Some (0, t)"
  by (cases t) (auto simp: parse_exponent_def number_end_def)

lemma scale_normal: "normal_number (Num m k) \<Longrightarrow> scale m k 0 = Num m k"
  by (cases k) (auto simp: scale_def)

lemma parse_sign_print:
  "parse_sign ((if m < 0 then ''-'' else []) @ nat_digits a @ u)
     = (if m < 0 then -1 else 1, nat_digits a @ u)"
proof -
  obtain c r where cr: "nat_digits a = c # r" by (cases "nat_digits a") auto
  then have "is_digit c" using nat_digits_all [of a] by simp
  then show ?thesis using cr by (auto simp: parse_sign_def is_digit_examples)
qed

lemma parse_fraction_print:
  assumes "\<forall>c \<in> set fs. is_digit c" "number_end t"
    and "u = (if fs = [] then t else CHR ''.'' # fs @ t)"
  shows "parse_fraction u = Some (fs, t)"
proof (cases "fs = []")
  case True
  with assms show ?thesis
    by (auto simp: parse_fraction_def number_end_def split: list.splits)
next
  case False
  moreover have "takeWhile is_digit (fs @ t) = fs" "dropWhile is_digit (fs @ t) = t"
    using digits_span [OF assms(1) number_end_digit [OF assms(2)]] by simp_all
  ultimately show ?thesis using assms by (simp add: parse_fraction_def)
qed

lemma parse_number_digits:
  assumes fs: "\<forall>c \<in> set fs. is_digit c" "length fs = k"
    and u: "u = (if fs = [] then t else CHR ''.'' # fs @ t)" "number_end t"
    and n: "value_of_digits 0 (nat_digits a @ fs) = nat \<bar>m\<bar>" "normal_number (Num m k)"
  shows "parse_number ((if m < 0 then ''-'' else []) @ nat_digits a @ u) = Some (Num m k, t)"
proof -
  have sp: "takeWhile is_digit (nat_digits a @ u) = nat_digits a"
           "dropWhile is_digit (nat_digits a @ u) = u"
    using digits_span [OF nat_digits_all, of u a] number_end_digit [OF u(2)] u(1) by auto
  have zero: "\<not> (hd (nat_digits a) = CHR ''0'' \<and> length (nat_digits a) > 1)"
    using nat_digits_zero [of a] by auto
  have m: "(if m < 0 then - 1 else 1) * int (value_of_digits 0 (nat_digits a @ fs)) = m"
    by (simp add: n(1))
  show ?thesis
    unfolding parse_number_def parse_sign_print Let_def case_prod_conv sp
      parse_fraction_print [OF fs(1) u(2,1)] option.case parse_exponent_end [OF u(2)] m fs(2)
      scale_normal [OF n(2)]
    using zero by simp
qed

lemma print_number_alt:
  "print_number (Num m k) =
     (if m < 0 then ''-'' else []) @ nat_digits (nat \<bar>m\<bar> div 10 ^ k)
     @ (if k = 0 then [] else CHR ''.'' # pad_digits k (nat \<bar>m\<bar> mod 10 ^ k))"
  by (simp add: Let_def)

lemma parse_print_number:
  assumes "normal_number x" "number_end t"
  shows "parse_number (print_number x @ t) = Some (x, t)"
proof (cases x)
  case (Num m k)
  define n where "n = nat \<bar>m\<bar>"
  define f where "f = (if k = 0 then [] else pad_digits k (n mod 10 ^ k))"
  define u where "u = (if f = [] then t else CHR ''.'' # f @ t)"
  have f: "length f = k" "\<forall>c \<in> set f. is_digit c" "value_of_digits 0 f = n mod 10 ^ k"
    using pad_digits_facts [of "n mod 10 ^ k" k] by (auto simp: f_def)
  have "value_of_digits 0 (nat_digits (n div 10 ^ k) @ f) = n div 10 ^ k * 10 ^ k + n mod 10 ^ k"
    using value_of_digits_acc [of "n div 10 ^ k" f] f
    by (simp only: value_of_digits_append value_of_nat_digits)
  then have v: "value_of_digits 0 (nat_digits (n div 10 ^ k) @ f) = nat \<bar>m\<bar>"
    by (simp only: div_mult_mod_eq n_def)
  have "f = [] \<longleftrightarrow> k = 0" using f(1) by auto
  then have "print_number x @ t = (if m < 0 then ''-'' else []) @ nat_digits (n div 10 ^ k) @ u"
    unfolding Num print_number_alt u_def n_def [symmetric] by (simp add: f_def)
  moreover have "normal_number (Num m k)" using assms(1) Num by simp
  ultimately show ?thesis
    using parse_number_digits [OF f(2,1) u_def assms(2) v] Num by simp
qed

section \<open>Strings\<close>

lemma hex_value_char: "d < 16 \<Longrightarrow> hex_value (hex_char d) = Some d"
  by (simp add: hex_value_def hex_char_def Let_def)

lemma parse_short_escape:
  "e \<noteq> CHR ''u'' \<Longrightarrow> unescape e = Some d \<Longrightarrow>
     parse_chars (CHR 0x5C # e # r) = map_option (\<lambda>(s, t). (d # s, t)) (parse_chars r)"
  by simp

lemma short_escapes:
  assumes "c \<in> set [CHR 0x22, CHR 0x5C, CHR 0x08, CHR 0x0C, CHR 0x0A, CHR 0x0D, CHR 0x09]"
  shows "\<exists>e. escape_char c = [CHR 0x5C, e] \<and> e \<noteq> CHR ''u'' \<and> unescape e = Some c"
  using assms by (simp, elim disjE) (simp_all add: escape_char_def unescape_def)

lemma parse_escape_char:
  "parse_chars (escape_char c @ r) = map_option (\<lambda>(s, t). (c # s, t)) (parse_chars r)"
proof (cases "c \<in> set [CHR 0x22, CHR 0x5C, CHR 0x08, CHR 0x0C, CHR 0x0A, CHR 0x0D, CHR 0x09]")
  case True
  from short_escapes [OF this] obtain e where "escape_char c = [CHR 0x5C, e]" "e \<noteq> CHR ''u''"
    "unescape e = Some c" by blast
  then show ?thesis using parse_short_escape by simp
next
  case False
  then have ne: "c \<noteq> CHR 0x22" "c \<noteq> CHR 0x5C" by simp_all
  show ?thesis
  proof (cases "(of_char c :: nat) < 32")
    case True
    let ?n = "of_char c :: nat"
    have esc: "escape_char c @ r = CHR 0x5C # CHR ''u'' # CHR ''0'' # CHR ''0''
        # hex_char (?n div 16) # hex_char (?n mod 16) # r"
      using False True by (simp add: escape_char_def)
    have "?n div 16 < 16" "?n mod 16 < 16" using True by auto
    then have hx: "hex_value (hex_char (?n div 16)) = Some (?n div 16)"
      "hex_value (hex_char (?n mod 16)) = Some (?n mod 16)"
      by (simp_all add: hex_value_char)
    have z: "hex_value (CHR ''0'') = Some 0" by (simp add: hex_value_def)
    have "char_of (16 * (?n div 16) + ?n mod 16) = c" by simp
    then show ?thesis unfolding esc by (simp add: hx z)
  next
    case False
    then have "escape_char c = [c]" using ne \<open>c \<notin> _\<close> by (auto simp: escape_char_def)
    then show ?thesis using False ne by simp
  qed
qed

lemma parse_quote: "parse_chars (concat (map escape_char s) @ CHR 0x22 # t) = Some (s, t)"
proof (induction s)
  case Nil
  then show ?case by simp
next
  case (Cons c s)
  then show ?case by (simp add: parse_escape_char del: parse_chars.simps)
qed

section \<open>Values\<close>

text \<open>What \<open>JSON.parse\<close> can return: no \<open>undefined\<close>, normal numbers, no repeated key.\<close>

fun json_wf :: "jsval \<Rightarrow> bool"
  and json_wf_items :: "jsval list \<Rightarrow> bool"
  and json_wf_members :: "(string \<times> jsval) list \<Rightarrow> bool" where
  "json_wf JUndef = False"
| "json_wf JNull = True"
| "json_wf (JBool b) = True"
| "json_wf (JNum n) = normal_number n"
| "json_wf (JStr s) = True"
| "json_wf (JArr xs) = json_wf_items xs"
| "json_wf (JObj kvs) = (distinct (map fst kvs) \<and> json_wf_members kvs)"
| "json_wf_items [] = True"
| "json_wf_items (x # xs) = (json_wf x \<and> json_wf_items xs)"
| "json_wf_members [] = True"
| "json_wf_members ((k, v) # kvs) = (json_wf v \<and> json_wf_members kvs)"

text \<open>The fuel a printed value needs.\<close>

fun fuel_of :: "jsval \<Rightarrow> nat"
  and fuel_of_items :: "jsval list \<Rightarrow> nat"
  and fuel_of_members :: "(string \<times> jsval) list \<Rightarrow> nat" where
  "fuel_of (JArr xs) = Suc (fuel_of_items xs)"
| "fuel_of (JObj kvs) = Suc (fuel_of_members kvs)"
| "fuel_of JUndef = 1"
| "fuel_of JNull = 1"
| "fuel_of (JBool b) = 1"
| "fuel_of (JNum x) = 1"
| "fuel_of (JStr s) = 1"
| "fuel_of_items [] = 0"
| "fuel_of_items (x # xs) = Suc (max (fuel_of x) (fuel_of_items xs))"
| "fuel_of_members [] = 0"
| "fuel_of_members ((k, v) # kvs) = Suc (max (fuel_of v) (fuel_of_members kvs))"

lemma skip_space_Cons [simp]: "\<not> json_space c \<Longrightarrow> skip_space (c # s) = c # s"
  by (simp add: skip_space_def)

lemma json_space_examples [simp]:
  "\<not> json_space (CHR '','')" "\<not> json_space (CHR '']'')" "\<not> json_space (CHR ''}'')"
  "\<not> json_space (CHR ''{'')" "\<not> json_space (CHR ''['')" "\<not> json_space (CHR 0x22)"
  "\<not> json_space (CHR ''n'')" "\<not> json_space (CHR ''t'')" "\<not> json_space (CHR ''f'')"
  "\<not> json_space (CHR '':'')" "\<not> json_space (CHR ''-'')"
  by (simp_all add: json_space_def)

lemma digit_not_space: "is_digit c \<Longrightarrow> \<not> json_space c"
  by (auto simp: json_space_def is_digit_def digit_value_def)

text \<open>Where a value may end inside a document.\<close>

definition value_end :: "string \<Rightarrow> bool" where
  "value_end t = (case t of [] \<Rightarrow> True | c # _ \<Rightarrow> c = CHR '','' \<or> c = CHR '']'' \<or> c = CHR ''}'')"

lemma value_end_number: "value_end t \<Longrightarrow> number_end t"
  by (auto simp: value_end_def number_end_def split: list.splits)

lemma value_end_simps [simp]:
  "value_end []" "value_end (CHR '','' # t)" "value_end (CHR '']'' # t)" "value_end (CHR ''}'' # t)"
  by (simp_all add: value_end_def)

text \<open>The first character of a printed value decides the branch that parses it.\<close>

lemma print_number_chars:
  "c \<in> set (print_number x) \<Longrightarrow> c = CHR ''-'' \<or> c = CHR ''.'' \<or> is_digit c"
  using nat_digits_all
  by (cases x) (auto simp: pad_digits_def Let_def split: if_splits dest: spec)

lemma print_number_head:
  "\<exists>c r. print_number x = c # r \<and> (c = CHR ''-'' \<or> is_digit c)"
proof (cases x)
  case (Num m k)
  obtain c r where "nat_digits (nat \<bar>m\<bar> div 10 ^ k) = c # r"
    by (cases "nat_digits (nat \<bar>m\<bar> div 10 ^ k)") auto
  with nat_digits_all [of "nat \<bar>m\<bar> div 10 ^ k"] Num show ?thesis
    unfolding Num print_number_alt by auto
qed

lemma parse_value_number:
  assumes "normal_number x" "number_end t"
  shows "parse_value (Suc n) (print_number x @ t) = Some (JNum x, t)"
proof -
  obtain c r where c: "print_number x = c # r" "c = CHR ''-'' \<or> is_digit c"
    using print_number_head by blast
  then have ns: "\<not> json_space c" using digit_not_space by auto
  have ne: "c \<noteq> CHR ''{''" "c \<noteq> CHR ''[''" "c \<noteq> CHR 0x22" "c \<noteq> CHR ''n''" "c \<noteq> CHR ''t''"
    "c \<noteq> CHR ''f''" using c(2) by auto
  have "parse_number (c # r @ t) = Some (x, t)"
    using parse_print_number [OF assms] c(1) by simp
  with ns ne c(1) show ?thesis by simp
qed

lemma json_wf_not_undef: "json_wf v \<Longrightarrow> \<not> is_undef v"
  by (cases v) auto

lemma set_member_fresh: "k \<notin> fst ` set acc \<Longrightarrow> set_member k v acc = acc @ [(k, v)]"
  by (induction acc) auto

lemma stringify_head: "\<exists>c r. stringify v = c # r \<and> \<not> json_space c \<and> c \<noteq> CHR '']''"
proof (cases v)
  case (JNum x)
  with print_number_head [of x] show ?thesis
    using digit_not_space by (auto simp del: print_number.simps)
qed (auto simp: quote_def)

lemma join_Cons: "join sep (x # xs) = x @ (if xs = [] then [] else sep @ join sep xs)"
  by (cases xs) auto

lemma stringify_items_Nil_iff [simp]: "stringify_items xs = [] \<longleftrightarrow> xs = []"
  by (cases xs) auto

lemma stringify_members_Nil_iff: "json_wf_members kvs \<Longrightarrow> stringify_members kvs = [] \<longleftrightarrow> kvs = []"
  by (cases kvs) (auto simp: json_wf_not_undef)

lemma parse_items_step:
  assumes "parse_value n (s @ u) = Some (v, u)" "u = CHR '','' # w \<or> u = CHR '']'' # w"
  shows "parse_items (Suc n) acc (s @ u) =
    (if hd u = CHR '','' then parse_items n (acc @ [v]) w else Some (acc @ [v], w))"
  using assms by auto

lemma parse_members_step:
  assumes "parse_value n (s @ u) = Some (v, u)" "u = CHR '','' # w \<or> u = CHR ''}'' # w"
  shows "parse_members (Suc n) acc (quote k @ CHR '':'' # s @ u) =
    (if hd u = CHR '','' then parse_members n (set_member k v acc) w
     else Some (set_member k v acc, w))"
  using assms parse_quote [of k "CHR '':'' # s @ u"] by (auto simp: quote_def)

lemma parse_stringify:
  "json_wf v \<Longrightarrow> value_end t \<Longrightarrow> fuel_of v \<le> n \<Longrightarrow>
     parse_value n (stringify v @ t) = Some (v, t)"
  "json_wf_items xs \<Longrightarrow> xs \<noteq> [] \<Longrightarrow> fuel_of_items xs \<le> n \<Longrightarrow>
     parse_items n acc (join '','' (stringify_items xs) @ CHR '']'' # t) = Some (acc @ xs, t)"
  "json_wf_members kvs \<Longrightarrow> distinct (map fst (macc @ kvs)) \<Longrightarrow> kvs \<noteq> [] \<Longrightarrow>
     fuel_of_members kvs \<le> n \<Longrightarrow>
     parse_members n macc (join '','' (stringify_members kvs) @ CHR ''}'' # t) = Some (macc @ kvs, t)"
proof (induction v and xs and kvs arbitrary: n t and n acc t and n macc t
    rule: fuel_of_fuel_of_items_fuel_of_members.induct)
  case (1 xs)
  then obtain m where n: "n = Suc m" "fuel_of_items xs \<le> m" by (cases n) auto
  show ?case
  proof (cases xs)
    case Nil
    then show ?thesis by (simp add: n)
  next
    case (Cons x ys)
    obtain c r where c: "stringify x = c # r" "\<not> json_space c" "c \<noteq> CHR '']''"
      using stringify_head by blast
    have "parse_items m [] (join '','' (stringify_items xs) @ CHR '']'' # t) = Some (xs, t)"
      using "1.IH" [of m "[]" t] "1.prems" n Cons by simp
    moreover have "\<not> prefix '']'' (skip_space (join '','' (stringify_items xs) @ CHR '']'' # t))"
      using c Cons by (auto simp: join_Cons)
    ultimately show ?thesis by (simp add: n)
  qed
next
  case (2 kvs)
  then obtain m where n: "n = Suc m" "fuel_of_members kvs \<le> m" by (cases n) auto
  show ?case
  proof (cases kvs)
    case Nil
    then show ?thesis by (simp add: n)
  next
    case (Cons kv ys)
    have "parse_members m [] (join '','' (stringify_members kvs) @ CHR ''}'' # t) = Some (kvs, t)"
      using "2.IH" [of "[]" m t] "2.prems" n Cons by simp
    moreover have "\<not> prefix ''}'' (skip_space (join '','' (stringify_members kvs) @ CHR ''}'' # t))"
      using "2.prems" Cons by (cases kv) (auto simp: join_Cons quote_def json_wf_not_undef)
    ultimately show ?thesis by (simp add: n)
  qed
next
  case (3 n t)
  then show ?case by simp
next
  case (4 n t)
  then obtain m where "n = Suc m" by (cases n) auto
  then show ?case by simp
next
  case (5 b n t)
  then obtain m where "n = Suc m" by (cases n) auto
  then show ?case by simp
next
  case (6 x n t)
  then obtain m where "n = Suc m" by (cases n) auto
  with "6" show ?case using parse_value_number value_end_number by auto
next
  case (7 s n t)
  then obtain m where "n = Suc m" by (cases n) auto
  then show ?case using parse_quote [of s t] by (simp add: quote_def)
next
  case 8
  then show ?case by simp
next
  case (9 x xs)
  then obtain m where n: "n = Suc m" "fuel_of x \<le> m" "fuel_of_items xs \<le> m" by (cases n) auto
  define u where "u = (if xs = [] then [] else '','' @ join '','' (stringify_items xs)) @ CHR '']'' # t"
  have v: "parse_value m (stringify x @ u) = Some (x, u)"
    using "9.IH"(1) [of u m] "9.prems" n by (simp add: u_def)
  have e: "join '','' (stringify_items (x # xs)) @ CHR '']'' # t = stringify x @ u"
    by (simp add: u_def join_Cons)
  show ?case
  proof (cases "xs = []")
    case True
    with parse_items_step [OF v, of t acc] show ?thesis unfolding e n by (simp add: u_def)
  next
    case False
    have "parse_items m (acc @ [x]) (join '','' (stringify_items xs) @ CHR '']'' # t)
        = Some ((acc @ [x]) @ xs, t)"
      using "9.IH"(2) [of m "acc @ [x]" t] "9.prems" n False by simp
    with False parse_items_step [OF v, of "join '','' (stringify_items xs) @ CHR '']'' # t" acc]
    show ?thesis unfolding e n by (simp add: u_def)
  qed
next
  case 10
  then show ?case by simp
next
  case (11 k v kvs)
  then obtain m where n: "n = Suc m" "fuel_of v \<le> m" "fuel_of_members kvs \<le> m" by (cases n) auto
  define u where "u = (if kvs = [] then [] else '','' @ join '','' (stringify_members kvs)) @ CHR ''}'' # t"
  have v: "parse_value m (stringify v @ u) = Some (v, u)"
    using "11.IH"(1) [of u m] "11.prems" n by (simp add: u_def)
  have fresh: "set_member k v macc = macc @ [(k, v)]"
    using "11.prems" by (intro set_member_fresh) auto
  have e: "join '','' (stringify_members ((k, v) # kvs)) @ CHR ''}'' # t
      = quote k @ CHR '':'' # stringify v @ u"
    using "11.prems" by (simp add: u_def join_Cons json_wf_not_undef stringify_members_Nil_iff)
  show ?case
  proof (cases "kvs = []")
    case True
    with parse_members_step [OF v, of t macc k] fresh show ?thesis unfolding e n by (simp add: u_def)
  next
    case False
    have "parse_members m (macc @ [(k, v)]) (join '','' (stringify_members kvs) @ CHR ''}'' # t)
        = Some ((macc @ [(k, v)]) @ kvs, t)"
      using "11.IH"(2) [of "macc @ [(k, v)]" m t] "11.prems" n False by simp
    with False fresh
      parse_members_step [OF v, of "join '','' (stringify_members kvs) @ CHR ''}'' # t" macc k]
    show ?thesis unfolding e n by (simp add: u_def)
  qed
qed

text \<open>The text of a value is long enough for the fuel that \<open>json_parse\<close> starts with.\<close>

lemma fuel_of_bound:
  "json_wf v \<Longrightarrow> fuel_of v \<le> length (stringify v)"
  "json_wf_items xs \<Longrightarrow> fuel_of_items xs \<le> Suc (length (join '','' (stringify_items xs)))"
  "json_wf_members kvs \<Longrightarrow> fuel_of_members kvs \<le> Suc (length (join '','' (stringify_members kvs)))"
proof (induction v and xs and kvs rule: fuel_of_fuel_of_items_fuel_of_members.induct)
  case (6 x)
  obtain c r where "print_number x = c # r" using print_number_head by blast
  then show ?case by (simp del: print_number.simps)
next
  case (11 k v kvs)
  then show ?case
    by (auto simp: join_Cons json_wf_not_undef stringify_members_Nil_iff)
qed (auto simp: join_Cons quote_def)

theorem json_parse_stringify: "json_wf v \<Longrightarrow> json_parse (stringify v) = Inr v"
proof -
  assume wf: "json_wf v"
  have "parse_value (2 * length (stringify v) + 2) (stringify v @ []) = Some (v, [])"
    using fuel_of_bound(1) [OF wf] by (intro parse_stringify(1) wf) simp_all
  then show ?thesis by (simp add: json_parse_def skip_space_def)
qed

lemma stringify_inj: "json_wf v \<Longrightarrow> json_wf w \<Longrightarrow> stringify v = stringify w \<longleftrightarrow> v = w"
  by (metis json_parse_stringify sum.inject(2))

section \<open>Parsed values are well formed\<close>

lemma parse_number_normal: "parse_number s = Some (n, t) \<Longrightarrow> normal_number n"
  using normal_normalise
  by (auto simp: parse_number_def scale_def Let_def split: prod.splits if_splits option.splits)

lemma json_wf_items_append: "json_wf_items (xs @ ys) = (json_wf_items xs \<and> json_wf_items ys)"
  by (induction xs) auto

lemma set_member_keys: "set (map fst (set_member k v kvs)) = insert k (set (map fst kvs))"
  by (induction k v kvs rule: set_member.induct) (simp_all add: insert_commute)

lemma set_member_wf:
  "distinct (map fst kvs) \<Longrightarrow> json_wf_members kvs \<Longrightarrow> json_wf v \<Longrightarrow>
     distinct (map fst (set_member k v kvs)) \<and> json_wf_members (set_member k v kvs)"
proof (induction kvs)
  case (Cons kv kvs)
  then show ?case using set_member_keys [of k v kvs] by (cases kv) auto
qed simp

definition members_wf :: "(string \<times> jsval) list \<Rightarrow> bool" where
  "members_wf kvs = (distinct (map fst kvs) \<and> json_wf_members kvs)"

lemma parse_wf:
  "(\<forall>s v t. parse_value n s = Some (v, t) \<longrightarrow> json_wf v)
   \<and> (\<forall>acc s xs t. parse_items n acc s = Some (xs, t) \<longrightarrow> json_wf_items acc \<longrightarrow> json_wf_items xs)
   \<and> (\<forall>acc s kvs t. parse_members n acc s = Some (kvs, t) \<longrightarrow> members_wf acc \<longrightarrow> members_wf kvs)"
proof (induction n)
  case 0
  then show ?case by simp
next
  case (Suc n)
  then have v: "\<And>s v t. parse_value n s = Some (v, t) \<Longrightarrow> json_wf v"
    and i: "\<And>acc s xs t. parse_items n acc s = Some (xs, t) \<Longrightarrow> json_wf_items acc \<Longrightarrow> json_wf_items xs"
    and m: "\<And>acc s kvs t. parse_members n acc s = Some (kvs, t) \<Longrightarrow> members_wf acc \<Longrightarrow> members_wf kvs"
    by blast+
  have "json_wf v" if "parse_value (Suc n) s = Some (v, t)" for s v t
    using that i [of "[]"] m [of "[]"] parse_number_normal
    by (auto simp: members_wf_def split: list.splits if_splits)
  moreover have "json_wf_items xs" if "parse_items (Suc n) acc s = Some (xs, t)" "json_wf_items acc"
    for acc s xs t
    using that v i by (auto simp: json_wf_items_append split: list.splits if_splits option.splits)
  moreover have "members_wf kvs" if "parse_members (Suc n) acc s = Some (kvs, t)" "members_wf acc"
    for acc s kvs t
  proof -
    have ins: "members_wf (set_member k w acc)" if "json_wf w" for k w
      using that \<open>members_wf acc\<close> set_member_wf by (simp add: members_wf_def)
    show ?thesis
      using that(1) v m ins by (auto split: list.splits if_splits option.splits)
  qed
  ultimately show ?case by blast
qed

lemma json_parse_wf: "json_parse s = Inr v \<Longrightarrow> json_wf v"
  using parse_wf by (fastforce simp: json_parse_def simp del: parse_value.simps split: option.splits if_splits)
section \<open>Printed values are one line\<close>

lemma newline_no_digit: "\<not> is_digit newline" "hex_value newline = None"
  by code_simp+

lemma digits_no_newline: "\<forall>c \<in> set s. is_digit c \<Longrightarrow> newline \<notin> set s"
  using newline_no_digit(1) by blast

lemma hex_char_not_newline: "d < 16 \<Longrightarrow> hex_char d \<noteq> newline"
  using hex_value_char [of d] newline_no_digit(2) by force

lemma escape_no_newline: "newline \<notin> set (escape_char c)"
proof -
  have "hex_char (of_char c div 16) \<noteq> newline" if "(of_char c :: nat) < 32"
    using that by (intro hex_char_not_newline) simp
  moreover have "hex_char (of_char c mod 16) \<noteq> newline" by (intro hex_char_not_newline) simp
  ultimately show ?thesis by (simp add: escape_char_def) metis
qed

lemma quote_no_newline: "newline \<notin> set (quote s)"
  using escape_no_newline by (auto simp: quote_def)

lemma print_number_no_newline: "newline \<notin> set (print_number n)"
proof (cases n)
  case (Num m k)
  have "newline \<notin> set (nat_digits x)" for x
    using digits_no_newline nat_digits_all by blast
  moreover have "newline \<notin> set (pad_digits w x)" for w x
    using calculation by (simp add: pad_digits_def Let_def)
  ultimately show ?thesis by (simp add: Num Let_def)
qed

lemma join_no_newline:
  "newline \<notin> set sep \<Longrightarrow> \<forall>x \<in> set xs. newline \<notin> set x \<Longrightarrow> newline \<notin> set (join sep xs)"
  by (induction sep xs rule: join.induct) auto

lemma stringify_no_newline:
  "newline \<notin> set (stringify v)"
  "\<forall>x \<in> set (stringify_items xs). newline \<notin> set x"
  "\<forall>x \<in> set (stringify_members kvs). newline \<notin> set x"
proof (induction v and xs and kvs rule: stringify_stringify_items_stringify_members.induct)
  case (4 n)
  then show ?case by (simp add: print_number_no_newline)
next
  case (5 s)
  then show ?case by (simp add: quote_no_newline)
next
  case (6 xs)
  then show ?case using join_no_newline [of "'',''"] by simp
next
  case (7 kvs)
  then show ?case using join_no_newline [of "'',''"] by simp
next
  case (11 k v kvs)
  then show ?case by (simp add: quote_no_newline)
qed simp_all

end
