(* ===== verification/Line_Framing.thy ===== *)
theory Line_Framing
  imports Js_String
begin

text \<open>
  The contract that both streaming clients rely on: text arrives in chunks cut at arbitrary places,
  a feed operation turns a buffer and a chunk into the completed lines and the new buffer.  The
  laws are what the read loops promise; the lemmas of the locale say that the lines delivered do
  not depend on how the text was cut.
\<close>

definition lines_text :: "string list \<Rightarrow> string" where
  "lines_text ls = concat (map (\<lambda>l. l @ [newline]) ls)"

fun feed_all :: "(string \<Rightarrow> string \<Rightarrow> string list \<times> string) \<Rightarrow> string \<Rightarrow> string list
    \<Rightarrow> string list \<times> string" where
  "feed_all f b [] = ([], b)"
| "feed_all f b (c # cs) =
     (let (ls, b') = f b c; (ms, b'') = feed_all f b' cs in (ls @ ms, b''))"

locale line_framing =
  fixes feed :: "string \<Rightarrow> string \<Rightarrow> string list \<times> string"
  assumes feed_append:
      "feed b (c @ d) = (let (ls, b') = feed b c; (ms, b'') = feed b' d in (ls @ ms, b''))"
    and feed_rest: "feed b c = (ls, b') \<Longrightarrow> newline \<notin> set b'"
    and feed_partial: "newline \<notin> set b \<Longrightarrow> newline \<notin> set c \<Longrightarrow> feed b c = ([], b @ c)"
    and feed_line: "newline \<notin> set b \<Longrightarrow> newline \<notin> set c \<Longrightarrow> feed b (c @ [newline]) = ([b @ c], [])"
begin

lemma feed_empty: "newline \<notin> set b \<Longrightarrow> feed b [] = ([], b)"
  using feed_partial [of b "[]"] by simp

lemma feed_all_concat: "newline \<notin> set b \<Longrightarrow> feed_all feed b cs = feed b (concat cs)"
proof (induction cs arbitrary: b)
  case Nil
  then show ?case by (simp add: feed_empty)
next
  case (Cons c cs)
  obtain ls b' where f: "feed b c = (ls, b')" by fastforce
  then have "feed_all feed b' cs = feed b' (concat cs)" using Cons.IH feed_rest by blast
  with f show ?case by (simp add: feed_append)
qed

lemma feed_lines:
  "\<forall>l \<in> set ls. newline \<notin> set l \<Longrightarrow> feed [] (lines_text ls @ r) =
     (let (ms, b) = feed [] r in (ls @ ms, b))"
proof (induction ls)
  case Nil
  then show ?case by (simp add: lines_text_def split: prod.split)
next
  case (Cons l ls)
  then have "feed [] (l @ [newline]) = ([l], [])" using feed_line [of "[]" l] by simp
  with Cons show ?case
    using feed_append [of "[]" "l @ [newline]" "lines_text ls @ r"]
    by (simp add: lines_text_def Let_def split: prod.splits)
qed

lemma feed_all_lines:
  assumes "concat cs = lines_text ls @ r" "\<forall>l \<in> set ls. newline \<notin> set l" "newline \<notin> set r"
  shows "feed_all feed [] cs = (ls, r)"
  using assms feed_all_concat [of "[]" cs] feed_lines [of ls r] feed_partial [of "[]" r]
  by simp

lemma feed_all_cut:
  assumes "concat cs = concat ds"
  shows "feed_all feed [] cs = feed_all feed [] ds"
  using assms by (simp add: feed_all_concat)

end

text \<open>
  The splitting that both sources write, \<open>buffer.split('\n')\<close> followed by \<open>lines.pop() || ''\<close>,
  satisfies the laws.
\<close>

lemma split_feed_append:
  "(butlast (split_lines (b @ c @ d)), last (split_lines (b @ c @ d))) =
     (let b' = last (split_lines (b @ c)) in
      (butlast (split_lines (b @ c)) @ butlast (split_lines (b' @ d)), last (split_lines (b' @ d))))"
  using split_on_append [of "\<lambda>c. c = newline" "b @ c" d]
  by (simp add: Let_def butlast_append)

lemma split_feed_rest: "newline \<notin> set (last (split_lines s))"
  using split_on_free [of "last (split_lines s)" "\<lambda>c. c = newline" s] by auto

lemma split_feed_partial: "newline \<notin> set s \<Longrightarrow> split_lines s = [s]"
  by (rule split_on_no_sep) auto

lemma split_feed_line: "newline \<notin> set s \<Longrightarrow> split_lines (s @ [newline]) = [s, []]"
  using split_on_sep [of s "\<lambda>c. c = newline" newline "[]"] by auto

lemmas split_feed_laws = split_feed_rest split_feed_partial split_feed_line

end
