(* ===== verification/Sse.thy ===== *)
theory Sse
  imports Json_Roundtrip Line_Framing
begin

text \<open>
  \<open>createSSE\<close> of \<open>services/chat.tsx\<close>: the event-stream client of the chat.  The client's closure
  variables and the phase of every request it has started form \<open>sse_state\<close>; its callbacks act on
  the state of their owner, a type parameter.  A \<open>fetch\<close> or a \<open>read\<close> that settles is a
  \<open>net_event\<close>; promises that a call settles itself (cancelling a reader, aborting a request) are
  queued as microtasks and run before any further event.
\<close>

section \<open>Messages\<close>

record sse_message =
  ev_name :: string
  ev_id :: "string option"
  ev_data :: jsval

definition new_message :: sse_message where
  "new_message = \<lparr>ev_name = ''message'', ev_id = None, ev_data = JUndef\<rparr>"

text \<open>
  \<open>walk\<close>: a \<open>null\<close> becomes \<open>undefined\<close> in an array and disappears from an object, at every depth
  below the root.
\<close>

fun walk :: "jsval \<Rightarrow> jsval"
  and walk_items :: "jsval list \<Rightarrow> jsval list"
  and walk_members :: "(string \<times> jsval) list \<Rightarrow> (string \<times> jsval) list" where
  "walk (JArr xs) = JArr (walk_items xs)"
| "walk (JObj kvs) = JObj (walk_members kvs)"
| "walk v = v"
| "walk_items [] = []"
| "walk_items (x # xs) = (if x = JNull then JUndef else walk x) # walk_items xs"
| "walk_members [] = []"
| "walk_members ((k, v) # kvs) =
     (if v = JNull then walk_members kvs else (k, walk v) # walk_members kvs)"

text \<open>One line of the stream; \<open>None\<close> where the loop body returns before the callback.\<close>

definition apply_line :: "string \<Rightarrow> sse_message \<Rightarrow> sse_message option" where
  "apply_line line m =
     (let colon = index_of line '':'' in
      if colon \<le> 0 then None
      else
        (let field = trim (take (nat colon) line);
             val = trim (drop (nat colon + 1) line)
         in if prefix '':'' val then None
            else if field = ''event'' then Some (m\<lparr>ev_name := val\<rparr>)
            else if field = ''id'' then Some (m\<lparr>ev_id := Some val\<rparr>)
            else if field = ''data'' then
              Some (m\<lparr>ev_data := (case json_parse val of Inr v \<Rightarrow> walk v | Inl _ \<Rightarrow> JStr val)\<rparr>)
            else Some m))"

text \<open>
  \<open>processLines\<close>: one message object for all lines of a chunk.  The callback runs after every line
  that does not return early, once the object has data; if it throws, the loop ends with the error
  and the effects so far stay.
\<close>

fun process_lines :: "(sse_message \<Rightarrow> 'o \<Rightarrow> 'o \<times> js_error option) \<Rightarrow> string list \<Rightarrow>
    sse_message \<Rightarrow> 'o \<Rightarrow> 'o \<times> js_error option" where
  "process_lines cb [] m s = (s, None)"
| "process_lines cb (l # ls) m s =
     (case apply_line l m of
        None \<Rightarrow> process_lines cb ls m s
      | Some m' \<Rightarrow>
          if ev_data m' = JUndef then process_lines cb ls m' s
          else
            (case cb m' s of
               (s', None) \<Rightarrow> process_lines cb ls m' s'
             | (s', Some e) \<Rightarrow> (s', Some e)))"

section \<open>The client\<close>

datatype phase = Unused | Fetching | Reading string | Finished

datatype net_event =
    Response nat int "string option" bool
  | Chunk nat string
  | End_of_stream nat
  | Reject nat js_error

record sse_state =
  reader :: "nat option"
  abort_controller :: "nat option"
  conns :: "nat \<Rightarrow> phase"
  next_conn :: nat
  microtasks :: "net_event list"

definition init_sse :: sse_state where
  "init_sse = \<lparr>reader = None, abort_controller = None, conns = (\<lambda>_. Unused), next_conn = 0,
     microtasks = []\<rparr>"

record 'o callbacks =
  on_open :: "'o \<Rightarrow> 'o"
  on_close :: "'o \<Rightarrow> 'o"
  on_error :: "js_error \<Rightarrow> 'o \<Rightarrow> 'o"
  on_message :: "sse_message \<Rightarrow> 'o \<Rightarrow> 'o \<times> js_error option"

text \<open>The body of the request.\<close>

definition request_body :: "jsval \<Rightarrow> jsval \<Rightarrow> jsval" where
  "request_body model messages =
     JObj [(''stream'', JBool True), (''model'', model), (''messages'', messages),
           (''max_tokens'', JNum (num_of_int 2048)),
           (''sampling_params'', JObj [(''top_k'', JNum (num_of_int 3))])]"

definition connect :: "'o callbacks \<Rightarrow> sse_state \<times> 'o \<Rightarrow> sse_state \<times> 'o" where
  "connect cb = (\<lambda>(st, s).
     let c = next_conn st in
     (st\<lparr>abort_controller := Some c, conns := (conns st)(c := Fetching), next_conn := Suc c\<rparr>,
      on_open cb s))"

definition finish :: "nat \<Rightarrow> sse_state \<Rightarrow> sse_state" where
  "finish c st = st\<lparr>conns := (conns st)(c := Finished)\<rparr>"

text \<open>The \<open>catch\<close> at the end of the promise chain.\<close>

definition catch_error :: "'o callbacks \<Rightarrow> nat \<Rightarrow> js_error \<Rightarrow> sse_state \<times> 'o \<Rightarrow> sse_state \<times> 'o" where
  "catch_error cb c e = (\<lambda>(st, s).
     (finish c st, if e = AbortError then on_close cb s else on_error cb e s))"

definition int_text :: "int \<Rightarrow> string" where
  "int_text i = print_number (num_of_int i)"

definition on_response ::
    "'o callbacks \<Rightarrow> nat \<Rightarrow> int \<Rightarrow> string option \<Rightarrow> bool \<Rightarrow> sse_state \<times> 'o \<Rightarrow> sse_state \<times> 'o" where
  "on_response cb c status ctype has_body = (\<lambda>(st, s).
     if status \<noteq> 200 then
       (finish c st, on_error cb (ErrorMsg (''[SSE] Failed to connect: '' @ int_text status)) s)
     else if (case ctype of None \<Rightarrow> True | Some t \<Rightarrow> \<not> str_includes t ''text/event-stream'') then
       (finish c st, on_error cb (ErrorMsg (''[SSE] Invalid content type: ''
          @ (case ctype of None \<Rightarrow> ''null'' | Some t \<Rightarrow> t))) s)
     else if \<not> has_body then
       (finish c (st\<lparr>reader := None\<rparr>), on_error cb (ErrorMsg ''[SSE] Failed to get reader'') s)
     else
       (st\<lparr>reader := Some c, conns := (conns st)(c := Reading [])\<rparr>, s))"

text \<open>The buffer handling of the read loop.\<close>

definition sse_feed :: "string \<Rightarrow> string \<Rightarrow> string list \<times> string" where
  "sse_feed buffer chunk =
     (let parts = split_lines (buffer @ chunk) in (butlast parts, last parts))"

text \<open>
  One round of the read loop with a decoded chunk.  The next round calls \<open>read\<close> on the variable
  \<open>reader\<close>, a \<open>TypeError\<close> when it has been unset meanwhile.
\<close>

definition on_chunk :: "'o callbacks \<Rightarrow> nat \<Rightarrow> string \<Rightarrow> string \<Rightarrow> sse_state \<times> 'o \<Rightarrow> sse_state \<times> 'o" where
  "on_chunk cb c buffer chunk = (\<lambda>(st, s).
     let (ls, rest) = sse_feed buffer chunk in
     case process_lines (on_message cb) ls new_message s of
       (s', Some e) \<Rightarrow> catch_error cb c e (st, s')
     | (s', None) \<Rightarrow>
         if reader st = None then catch_error cb c TypeError (st, s')
         else (st\<lparr>conns := (conns st)(c := Reading rest)\<rparr>, s'))"

fun net_step :: "'o callbacks \<Rightarrow> net_event \<Rightarrow> sse_state \<times> 'o \<Rightarrow> sse_state \<times> 'o" where
  "net_step cb (Response c status ctype has_body) (st, s) =
     (if conns st c = Fetching then on_response cb c status ctype has_body (st, s) else (st, s))"
| "net_step cb (Chunk c text) (st, s) =
     (case conns st c of Reading buffer \<Rightarrow> on_chunk cb c buffer text (st, s) | _ \<Rightarrow> (st, s))"
| "net_step cb (End_of_stream c) (st, s) =
     (case conns st c of Reading buffer \<Rightarrow> (finish c st, on_close cb s) | _ \<Rightarrow> (st, s))"
| "net_step cb (Reject c e) (st, s) =
     (case conns st c of
        Fetching \<Rightarrow> catch_error cb c e (st, s)
      | Reading buffer \<Rightarrow> catch_error cb c e (st, s)
      | _ \<Rightarrow> (st, s))"

fun is_reading :: "phase \<Rightarrow> bool" where
  "is_reading (Reading b) = True"
| "is_reading p = False"

fun is_live :: "phase \<Rightarrow> bool" where
  "is_live Fetching = True"
| "is_live (Reading b) = True"
| "is_live p = False"

text \<open>
  \<open>disconnect\<close>: cancelling the reader ends its pending read; aborting with the reason \<open>'stop'\<close>
  rejects a pending \<open>fetch\<close> (or a pending read of another reader) with that very string.
\<close>

definition disconnect :: "'o callbacks \<Rightarrow> sse_state \<times> 'o \<Rightarrow> sse_state \<times> 'o" where
  "disconnect cb = (\<lambda>(st, s).
     let cancelled = (case reader st of
            Some r \<Rightarrow> if is_reading (conns st r) then [End_of_stream r] else []
          | None \<Rightarrow> []);
         aborted = (case abort_controller st of
            Some c \<Rightarrow>
              if conns st c = Fetching \<or> is_reading (conns st c) \<and> reader st \<noteq> Some c
              then [Reject c (Thrown ''stop'')] else []
          | None \<Rightarrow> [])
     in (st\<lparr>reader := None, abort_controller := None,
            microtasks := microtasks st @ cancelled @ aborted\<rparr>,
         on_close cb s))"

definition drain :: "'o callbacks \<Rightarrow> sse_state \<times> 'o \<Rightarrow> sse_state \<times> 'o" where
  "drain cb = (\<lambda>(st, s). fold (net_step cb) (microtasks st) (st\<lparr>microtasks := []\<rparr>, s))"

section \<open>Framing\<close>

interpretation sse_lines: line_framing sse_feed
proof unfold_locales
  fix b c d :: string
  show "sse_feed b (c @ d) =
      (let (ls, b') = sse_feed b c; (ms, b'') = sse_feed b' d in (ls @ ms, b''))"
    using split_feed_append [of b c d] by (simp add: sse_feed_def Let_def)
qed (auto simp: sse_feed_def Let_def split_feed_laws simp flip: append_assoc)

lemma process_lines_append:
  "(\<And>l. l \<in> set ls \<Longrightarrow> apply_line l = (\<lambda>m. None)) \<Longrightarrow>
     process_lines cb (ls @ ms) m s = process_lines cb ms m s"
  by (induction ls) auto

section \<open>One request at a time\<close>

text \<open>
  What the client needs of its owner: the owner tells from its own state whether a request is
  running (\<open>busy\<close>), opening makes it busy, closing and errors make it idle, and a message does not
  stop it.
\<close>

definition live :: "sse_state \<Rightarrow> nat \<Rightarrow> bool" where
  "live st c = is_live (conns st c)"

definition sse_ok :: "('o \<Rightarrow> bool) \<Rightarrow> sse_state \<times> 'o \<Rightarrow> bool" where
  "sse_ok busy = (\<lambda>(st, s).
     (\<forall>c. next_conn st \<le> c \<longrightarrow> conns st c = Unused)
     \<and> (\<forall>c. live st c \<longrightarrow> abort_controller st = Some c)
     \<and> (\<forall>c. is_reading (conns st c) \<longrightarrow> reader st = Some c)
     \<and> (busy s \<longleftrightarrow> (\<exists>c. live st c))
     \<and> microtasks st = [])"

lemma is_reading_live: "is_reading p \<Longrightarrow> is_live p"
  by (cases p) auto

lemma sse_okD:
  assumes "sse_ok busy (st, s)"
  shows sse_ok_unused: "next_conn st \<le> c \<Longrightarrow> conns st c = Unused"
    and sse_ok_abort: "is_live (conns st c) \<Longrightarrow> abort_controller st = Some c"
    and sse_ok_reader: "is_reading (conns st c) \<Longrightarrow> reader st = Some c"
    and sse_ok_busy: "busy s \<longleftrightarrow> (\<exists>c. live st c)"
    and sse_ok_micro: "microtasks st = []"
  using assms by (simp_all add: sse_ok_def live_def)

lemma sse_okI:
  assumes "\<And>c. next_conn st \<le> c \<Longrightarrow> conns st c = Unused"
    and "\<And>c. is_live (conns st c) \<Longrightarrow> abort_controller st = Some c"
    and "\<And>c. is_reading (conns st c) \<Longrightarrow> reader st = Some c"
    and "busy s \<longleftrightarrow> (\<exists>c. is_live (conns st c))"
    and "microtasks st = []"
  shows "sse_ok busy (st, s)"
  using assms by (simp add: sse_ok_def live_def)

lemma sse_ok_single: "sse_ok busy (st, s) \<Longrightarrow> live st c \<Longrightarrow> live st d \<Longrightarrow> c = d"
  using sse_ok_abort [of busy st s c] sse_ok_abort [of busy st s d] by (simp add: live_def)

lemma sse_ok_lt: "sse_ok busy (st, s) \<Longrightarrow> is_live (conns st c) \<Longrightarrow> c < next_conn st"
  using sse_ok_unused [of busy st s c] by (cases "c < next_conn st") simp_all

locale sse_owner =
  fixes cb :: "'o callbacks" and busy :: "'o \<Rightarrow> bool"
  assumes open_busy: "busy (on_open cb s)"
    and close_idle: "\<not> busy (on_close cb s)"
    and error_idle: "\<not> busy (on_error cb e s)"
    and message_busy: "busy s \<Longrightarrow> busy (fst (on_message cb m s))"
begin

lemma process_lines_busy: "busy s \<Longrightarrow> busy (fst (process_lines (on_message cb) ls m s))"
proof (induction ls arbitrary: m s)
  case Nil
  then show ?case by simp
next
  case (Cons l ls)
  show ?case
  proof (cases "apply_line l m")
    case None
    with Cons show ?thesis by simp
  next
    case (Some m')
    show ?thesis
    proof (cases "on_message cb m' s")
      case (Pair s' err)
      then have "busy s'" using message_busy [OF Cons.prems, of m'] by simp
      with Cons Some Pair show ?thesis by (simp split: option.split)
    qed
  qed
qed

text \<open>The live request ends: its slot is finished and the owner is idle.\<close>

lemma finish_ok:
  assumes "sse_ok busy (st, s)" "live st c" "\<not> busy s'"
  shows "sse_ok busy (finish c st, s')"
proof (rule sse_okI)
  have dead: "\<not> is_live (conns (finish c st) d)" for d
    using sse_ok_single [OF assms(1,2), of d] by (auto simp: live_def finish_def)
  show "is_live (conns (finish c st) d) \<Longrightarrow> abort_controller (finish c st) = Some d"
    "busy s' \<longleftrightarrow> (\<exists>d. is_live (conns (finish c st) d))" for d
    using dead assms(3) by simp_all
  show "is_reading (conns (finish c st) d) \<Longrightarrow> reader (finish c st) = Some d" for d
    using dead is_reading_live by blast
  have "c < next_conn st" using sse_ok_lt [OF assms(1)] assms(2) by (simp add: live_def)
  then show "next_conn (finish c st) \<le> d \<Longrightarrow> conns (finish c st) d = Unused" for d
    using sse_ok_unused [OF assms(1), of d] by (simp add: finish_def)
  show "microtasks (finish c st) = []" using sse_ok_micro [OF assms(1)] by (simp add: finish_def)
qed

lemma catch_ok:
  assumes "sse_ok busy (st, s)" "live st c"
  shows "sse_ok busy (catch_error cb c e (st, s'))"
  using finish_ok [OF assms] close_idle error_idle by (simp add: catch_error_def)

text \<open>The live request goes on: only its buffer and the owner's data change.\<close>

lemma continue_ok:
  assumes "sse_ok busy (st, s)" "is_live (conns st c)" "busy s'"
    and "reader st' = Some c" "conns st' = (conns st)(c := Reading b)"
    "abort_controller st' = abort_controller st" "next_conn st' = next_conn st"
    "microtasks st' = microtasks st"
  shows "sse_ok busy (st', s')"
proof (rule sse_okI)
  have one: "d = c" if "is_live (conns st' d)" for d
    using sse_ok_single [OF assms(1), of c d] assms(2) that
    by (auto simp: live_def assms(5) split: if_splits)
  show "is_live (conns st' d) \<Longrightarrow> abort_controller st' = Some d" for d
    using one sse_ok_abort [OF assms(1,2)] by (simp add: assms(6))
  show "is_reading (conns st' d) \<Longrightarrow> reader st' = Some d" for d
    using one [OF is_reading_live] assms(4) by blast
  have "is_live (conns st' c)" by (simp add: assms(5))
  then show "busy s' \<longleftrightarrow> (\<exists>d. is_live (conns st' d))" using assms(3) by blast
  show "next_conn st' \<le> d \<Longrightarrow> conns st' d = Unused" for d
    using sse_ok_lt [OF assms(1,2)] sse_ok_unused [OF assms(1), of d] by (simp add: assms(5,7))
  show "microtasks st' = []" using sse_ok_micro [OF assms(1)] by (simp add: assms(8))
qed

lemma owner_busy: "sse_ok busy (st, s) \<Longrightarrow> live st c \<Longrightarrow> busy s"
  using sse_ok_busy [of busy st s] by blast

lemma response_ok:
  assumes ok: "sse_ok busy (st, s)" and f: "conns st c = Fetching"
  shows "sse_ok busy (on_response cb c status ctype has_body (st, s))"
proof -
  have l: "live st c" using f by (simp add: live_def)
  have nr: "\<not> is_reading (conns st d)" for d
    using sse_ok_single [OF ok l, of d] f is_reading_live by (auto simp: live_def)
  have "sse_ok busy (st\<lparr>reader := None\<rparr>, s)"
    by (rule sse_okI) (use sse_okD [OF ok] nr in \<open>simp_all add: live_def\<close>)
  then have "sse_ok busy (finish c (st\<lparr>reader := None\<rparr>), on_error cb e s)" for e
    by (rule finish_ok) (use l error_idle in \<open>simp_all add: live_def\<close>)
  moreover have "sse_ok busy (st\<lparr>reader := Some c, conns := (conns st)(c := Reading [])\<rparr>, s)"
    by (rule continue_ok [OF ok _ owner_busy [OF ok l], where c = c]) (simp_all add: f)
  moreover have "sse_ok busy (finish c st, on_error cb e s)" for e
    using finish_ok [OF ok l] error_idle by blast
  ultimately show ?thesis by (simp add: on_response_def)
qed

lemma chunk_ok:
  assumes ok: "sse_ok busy (st, s)" and rd: "conns st c = Reading b"
  shows "sse_ok busy (on_chunk cb c b text (st, s))"
proof -
  have l: "live st c" and r: "reader st = Some c"
    using sse_ok_reader [OF ok] rd by (simp_all add: live_def)
  obtain ls rest where f: "sse_feed b text = (ls, rest)" by fastforce
  obtain s' err where p: "process_lines (on_message cb) ls new_message s = (s', err)" by fastforce
  have "busy s'" using process_lines_busy [OF owner_busy [OF ok l], of ls new_message] p by simp
  then have "sse_ok busy (st\<lparr>conns := (conns st)(c := Reading rest)\<rparr>, s')"
    by (intro continue_ok [OF ok, where c = c]) (simp_all add: r rd)
  then show ?thesis using f p r catch_ok [OF ok l]
    by (simp add: on_chunk_def split: option.split)
qed

lemma net_step_ok: "sse_ok busy x \<Longrightarrow> sse_ok busy (net_step cb ev x)"
proof (cases x)
  case (Pair st s)
  assume "sse_ok busy x"
  then have ok: "sse_ok busy (st, s)" using Pair by simp
  show ?thesis
  proof (cases ev)
    case (Response c status ctype has_body)
    then show ?thesis using ok Pair response_ok by simp
  next
    case (Chunk c t)
    then show ?thesis using ok Pair chunk_ok by (cases "conns st c") simp_all
  next
    case (End_of_stream c)
    then show ?thesis using ok Pair finish_ok [OF ok, of c] close_idle
      by (cases "conns st c") (simp_all add: live_def)
  next
    case (Reject c e)
    then show ?thesis using ok Pair catch_ok [OF ok, of c]
      by (cases "conns st c") (simp_all add: live_def)
  qed
qed

lemma idle_no_live: "sse_ok busy (st, s) \<Longrightarrow> \<not> busy s \<Longrightarrow> \<not> is_live (conns st c)"
  using sse_ok_busy [of busy st s] by (auto simp: live_def)

lemma connect_ok:
  assumes "sse_ok busy (st, s)" "\<not> busy s"
  shows "sse_ok busy (connect cb (st, s))"
proof -
  let ?c = "next_conn st"
  let ?st = "st\<lparr>abort_controller := Some ?c, conns := (conns st)(?c := Fetching), next_conn := Suc ?c\<rparr>"
  have dead: "\<not> is_live (conns st c)" for c by (rule idle_no_live [OF assms])
  have one: "is_live (conns ?st c) \<longleftrightarrow> c = ?c" for c using dead by simp
  have "\<not> is_reading (conns ?st c)" for c using dead is_reading_live by auto
  then have "sse_ok busy (?st, on_open cb s)"
    using one open_busy sse_ok_unused [OF assms(1)] sse_ok_micro [OF assms(1)]
    by (intro sse_okI) auto
  then show ?thesis by (simp add: connect_def Let_def)
qed

text \<open>
  Disconnecting ends the live request: with \<open>on_close\<close> twice when it was streaming, and with
  \<open>on_close\<close> followed by \<open>on_error\<close> when the response had not arrived.
\<close>

lemma disconnect_idle:
  assumes "sse_ok busy (st, s)" "\<not> busy s"
  shows "drain cb (disconnect cb (st, s)) =
    (st\<lparr>reader := None, abort_controller := None\<rparr>, on_close cb s)"
proof -
  have dead: "\<not> is_live (conns st c)" for c by (rule idle_no_live [OF assms])
  have "conns st c \<noteq> Fetching" for c using dead [of c] by auto
  moreover have "\<not> is_reading (conns st c)" for c using dead is_reading_live by blast
  moreover have "microtasks st = []" by (rule sse_ok_micro [OF assms(1)])
  ultimately show ?thesis
    by (simp add: drain_def disconnect_def split: option.split)
qed

lemma disconnect_reading:
  assumes "sse_ok busy (st, s)" "conns st c = Reading b"
  shows "drain cb (disconnect cb (st, s)) =
    (finish c (st\<lparr>reader := None, abort_controller := None\<rparr>), on_close cb (on_close cb s))"
proof -
  have "reader st = Some c" "abort_controller st = Some c" "microtasks st = []"
    using sse_okD [OF assms(1)] assms(2) by simp_all
  then show ?thesis using assms(2) by (simp add: drain_def disconnect_def finish_def)
qed

lemma disconnect_fetching:
  assumes ok: "sse_ok busy (st, s)" and f: "conns st c = Fetching"
  shows "drain cb (disconnect cb (st, s)) =
    (finish c (st\<lparr>reader := None, abort_controller := None\<rparr>),
     on_error cb (Thrown ''stop'') (on_close cb s))"
proof -
  have "live st c" using f by (simp add: live_def)
  then have "\<not> is_reading (conns st d)" for d
    using sse_ok_single [OF ok, of c d] f is_reading_live by (auto simp: live_def)
  moreover have "abort_controller st = Some c" "microtasks st = []"
    using sse_okD [OF ok] f by simp_all
  ultimately show ?thesis using f
    by (simp add: drain_def disconnect_def finish_def catch_error_def split: option.split)
qed

lemma dead_ok:
  assumes "sse_ok busy (st, s)" "\<not> busy s" "\<not> busy s'"
  shows "sse_ok busy (st\<lparr>reader := None, abort_controller := None\<rparr>, s')"
proof (rule sse_okI)
  have dead: "\<not> is_live (conns st c)" for c by (rule idle_no_live [OF assms(1,2)])
  then show "is_reading (conns (st\<lparr>reader := None, abort_controller := None\<rparr>) c) \<Longrightarrow>
      reader (st\<lparr>reader := None, abort_controller := None\<rparr>) = Some c" for c
    using is_reading_live by auto
qed (use sse_okD [OF assms(1)] idle_no_live [OF assms(1,2)] assms(3) in simp_all)

lemma disconnect_ok:
  assumes ok: "sse_ok busy (st, s)"
  shows "sse_ok busy (drain cb (disconnect cb (st, s)))
    \<and> \<not> busy (snd (drain cb (disconnect cb (st, s))))"
proof (cases "busy s")
  case False
  with disconnect_idle [OF ok False] dead_ok [OF ok False close_idle] close_idle
  show ?thesis by simp
next
  case True
  then obtain c where l: "live st c" using sse_ok_busy [OF ok] by blast
  have eq: "finish c (st\<lparr>reader := None, abort_controller := None\<rparr>)
      = finish c st\<lparr>reader := None, abort_controller := None\<rparr>" by (simp add: finish_def)
  have fin: "sse_ok busy (finish c (st\<lparr>reader := None, abort_controller := None\<rparr>), s')"
    if "\<not> busy s'" for s'
    unfolding eq using dead_ok [OF finish_ok [OF ok l that] that that] .
  show ?thesis
  proof (cases "conns st c")
    case Fetching
    with disconnect_fetching [OF ok] fin error_idle show ?thesis by simp
  next
    case (Reading b)
    with disconnect_reading [OF ok] fin close_idle show ?thesis by simp
  qed (use l in \<open>simp_all add: live_def\<close>)
qed

lemma drain_ok: "sse_ok busy x \<Longrightarrow> drain cb x = x"
  by (cases x) (simp add: drain_def sse_ok_def)

end

section \<open>What the callbacks can do to the owner\<close>

text \<open>
  A preorder on the owner's states that every callback respects is respected by every event of the
  network and by disconnecting.
\<close>

locale sse_effect =
  fixes cb :: "'o callbacks" and rel :: "'o \<Rightarrow> 'o \<Rightarrow> bool"
  assumes rel_refl: "rel s s"
    and rel_trans: "rel s t \<Longrightarrow> rel t u \<Longrightarrow> rel s u"
    and rel_close: "rel s (on_close cb s)"
    and rel_error: "rel s (on_error cb e s)"
    and rel_message: "rel s (fst (on_message cb m s))"
begin

lemma process_lines_rel: "rel s (fst (process_lines (on_message cb) ls m s))"
proof (induction ls arbitrary: m s)
  case Nil
  then show ?case by (simp add: rel_refl)
next
  case (Cons l ls)
  show ?case
  proof (cases "apply_line l m")
    case None
    with Cons show ?thesis by simp
  next
    case (Some m')
    obtain s' err where cb: "on_message cb m' s = (s', err)" by fastforce
    then have "rel s s'" using rel_message [of s m'] by simp
    with Cons [of s' m'] Cons [of s m'] Some cb rel_trans show ?thesis
      by (auto split: option.split)
  qed
qed

lemma catch_rel: "rel s (snd (catch_error cb c e (st, s)))"
  by (simp add: catch_error_def rel_close rel_error)

lemma net_step_rel: "rel (snd x) (snd (net_step cb ev x))"
proof (cases x)
  case (Pair st s)
  show ?thesis
  proof (cases ev)
    case (Response c status ctype has_body)
    then show ?thesis using Pair by (simp add: on_response_def rel_refl rel_error)
  next
    case (Chunk c t)
    show ?thesis
    proof (cases "conns st c")
      case (Reading b)
      obtain ls rest where f: "sse_feed b t = (ls, rest)" by fastforce
      obtain s' err where p: "process_lines (on_message cb) ls new_message s = (s', err)" by fastforce
      have "rel s s'" using process_lines_rel [of s ls new_message] p by simp
      then show ?thesis using Chunk Pair Reading f p rel_trans [OF _ catch_rel]
        by (simp add: on_chunk_def split: option.split)
    qed (use Chunk Pair rel_refl in simp_all)
  next
    case (End_of_stream c)
    then show ?thesis using Pair by (cases "conns st c") (simp_all add: rel_refl rel_close)
  next
    case (Reject c e)
    then show ?thesis using Pair by (cases "conns st c") (simp_all add: rel_refl catch_rel)
  qed
qed

lemma fold_net_step_rel: "rel (snd x) (snd (fold (net_step cb) evs x))"
proof (induction evs arbitrary: x)
  case Nil
  then show ?case by (simp add: rel_refl)
next
  case (Cons ev evs)
  show ?case using rel_trans [OF net_step_rel [of x ev] Cons [of "net_step cb ev x"]] by simp
qed

lemma drain_rel: "rel (snd x) (snd (drain cb x))"
proof (cases x)
  case (Pair a b)
  then show ?thesis
    using fold_net_step_rel [of "(a\<lparr>microtasks := []\<rparr>, b)"] by (simp add: drain_def)
qed

lemma disconnect_rel: "rel (snd x) (snd (disconnect cb x))"
  by (cases x) (simp add: disconnect_def rel_close)

end

section \<open>Chunks of data lines\<close>

text \<open>
  A line of a data-only stream: it is skipped or carries data.  Lines with the fields \<open>event\<close> or
  \<open>id\<close> are left out, because they repeat the callback for data of an earlier line of the chunk.
\<close>

definition plain_line :: "string \<Rightarrow> bool" where
  "plain_line line =
     (let colon = index_of line '':'' in
      colon \<le> 0 \<or> prefix '':'' (trim (drop (nat colon + 1) line))
      \<or> trim (take (nat colon) line) = ''data'')"

definition line_data :: "string \<Rightarrow> jsval option" where
  "line_data line = map_option ev_data (apply_line line new_message)"

definition data_message :: "jsval \<Rightarrow> sse_message" where
  "data_message v = new_message\<lparr>ev_data := v\<rparr>"

fun lines_data :: "string list \<Rightarrow> jsval list" where
  "lines_data [] = []"
| "lines_data (l # ls) = (case line_data l of None \<Rightarrow> lines_data ls | Some v \<Rightarrow> v # lines_data ls)"

lemma lines_data_append: "lines_data (ls @ ms) = lines_data ls @ lines_data ms"
  by (induction ls) (auto split: option.split)

fun run_data :: "(sse_message \<Rightarrow> 'o \<Rightarrow> 'o \<times> js_error option) \<Rightarrow> jsval list \<Rightarrow> 'o \<Rightarrow> 'o \<times> js_error option" where
  "run_data cb [] s = (s, None)"
| "run_data cb (v # vs) s =
     (case cb (data_message v) s of
        (s', None) \<Rightarrow> run_data cb vs s'
      | (s', Some e) \<Rightarrow> (s', Some e))"

lemma run_data_append:
  "run_data cb (vs @ ws) s =
     (case run_data cb vs s of (s', None) \<Rightarrow> run_data cb ws s' | (s', Some e) \<Rightarrow> (s', Some e))"
  by (induction vs arbitrary: s) (auto split: prod.split option.split)

lemma parse_value_not_undef: "parse_value n s = Some (v, t) \<Longrightarrow> v \<noteq> JUndef"
  by (cases n) (auto split: list.splits if_splits)

lemma json_parse_not_undef: "json_parse s = Inr v \<Longrightarrow> v \<noteq> JUndef"
  using parse_value_not_undef
  by (auto simp: json_parse_def simp del: parse_value.simps split: option.splits if_splits)

lemma walk_undef [simp]: "walk v = JUndef \<longleftrightarrow> v = JUndef"
  by (cases v) auto

lemma apply_plain_line:
  assumes "plain_line l"
  shows "apply_line l m = map_option (\<lambda>v. m\<lparr>ev_data := v\<rparr>) (line_data l)"
    and "line_data l = Some v \<Longrightarrow> v \<noteq> JUndef"
proof -
  show "apply_line l m = map_option (\<lambda>v. m\<lparr>ev_data := v\<rparr>) (line_data l)"
    using assms by (auto simp: plain_line_def line_data_def apply_line_def Let_def)
  show "line_data l = Some v \<Longrightarrow> v \<noteq> JUndef"
    using assms json_parse_not_undef
    by (auto simp: plain_line_def line_data_def apply_line_def Let_def split: if_splits sum.splits)
qed

lemma process_plain_lines:
  assumes "\<forall>l \<in> set ls. plain_line l"
  shows "process_lines cb ls (data_message v) s = run_data cb (lines_data ls) s"
  using assms
proof (induction ls arbitrary: v s)
  case Nil
  then show ?case by simp
next
  case (Cons l ls)
  show ?case
  proof (cases "line_data l")
    case None
    with Cons show ?thesis by (simp add: apply_plain_line(1))
  next
    case (Some w)
    then have "w \<noteq> JUndef" using apply_plain_line(2) [of l w] Cons.prems by simp
    moreover have "apply_line l (data_message v) = Some (data_message w)"
      using Some Cons.prems by (simp add: apply_plain_line(1) data_message_def)
    moreover have "ev_data (data_message w) = w" by (simp add: data_message_def)
    ultimately show ?thesis using Some Cons
      by (auto split: prod.split option.split)
  qed
qed

lemma new_message_data: "new_message = data_message JUndef"
  by (simp add: data_message_def new_message_def)

text \<open>The chunks of one request, as they arrive.\<close>

definition run_chunks :: "'o callbacks \<Rightarrow> nat \<Rightarrow> string list \<Rightarrow> sse_state \<times> 'o \<Rightarrow> sse_state \<times> 'o" where
  "run_chunks cb c cs = fold (\<lambda>t. net_step cb (Chunk c t)) cs"

lemma run_chunks_data:
  assumes "conns st c = Reading b" "reader st = Some c"
    and "feed_all sse_feed b cs = (ls, rest)" "\<forall>l \<in> set ls. plain_line l"
    and "run_data (on_message cb) (lines_data ls) s = (s', None)"
  shows "run_chunks cb c cs (st, s) = (st\<lparr>conns := (conns st)(c := Reading rest)\<rparr>, s')"
  using assms
proof (induction cs arbitrary: st s b ls)
  case Nil
  then show ?case by (auto simp: run_chunks_def fun_upd_idem)
next
  case (Cons t cs)
  obtain l1 b1 where f1: "sse_feed b t = (l1, b1)" by fastforce
  obtain l2 where f2: "feed_all sse_feed b1 cs = (l2, rest)" and ls: "ls = l1 @ l2"
    using Cons.prems(3) f1 by (auto split: prod.splits)
  obtain s1 where r1: "run_data (on_message cb) (lines_data l1) s = (s1, None)"
    and r2: "run_data (on_message cb) (lines_data l2) s1 = (s', None)"
    using Cons.prems(5) ls by (auto simp: lines_data_append run_data_append split: prod.splits option.splits)
  let ?st = "st\<lparr>conns := (conns st)(c := Reading b1)\<rparr>"
  have "process_lines (on_message cb) l1 new_message s = (s1, None)"
    unfolding new_message_data
    using process_plain_lines [of l1 "on_message cb" JUndef s] r1 Cons.prems(4) ls by simp
  then have "net_step cb (Chunk c t) (st, s) = (?st, s1)"
    using Cons.prems(1,2) f1 by (simp add: on_chunk_def)
  moreover have "run_chunks cb c cs (?st, s1) = (?st\<lparr>conns := (conns ?st)(c := Reading rest)\<rparr>, s')"
    using Cons.prems ls f2 r2 by (intro Cons.IH [of ?st b1 l2]) auto
  moreover have "?st\<lparr>conns := (conns ?st)(c := Reading rest)\<rparr>
      = st\<lparr>conns := (conns st)(c := Reading rest)\<rparr>" by simp
  ultimately show ?case by (simp only: run_chunks_def fold.simps comp_apply)
qed

section \<open>Properties\<close>

text \<open>An owner that only records the data of every message.\<close>

definition recorder :: "jsval list callbacks" where
  "recorder = \<lparr>on_open = id, on_close = id, on_error = (\<lambda>e. id),
     on_message = (\<lambda>m s. (s @ [ev_data m], None))\<rparr>"

definition reading_state :: sse_state where
  "reading_state = init_sse\<lparr>reader := Some 0, abort_controller := Some 0,
     conns := (\<lambda>_. Unused)(0 := Reading []), next_conn := 1\<rparr>"

text \<open>C5: On a stream of data lines the callback sees the same data in the same order however the text is cut
  into network chunks, and the client is left in the same state.\<close>

theorem sse_cut_irrelevant:
  assumes "conns st c = Reading []" "reader st = Some c"
    and "concat cs = concat ds" "\<forall>l \<in> set (split_lines (concat cs)). plain_line l"
    and "run_data (on_message cb) (lines_data (butlast (split_lines (concat cs)))) s = (s', None)"
  shows "run_chunks cb c cs (st, s) = run_chunks cb c ds (st, s)
    \<and> snd (run_chunks cb c cs (st, s)) = s'"
proof -
  let ?ls = "butlast (split_lines (concat cs))" and ?r = "last (split_lines (concat cs))"
  have f: "feed_all sse_feed [] cs = (?ls, ?r)" "feed_all sse_feed [] ds = (?ls, ?r)"
    using sse_lines.feed_all_concat [of "[]" cs] sse_lines.feed_all_concat [of "[]" ds] assms(3)
    by (simp_all add: sse_feed_def Let_def)
  have plain: "\<forall>l \<in> set ?ls. plain_line l" using assms(4) in_set_butlastD by fast
  show ?thesis
    using run_chunks_data [OF assms(1,2) f(1) plain assms(5)]
      run_chunks_data [OF assms(1,2) f(2) plain assms(5)] by simp_all
qed

theorem sse_cut_irrelevant_witness:
  "run_chunks recorder 0 [''data: 7'', newline # ''data: a'', [newline]] (reading_state, [])
     = run_chunks recorder 0 [''data: 7'' @ newline # ''data: a'' @ [newline]] (reading_state, [])
   \<and> snd (run_chunks recorder 0 [''data: 7'', newline # ''data: a'', [newline]] (reading_state, []))
     = [JNum (Num 7 0), JStr ''a'']"
proof (rule sse_cut_irrelevant)
  let ?cs = "[''data: 7'', newline # ''data: a'', [newline]]"
  show "concat ?cs = concat [''data: 7'' @ newline # ''data: a'' @ [newline]]" by simp
  show "\<forall>l \<in> set (split_lines (concat ?cs)). plain_line l" by code_simp
  show "run_data (on_message recorder) (lines_data (butlast (split_lines (concat ?cs)))) []
      = ([JNum (Num 7 0), JStr ''a''], None)" by code_simp
  show "conns reading_state 0 = Reading []" "reader reading_state = Some 0" by code_simp+
qed

text \<open>With an \<open>id\<close> line after the data line the cut does matter: the fields of a message are not ended
  by a blank line but by the end of the chunk, so one chunk delivers the same data twice and two
  chunks deliver it once.\<close>

theorem sse_id_line_repeats:
  "snd (run_chunks recorder 0 [''data: 7'' @ newline # ''id: 1'' @ [newline]] (reading_state, []))
     = [JNum (Num 7 0), JNum (Num 7 0)]
   \<and> snd (run_chunks recorder 0 [''data: 7'' @ [newline], ''id: 1'' @ [newline]] (reading_state, []))
     = [JNum (Num 7 0)]"
  by code_simp

end
