(* ===== verification/Chat_Helper.thy ===== *)
theory Chat_Helper
  imports Js_String
begin

text \<open>
  \<open>services/chat-helper.tsx\<close>: the two parsers that split the raw text of a generation into its
  thinking part and its content, for the channel markup of GPT-OSS and the think tags of Qwen.
  Both are called on every streamed delta with the text so far, so they meet unfinished markup.
\<close>

section \<open>GPT: channels\<close>

definition CHANNEL :: string where "CHANNEL = ''<|channel|>''"
definition MESSAGE :: string where "MESSAGE = ''<|message|>''"
definition END_TAG :: string where "END_TAG = ''<|end|>''"

text \<open>
  \<open>GptGenerationMap\<close>: the fields \<open>analysis\<close> and \<open>final\<close> plus one per further channel.
\<close>

type_synonym gpt_map = "string \<rightharpoonup> string"

text \<open>
  One attempt to match the regular expression \<open><\|channel\|>([^<]+)<\|message\|>(.*?)(<\|end\|>|$)\<close>
  at the start of the text.  The channel name is the maximal run of characters other than \<open><\<close>
  (the next token starts with \<open><\<close>, so the greedy match has no alternative); the lazy group
  reaches to the first end tag or, without one, to the end of the text.  The result holds the two
  groups and the text after the match.
\<close>

definition gpt_match_at :: "string \<Rightarrow> (string \<times> string \<times> string) option" where
  "gpt_match_at s =
     (if \<not> prefix CHANNEL s then None
      else
        (let t = drop (length CHANNEL) s;
             name = takeWhile (\<lambda>c. c \<noteq> CHR ''<'') t;
             u = dropWhile (\<lambda>c. c \<noteq> CHR ''<'') t
         in if name = [] \<or> \<not> prefix MESSAGE u then None
            else
              (let w = drop (length MESSAGE) u in
               case find_sub END_TAG w of
                 Some i \<Rightarrow> Some (name, take i w, drop (i + length END_TAG) w)
               | None \<Rightarrow> Some (name, w, []))))"

lemma gpt_match_at_length:
  "gpt_match_at s = Some (name, msg, r) \<Longrightarrow> length r < length s"
proof -
  assume m: "gpt_match_at s = Some (name, msg, r)"
  then have pre: "prefix CHANNEL s" by (auto simp: gpt_match_at_def split: if_splits)
  let ?u = "dropWhile (\<lambda>c. c \<noteq> CHR ''<'') (drop (length CHANNEL) s)"
  have "length r \<le> length ?u"
    using m by (auto simp: gpt_match_at_def Let_def split: if_splits option.splits)
  also have "\<dots> \<le> length (drop (length CHANNEL) s)" by (rule length_dropWhile_le)
  finally show ?thesis using prefix_length_le [OF pre] by (simp add: CHANNEL_def)
qed

text \<open>
  The loop over \<open>regex.exec\<close> with the \<open>g\<close> flag: each search starts where the last match ended and
  moves right until an attempt succeeds.
\<close>

function gpt_matches :: "string \<Rightarrow> (string \<times> string) list" where
  "gpt_matches [] = []"
| "gpt_matches (c # cs) =
     (case gpt_match_at (c # cs) of
        Some (name, msg, r) \<Rightarrow> (name, msg) # gpt_matches r
      | None \<Rightarrow> gpt_matches cs)"
  by pat_completeness auto
termination
  by (relation "measure length") (auto dest: gpt_match_at_length)

fun set_channel :: "string \<times> string \<Rightarrow> gpt_map \<Rightarrow> gpt_map" where
  "set_channel (name, msg) m = m(name \<mapsto> trim msg)"

definition parse_generation_gpt :: "string \<Rightarrow> gpt_map" where
  "parse_generation_gpt buffer =
     fold set_channel (gpt_matches (trim buffer)) [''analysis'' \<mapsto> [], ''final'' \<mapsto> []]"

section \<open>Qwen: think tags\<close>

definition THINK_TAG_OPEN :: string where "THINK_TAG_OPEN = ''<think>''"
definition THINK_TAG_CLOSE :: string where "THINK_TAG_CLOSE = ''</think>''"

record qwen_map =
  qwen_think :: string
  qwen_content :: string

text \<open>The body of the \<open>while\<close> loop: the text between the tags and the buffer without them.\<close>

definition qwen_step :: "string \<Rightarrow> string \<times> string" where
  "qwen_step buffer =
     (let start = index_of buffer THINK_TAG_OPEN;
          stop = index_of buffer THINK_TAG_CLOSE;
          think = substring buffer (start + int (length THINK_TAG_OPEN))
            (if stop > start then stop else int (length buffer));
          buffer' = replace_first buffer
            (THINK_TAG_OPEN @ think @ (if stop > start then THINK_TAG_CLOSE else [])) []
      in (think, buffer'))"

lemmas tag_defs =
  CHANNEL_def MESSAGE_def END_TAG_def THINK_TAG_OPEN_def THINK_TAG_CLOSE_def

lemma is_tag_open: "is_tag (CHR ''<'') THINK_TAG_OPEN"
  and is_tag_close: "is_tag (CHR ''<'') THINK_TAG_CLOSE"
  and is_tag_end: "is_tag (CHR ''<'') END_TAG"
  and is_tag_channel: "is_tag (CHR ''<'') CHANNEL"
  by (simp_all add: is_tag_def tag_defs)

lemma tag_lengths [simp]:
  "length CHANNEL = 11" "length MESSAGE = 11" "length END_TAG = 7"
  "length THINK_TAG_OPEN = 7" "length THINK_TAG_CLOSE = 8"
  by (simp_all add: tag_defs)

lemma tag_ne [simp]:
  "CHANNEL \<noteq> []" "MESSAGE \<noteq> []" "END_TAG \<noteq> []" "THINK_TAG_OPEN \<noteq> []" "THINK_TAG_CLOSE \<noteq> []"
  by (simp_all add: tag_defs)

lemma open_Cons: "THINK_TAG_OPEN @ t = CHR ''<'' # ''think>'' @ t"
  by (simp add: tag_defs)

text \<open>The shapes of a buffer that holds an opening tag, and what one round makes of it.\<close>

lemma find_close_after_open:
  assumes "find_sub THINK_TAG_OPEN a = None" "find_sub THINK_TAG_CLOSE a = None"
  shows "find_sub THINK_TAG_CLOSE (a @ THINK_TAG_OPEN @ t) =
    map_option (\<lambda>i. i + length a + 7) (find_sub THINK_TAG_CLOSE t)"
proof -
  have "find_sub THINK_TAG_CLOSE (CHR ''<'' # ''think>'' @ t)
      = map_option (\<lambda>i. i + 7) (find_sub THINK_TAG_CLOSE t)"
    by (cases "find_sub THINK_TAG_CLOSE t") (simp_all add: tag_defs)
  then have "find_sub THINK_TAG_CLOSE (a @ THINK_TAG_OPEN @ t)
      = map_option (\<lambda>i. i + length a) (map_option (\<lambda>i. i + 7) (find_sub THINK_TAG_CLOSE t))"
    using find_sub_tag_append [OF is_tag_close, of a "''think>'' @ t"] assms(2)
    unfolding open_Cons by simp
  then show ?thesis by (cases "find_sub THINK_TAG_CLOSE t") simp_all
qed

lemma find_open: "find_sub THINK_TAG_OPEN a = None \<Longrightarrow>
    find_sub THINK_TAG_OPEN (a @ THINK_TAG_OPEN @ r) = Some (length a)"
  by (rule find_sub_tag_hit [OF is_tag_open])

lemma replace_think:
  assumes "find_sub THINK_TAG_OPEN a = None"
  shows "replace_first (a @ (THINK_TAG_OPEN @ q) @ b) (THINK_TAG_OPEN @ q) [] = a @ b"
proof (rule replace_first_mid)
  show "find_sub (THINK_TAG_OPEN @ q) (a @ (THINK_TAG_OPEN @ q) @ b) = Some (length a)"
    using find_open [OF assms, of "q @ b"] by (intro find_sub_extend) simp_all
qed

lemma index_of_open:
  "find_sub THINK_TAG_OPEN a = None \<Longrightarrow>
    index_of (a @ THINK_TAG_OPEN @ r) THINK_TAG_OPEN = int (length a)"
  using find_open by (simp add: index_of_def)

lemma qwen_step_unclosed:
  assumes "find_sub THINK_TAG_OPEN a = None"
    and "index_of (a @ THINK_TAG_OPEN @ r) THINK_TAG_CLOSE \<le> int (length a)"
  shows "qwen_step (a @ THINK_TAG_OPEN @ r) = (r, a)"
proof -
  let ?b = "a @ THINK_TAG_OPEN @ r"
  have "substring ?b (int (length a) + int (length THINK_TAG_OPEN)) (int (length ?b)) = r"
    using substring_tail [of "int (length THINK_TAG_OPEN)" a "THINK_TAG_OPEN @ r"] by simp
  moreover have "replace_first ?b (THINK_TAG_OPEN @ r) [] = a"
    using replace_think [OF assms(1), of r "[]"] by simp
  ultimately show ?thesis
    using assms(2) index_of_open [OF assms(1), of r] by (simp add: qwen_step_def Let_def)
qed

lemma qwen_step_closed:
  assumes "find_sub THINK_TAG_OPEN a = None" "find_sub THINK_TAG_CLOSE a = None"
    and "find_sub THINK_TAG_CLOSE t = None"
  shows "qwen_step (a @ THINK_TAG_OPEN @ t @ THINK_TAG_CLOSE @ b) = (t, a @ b)"
proof -
  let ?b = "a @ THINK_TAG_OPEN @ t @ THINK_TAG_CLOSE @ b"
  have "find_sub THINK_TAG_CLOSE (t @ THINK_TAG_CLOSE @ b) = Some (length t)"
    by (rule find_sub_tag_hit [OF is_tag_close assms(3)])
  then have stop: "index_of ?b THINK_TAG_CLOSE = int (length a) + 7 + int (length t)"
    using find_close_after_open [OF assms(1,2), of "t @ THINK_TAG_CLOSE @ b"]
    by (simp add: index_of_def)
  have "substring ?b (int (length (a @ THINK_TAG_OPEN)))
      (int (length (a @ THINK_TAG_OPEN)) + int (length t)) = t"
    using substring_mid [of "a @ THINK_TAG_OPEN" t "THINK_TAG_CLOSE @ b"]
    by (simp only: append_assoc)
  then have sub: "substring ?b (int (length a) + int (length THINK_TAG_OPEN))
      (int (length a) + 7 + int (length t)) = t" by simp
  have rep: "replace_first ?b (THINK_TAG_OPEN @ t @ THINK_TAG_CLOSE) [] = a @ b"
    using replace_think [OF assms(1), of "t @ THINK_TAG_CLOSE" b] by simp
  show ?thesis
    unfolding qwen_step_def Let_def index_of_open [OF assms(1)] stop
    using sub rep by simp
qed

lemma qwen_step_shrinks:
  assumes "str_includes buffer THINK_TAG_OPEN"
  shows "length (snd (qwen_step buffer)) < length buffer"
proof -
  obtain a r where b: "buffer = a @ THINK_TAG_OPEN @ r" and a: "find_sub THINK_TAG_OPEN a = None"
    using find_sub_split [OF assms] by auto
  show ?thesis
  proof (cases "str_includes r THINK_TAG_CLOSE \<and> find_sub THINK_TAG_CLOSE a = None")
    case True
    then obtain t c where "r = t @ THINK_TAG_CLOSE @ c" "find_sub THINK_TAG_CLOSE t = None"
      using find_sub_split [of r THINK_TAG_CLOSE] by auto
    then show ?thesis using qwen_step_closed [OF a] True b by simp
  next
    case False
    have "index_of buffer THINK_TAG_CLOSE \<le> int (length a)"
    proof (cases "find_sub THINK_TAG_CLOSE a")
      case None
      with False have "find_sub THINK_TAG_CLOSE r = None" by (simp add: str_includes_def)
      with find_close_after_open [OF a None, of r] show ?thesis
        by (simp add: b index_of_def)
    next
      case (Some i)
      with find_sub_tag_append [OF is_tag_close, of a "''think>'' @ r"]
      have "find_sub THINK_TAG_CLOSE buffer = Some i"
        unfolding b open_Cons by (simp only: option.case)
      with find_sub_bound [OF Some] show ?thesis by (simp add: index_of_def)
    qed
    with qwen_step_unclosed [OF a] show ?thesis by (simp add: b)
  qed
qed

function qwen_loop :: "string \<Rightarrow> string \<Rightarrow> string \<times> string" where
  "qwen_loop buffer think =
     (if str_includes buffer THINK_TAG_OPEN then
        (let (t, buffer') = qwen_step buffer
         in qwen_loop buffer' (think @ [newline, newline] @ t))
      else (buffer, think))"
  by pat_completeness auto
termination
  by (relation "measure (\<lambda>(b, _). length b)") (use qwen_step_shrinks in \<open>force simp: prod_eq_iff\<close>)+

declare qwen_loop.simps [simp del]

definition parse_generation_qwen :: "string \<Rightarrow> qwen_map" where
  "parse_generation_qwen buffer =
     (let (rest, think) = qwen_loop (trim buffer) []
      in \<lparr>qwen_think = trim think, qwen_content = trim rest\<rparr>)"

section \<open>What the parsers return\<close>

text \<open>
  Every parser splits a generation into a thinking part and a content part.  The provider relies on
  both being trimmed and, on text without markup, on the content being the text.
\<close>

definition gpt_parts :: "string \<Rightarrow> string \<times> string" where
  "gpt_parts s = (let m = parse_generation_gpt s
     in (the (m ''analysis''), the (m ''final'')))"

definition qwen_parts :: "string \<Rightarrow> string \<times> string" where
  "qwen_parts s = (let m = parse_generation_qwen s in (qwen_think m, qwen_content m))"

lemma qwen_loop_done: "\<not> str_includes b THINK_TAG_OPEN \<Longrightarrow> qwen_loop b k = (b, k)"
  by (subst qwen_loop.simps) simp

lemma qwen_loop_step:
  assumes "str_includes b THINK_TAG_OPEN" "qwen_step b = (t, b')"
  shows "qwen_loop b k = qwen_loop b' (k @ [newline, newline] @ t)"
  using assms by (subst qwen_loop.simps) simp

lemma qwen_loop_no_open: "\<not> str_includes (fst (qwen_loop b k)) THINK_TAG_OPEN"
proof (induction b k rule: qwen_loop.induct)
  case (1 b k)
  show ?case
  proof (cases "str_includes b THINK_TAG_OPEN")
    case True
    obtain t b' where st: "qwen_step b = (t, b')" by fastforce
    with 1 True show ?thesis by (simp add: qwen_loop_step [OF True st])
  next
    case False
    then show ?thesis by (simp add: qwen_loop_done)
  qed
qed

lemma trim_no_tag: "\<not> str_includes s pat \<Longrightarrow> \<not> str_includes (trim s) pat"
  unfolding str_includes_iff_sublist using trim_sublist sublist_order.order_trans by blast

lemma qwen_content_no_open: "\<not> str_includes (qwen_content (parse_generation_qwen s)) THINK_TAG_OPEN"
  using trim_no_tag [OF qwen_loop_no_open [of "trim s" "[]"]]
  by (cases "qwen_loop (trim s) []") (simp add: parse_generation_qwen_def)

text \<open>A generation of closed thoughts between pieces of content.\<close>

definition qwen_render :: "(string \<times> string) list \<Rightarrow> string \<Rightarrow> string" where
  "qwen_render segs c =
     concat (map (\<lambda>(a, t). a @ THINK_TAG_OPEN @ t @ THINK_TAG_CLOSE) segs) @ c"

lemma not_includes_append:
  "\<not> str_includes (a @ b) p \<Longrightarrow> \<not> str_includes a p \<and> \<not> str_includes b p"
  using str_includes_append_mono1 str_includes_append_mono2 by blast

lemma qwen_loop_render:
  assumes "\<not> str_includes (a @ concat (map fst segs) @ c) THINK_TAG_OPEN"
    and "\<not> str_includes (a @ concat (map fst segs) @ c) THINK_TAG_CLOSE"
    and "\<forall>(x, t) \<in> set segs. \<not> str_includes t THINK_TAG_CLOSE"
  shows "qwen_loop (a @ qwen_render segs c) k =
    (a @ concat (map fst segs) @ c, k @ concat (map (\<lambda>(x, t). [newline, newline] @ t) segs))"
  using assms
proof (induction segs arbitrary: a k)
  case Nil
  then show ?case by (simp add: qwen_render_def qwen_loop_done)
next
  case (Cons seg segs)
  obtain x t where seg: "seg = (x, t)" by fastforce
  have none: "find_sub THINK_TAG_OPEN (a @ x) = None" "find_sub THINK_TAG_CLOSE (a @ x) = None"
    "find_sub THINK_TAG_CLOSE t = None"
    using Cons.prems not_includes_append [of "a @ x"] seg by (auto simp: str_includes_def)
  let ?b = "(a @ x) @ THINK_TAG_OPEN @ t @ THINK_TAG_CLOSE @ qwen_render segs c"
  have st: "qwen_step ?b = (t, (a @ x) @ qwen_render segs c)"
    by (rule qwen_step_closed [OF none])
  have "str_includes ?b THINK_TAG_OPEN" using find_open [OF none(1)] by (simp add: str_includes_def)
  from qwen_loop_step [OF this st]
  have "qwen_loop ?b k = qwen_loop ((a @ x) @ qwen_render segs c) (k @ [newline, newline] @ t)" .
  with Cons.IH [of "a @ x" "k @ [newline, newline] @ t"] Cons.prems seg
  show ?case by (simp add: qwen_render_def)
qed

lemma qwen_loop_open_end:
  assumes "\<not> str_includes a THINK_TAG_OPEN" "\<not> str_includes a THINK_TAG_CLOSE"
    and "\<not> str_includes t THINK_TAG_CLOSE"
  shows "qwen_loop (a @ THINK_TAG_OPEN @ t) k = (a, k @ [newline, newline] @ t)"
proof -
  have none: "find_sub THINK_TAG_OPEN a = None" "find_sub THINK_TAG_CLOSE a = None"
    "find_sub THINK_TAG_CLOSE t = None" using assms by (auto simp: str_includes_def)
  have "qwen_step (a @ THINK_TAG_OPEN @ t) = (t, a)"
    using qwen_step_unclosed [OF none(1), of t] find_close_after_open [OF none(1,2), of t] none(3)
    by (simp add: index_of_def)
  moreover have "str_includes (a @ THINK_TAG_OPEN @ t) THINK_TAG_OPEN"
    using find_open [OF none(1)] by (simp add: str_includes_def)
  ultimately show ?thesis using qwen_loop_step qwen_loop_done assms(1) by metis
qed

section \<open>Channel markup\<close>

text \<open>
  A generation in channel markup: each item is the text in front of the channel tag (GPT-OSS writes
  \<open><|start|>assistant\<close> there), the channel name and the message; the last message may still be
  without its end tag.
\<close>

type_synonym gpt_item = "string \<times> string \<times> string"

definition gpt_item_open :: "gpt_item \<Rightarrow> string" where
  "gpt_item_open = (\<lambda>(g, n, m). g @ CHANNEL @ n @ MESSAGE @ m)"

definition gpt_render :: "gpt_item list \<Rightarrow> string \<Rightarrow> string" where
  "gpt_render items tail = concat (map (\<lambda>i. gpt_item_open i @ END_TAG) items) @ tail"

definition gpt_item_ok :: "gpt_item \<Rightarrow> bool" where
  "gpt_item_ok = (\<lambda>(g, n, m). \<not> str_includes g CHANNEL \<and> n \<noteq> [] \<and> CHR ''<'' \<notin> set n
     \<and> \<not> str_includes m END_TAG)"

lemma channel_name_span:
  assumes "CHR ''<'' \<notin> set n"
  shows "takeWhile (\<lambda>c. c \<noteq> CHR ''<'') (n @ MESSAGE @ w) = n"
    and "dropWhile (\<lambda>c. c \<noteq> CHR ''<'') (n @ MESSAGE @ w) = MESSAGE @ w"
proof -
  obtain p where p: "MESSAGE = CHR ''<'' # p" by (simp add: tag_defs)
  have n: "\<forall>c \<in> set n. c \<noteq> CHR ''<''" using assms by auto
  show "takeWhile (\<lambda>c. c \<noteq> CHR ''<'') (n @ MESSAGE @ w) = n"
    "dropWhile (\<lambda>c. c \<noteq> CHR ''<'') (n @ MESSAGE @ w) = MESSAGE @ w"
    unfolding p using n by (simp_all add: takeWhile_append2 dropWhile_append2)
qed

lemma gpt_match_at_item:
  assumes "n \<noteq> []" "CHR ''<'' \<notin> set n"
  shows "gpt_match_at (CHANNEL @ n @ MESSAGE @ w) =
    (case find_sub END_TAG w of
       Some i \<Rightarrow> Some (n, take i w, drop (i + length END_TAG) w)
     | None \<Rightarrow> Some (n, w, []))"
  using assms channel_name_span [OF assms(2), of w]
  by (cases "find_sub END_TAG w") (simp_all add: gpt_match_at_def Let_def)

lemma gpt_matches_gap:
  "\<not> str_includes g CHANNEL \<Longrightarrow> gpt_matches (g @ CHANNEL @ r) = gpt_matches (CHANNEL @ r)"
proof (induction g)
  case Nil
  then show ?case by simp
next
  case (Cons c g)
  have "\<not> prefix CHANNEL (c # g @ CHANNEL @ r)"
  proof
    assume p: "prefix CHANNEL (c # g @ CHANNEL @ r)"
    obtain q where q: "CHANNEL = CHR ''<'' # q" "CHR ''<'' \<notin> set q"
      using is_tagE [OF is_tag_channel] by auto
    have both: "CHR ''<'' = c \<and> prefix q (g @ CHR ''<'' # q @ r)"
      using p unfolding q(1) append_Cons append_assoc Cons_prefix_Cons by assumption
    have c: "c = CHR ''<''" using both [THEN conjunct1] by (rule sym)
    have "prefix q (g @ CHR ''<'' # q @ r)" using both by (rule conjunct2)
    then have "prefix q g" by (rule prefix_before_char [OF q(2)])
    then have "prefix CHANNEL (c # g)" unfolding q(1) c by simp
    with Cons.prems show False by (simp add: str_includes_def)
  qed
  then have "gpt_match_at (c # g @ CHANNEL @ r) = None" by (simp add: gpt_match_at_def)
  moreover have "\<not> str_includes g CHANNEL"
    using Cons.prems by (auto simp: str_includes_def split: if_splits)
  ultimately show ?case using Cons.IH by simp
qed

lemma gpt_matches_none: "\<not> str_includes g CHANNEL \<Longrightarrow> gpt_matches g = []"
proof (induction g)
  case Nil
  then show ?case by simp
next
  case (Cons c g)
  then have "\<not> prefix CHANNEL (c # g)" "\<not> str_includes g CHANNEL"
    by (auto simp: str_includes_def split: if_splits)
  with Cons.IH show ?case by (simp add: gpt_match_at_def)
qed

lemma gpt_matches_match:
  "gpt_match_at s = Some (n, m, r) \<Longrightarrow> gpt_matches s = (n, m) # gpt_matches r"
  by (cases s) (auto simp: gpt_match_at_def)

lemma gpt_matches_render:
  assumes "\<forall>i \<in> set items. gpt_item_ok i"
  shows "gpt_matches (gpt_render items tail) = map snd items @ gpt_matches tail"
  using assms
proof (induction items)
  case Nil
  then show ?case by (simp add: gpt_render_def)
next
  case (Cons i items)
  obtain g n m where i: "i = (g, n, m)" by (cases i) auto
  have ok: "\<not> str_includes g CHANNEL" "n \<noteq> []" "CHR ''<'' \<notin> set n" "find_sub END_TAG m = None"
    using Cons.prems i by (auto simp: gpt_item_ok_def str_includes_def)
  let ?w = "m @ END_TAG @ gpt_render items tail"
  have "gpt_match_at (CHANNEL @ n @ MESSAGE @ ?w) = Some (n, m, gpt_render items tail)"
    using gpt_match_at_item [OF ok(2,3), of ?w]
      find_sub_tag_hit [OF is_tag_end ok(4), of "gpt_render items tail"] by simp
  from gpt_matches_match [OF this] gpt_matches_gap [OF ok(1), of "n @ MESSAGE @ ?w"]
  have "gpt_matches (g @ CHANNEL @ n @ MESSAGE @ ?w) = (n, m) # gpt_matches (gpt_render items tail)"
    by simp
  with Cons i show ?case by (simp add: gpt_render_def gpt_item_open_def)
qed

lemma gpt_matches_open:
  assumes "gpt_item_ok i"
  shows "gpt_matches (gpt_item_open i) = [snd i]"
proof -
  obtain g n m where i: "i = (g, n, m)" by (cases i) auto
  have ok: "\<not> str_includes g CHANNEL" "n \<noteq> []" "CHR ''<'' \<notin> set n" "find_sub END_TAG m = None"
    using assms i by (auto simp: gpt_item_ok_def str_includes_def)
  from gpt_match_at_item [OF ok(2,3), of m] ok(4)
  have "gpt_match_at (CHANNEL @ n @ MESSAGE @ m) = Some (n, m, [])" by simp
  from gpt_matches_match [OF this] gpt_matches_gap [OF ok(1), of "n @ MESSAGE @ m"]
  show ?thesis by (simp add: i gpt_item_open_def)
qed

lemma fold_channel_map:
  "fold set_channel xs f = f ++ map_of (rev (map (\<lambda>(n, m). (n, trim m)) xs))"
proof (induction xs arbitrary: f)
  case Nil
  then show ?case by simp
next
  case (Cons x xs)
  obtain n m where x: "x = (n, m)" by fastforce
  have "fold set_channel (x # xs) f = fold set_channel xs (f(n \<mapsto> trim m))" by (simp add: x)
  also have "\<dots> = f(n \<mapsto> trim m) ++ map_of (rev (map (\<lambda>(n, m). (n, trim m)) xs))"
    by (rule Cons)
  also have "\<dots> = f ++ map_of (rev (map (\<lambda>(n, m). (n, trim m)) (x # xs)))"
    by (simp add: x)
  finally show ?case .
qed

text \<open>The last message of a channel, trimmed; empty for a channel without one.\<close>

definition last_of_channel :: "gpt_item list \<Rightarrow> string \<Rightarrow> string option" where
  "last_of_channel items ch = map_of (rev (map (\<lambda>(g, n, m). (n, trim m)) items)) ch"

lemma parse_generation_gpt_items:
  assumes "gpt_matches (trim buffer) = map snd items"
  shows "parse_generation_gpt buffer =
    [''analysis'' \<mapsto> [], ''final'' \<mapsto> []] ++ last_of_channel items"
proof -
  have "map (\<lambda>(n, m). (n, trim m)) (map snd items) = map (\<lambda>(g, n, m). (n, trim m)) items"
    by (induction items) auto
  then show ?thesis
    unfolding parse_generation_gpt_def assms fold_channel_map last_of_channel_def [abs_def]
    by (simp only:)
qed

lemma gpt_channel_trimmed:
  "parse_generation_gpt buffer ch = Some v \<Longrightarrow> trimmed v"
proof -
  have inv: "ran (fold set_channel xs f) \<subseteq> Collect trimmed" if "ran f \<subseteq> Collect trimmed" for xs f
    using that
  proof (induction xs arbitrary: f)
    case (Cons x xs)
    obtain n m where x: "x = (n, m)" by fastforce
    have "ran (f(n \<mapsto> trim m)) \<subseteq> Collect trimmed"
      using Cons.prems trimmed_trim by (auto simp: ran_def split: if_splits)
    with Cons.IH x show ?case by simp
  qed simp
  have "ran (parse_generation_gpt buffer) \<subseteq> Collect trimmed"
    unfolding parse_generation_gpt_def by (rule inv) (auto simp: ran_def trimmed_def split: if_splits)
  then show "parse_generation_gpt buffer ch = Some v \<Longrightarrow> trimmed v" by (auto simp: ran_def)
qed

section \<open>Properties\<close>

lemma qwen_loop_prefix:
  assumes "\<not> str_includes (a @ concat (map fst segs)) THINK_TAG_OPEN"
    and "\<not> str_includes (a @ concat (map fst segs)) THINK_TAG_CLOSE"
    and "\<forall>(x, t) \<in> set segs. \<not> str_includes t THINK_TAG_CLOSE"
  shows "qwen_loop (a @ qwen_render segs w) k =
    qwen_loop (a @ concat (map fst segs) @ w) (k @ concat (map (\<lambda>(x, t). [newline, newline] @ t) segs))"
  using assms
proof (induction segs arbitrary: a k)
  case Nil
  then show ?case by (simp add: qwen_render_def)
next
  case (Cons seg segs)
  obtain x t where seg: "seg = (x, t)" by fastforce
  have none: "find_sub THINK_TAG_OPEN (a @ x) = None" "find_sub THINK_TAG_CLOSE (a @ x) = None"
    "find_sub THINK_TAG_CLOSE t = None"
    using Cons.prems not_includes_append [of "a @ x"] seg by (auto simp: str_includes_def)
  let ?b = "(a @ x) @ THINK_TAG_OPEN @ t @ THINK_TAG_CLOSE @ qwen_render segs w"
  have st: "qwen_step ?b = (t, (a @ x) @ qwen_render segs w)"
    by (rule qwen_step_closed [OF none])
  have "str_includes ?b THINK_TAG_OPEN" using find_open [OF none(1)] by (simp add: str_includes_def)
  from qwen_loop_step [OF this st]
  have "qwen_loop ?b k = qwen_loop ((a @ x) @ qwen_render segs w) (k @ [newline, newline] @ t)" .
  with Cons.IH [of "a @ x" "k @ [newline, newline] @ t"] Cons.prems seg
  show ?case by (simp add: qwen_render_def)
qed

text \<open>C12: \<open>parseGenerationQwen\<close> collects every thought of a generation, the unfinished one at its end
  included, and joins the rest of the text to the content.\<close>

theorem parse_generation_qwen_split:
  assumes "trimmed buffer"
    and "buffer = qwen_render segs c @ (case unfinished of None \<Rightarrow> [] | Some t \<Rightarrow> THINK_TAG_OPEN @ t)"
    and "\<not> str_includes (concat (map fst segs) @ c) THINK_TAG_OPEN"
    and "\<not> str_includes (concat (map fst segs) @ c) THINK_TAG_CLOSE"
    and "\<forall>t \<in> set (map snd segs @ (case unfinished of None \<Rightarrow> [] | Some t \<Rightarrow> [t])).
      \<not> str_includes t THINK_TAG_CLOSE"
  shows "parse_generation_qwen buffer =
    \<lparr>qwen_think = trim (concat (map (\<lambda>t. [newline, newline] @ t)
        (map snd segs @ (case unfinished of None \<Rightarrow> [] | Some t \<Rightarrow> [t])))),
     qwen_content = trim (concat (map fst segs) @ c)\<rparr>"
proof -
  let ?u = "case unfinished of None \<Rightarrow> [] | Some t \<Rightarrow> THINK_TAG_OPEN @ t"
  let ?ts = "concat (map (\<lambda>(x, t). [newline, newline] @ t) segs)"
  have r: "qwen_render segs c @ ?u = qwen_render segs (c @ ?u)" by (simp add: qwen_render_def)
  have seg: "\<forall>(x, t) \<in> set segs. \<not> str_includes t THINK_TAG_CLOSE"
  proof (clarify)
    fix x t
    assume m: "(x, t) \<in> set segs" and inc: "str_includes t THINK_TAG_CLOSE"
    from m have "snd (x, t) \<in> set (map snd segs)" unfolding set_map by (rule imageI)
    with assms(5) inc show False by simp
  qed
  have eq: "concat (map (\<lambda>t. [newline, newline] @ t) (map snd segs)) = ?ts"
    by (induction segs) auto
  have "qwen_loop (qwen_render segs (c @ ?u)) [] = qwen_loop (concat (map fst segs) @ c @ ?u) ?ts"
    using qwen_loop_prefix [of "[]" segs "c @ ?u" "[]"] not_includes_append [of _ c] assms(3,4) seg
    by simp
  moreover have "qwen_loop ((concat (map fst segs) @ c) @ ?u) ?ts =
      (concat (map fst segs) @ c,
       ?ts @ concat (map (\<lambda>t. [newline, newline] @ t) (case unfinished of None \<Rightarrow> [] | Some t \<Rightarrow> [t])))"
  proof (cases unfinished)
    case None
    then show ?thesis using qwen_loop_done [OF assms(3)] by simp
  next
    case (Some t)
    then show ?thesis using qwen_loop_open_end [OF assms(3,4), of t ?ts] assms(5) by simp
  qed
  ultimately have loop: "qwen_loop buffer [] = (concat (map fst segs) @ c,
      ?ts @ concat (map (\<lambda>t. [newline, newline] @ t) (case unfinished of None \<Rightarrow> [] | Some t \<Rightarrow> [t])))"
    unfolding assms(2) r by (simp only: append_assoc)
  then show ?thesis
    unfolding parse_generation_qwen_def trim_trimmed_id [OF assms(1)] map_append concat_append eq
    by (simp only: loop Let_def prod.case)
qed

theorem parse_generation_qwen_split_witness:
  "parse_generation_qwen ''a<think>b</think>c<think>d'' =
    \<lparr>qwen_think = ''b'' @ [newline, newline] @ ''d'', qwen_content = ''ac''\<rparr>"
proof -
  have "parse_generation_qwen ''a<think>b</think>c<think>d'' =
    \<lparr>qwen_think = trim (concat (map (\<lambda>t. [newline, newline] @ t)
        (map snd [(''a'', ''b'')] @ (case Some ''d'' of None \<Rightarrow> [] | Some t \<Rightarrow> [t])))),
     qwen_content = trim (concat (map fst [(''a'', ''b'')]) @ ''c'')\<rparr>"
  proof (rule parse_generation_qwen_split)
    show "trimmed ''a<think>b</think>c<think>d''" by code_simp
    show "''a<think>b</think>c<think>d'' = qwen_render [(''a'', ''b'')] ''c''
        @ (case Some ''d'' of None \<Rightarrow> [] | Some t \<Rightarrow> THINK_TAG_OPEN @ t)" by code_simp
  qed code_simp+
  also have "\<dots> = \<lparr>qwen_think = ''b'' @ [newline, newline] @ ''d'', qwen_content = ''ac''\<rparr>"
    by code_simp
  finally show ?thesis .
qed

text \<open>On every text whatsoever, the content that \<open>parseGenerationQwen\<close> returns holds no opening tag of a
  thought, and both parts are trimmed.\<close>

theorem parse_generation_qwen_clean:
  "\<not> str_includes (qwen_content (parse_generation_qwen buffer)) THINK_TAG_OPEN
   \<and> trimmed (qwen_content (parse_generation_qwen buffer))
   \<and> trimmed (qwen_think (parse_generation_qwen buffer))"
  using qwen_content_no_open [of buffer]
  by (simp add: parse_generation_qwen_def trimmed_trim split: prod.split)

text \<open>C13: \<open>parseGenerationGpt\<close> returns for a channel the last message written to it, trimmed, whether the
  generation is complete or its last message is still without an end tag; \<open>analysis\<close> and
  \<open>final\<close> are empty when nothing was written to them.\<close>

theorem parse_generation_gpt_split:
  assumes "trimmed buffer" "\<forall>i \<in> set (items @ (case unfinished of None \<Rightarrow> [] | Some i \<Rightarrow> [i])). gpt_item_ok i"
    and "buffer = gpt_render items (case unfinished of None \<Rightarrow> tail | Some i \<Rightarrow> gpt_item_open i)"
    and "\<not> str_includes tail CHANNEL"
  shows "parse_generation_gpt buffer = [''analysis'' \<mapsto> [], ''final'' \<mapsto> []]
    ++ last_of_channel (items @ (case unfinished of None \<Rightarrow> [] | Some i \<Rightarrow> [i]))"
proof (rule parse_generation_gpt_items)
  have trim: "trim buffer = buffer" by (rule trim_trimmed_id [OF assms(1)])
  show "gpt_matches (trim buffer) = map snd (items @ (case unfinished of None \<Rightarrow> [] | Some i \<Rightarrow> [i]))"
  proof (cases unfinished)
    case None
    then show ?thesis
      unfolding trim using assms(2,3) gpt_matches_render [of items tail] gpt_matches_none [OF assms(4)]
      by simp
  next
    case (Some i)
    then show ?thesis
      unfolding trim using assms(2,3) gpt_matches_render [of items "gpt_item_open i"] gpt_matches_open [of i]
      by simp
  qed
qed

theorem parse_generation_gpt_split_witness:
  "parse_generation_gpt (gpt_render [([], ''analysis'', ''x '')] (gpt_item_open (''s'', ''final'', ''yo'')))
     ''final'' = Some ''yo''"
proof -
  let ?i = "(''s'', ''final'', ''yo'')" and ?is = "[([], ''analysis'', ''x '')]"
  have "parse_generation_gpt (gpt_render ?is (gpt_item_open ?i)) =
    [''analysis'' \<mapsto> [], ''final'' \<mapsto> []]
      ++ last_of_channel (?is @ (case Some ?i of None \<Rightarrow> [] | Some i \<Rightarrow> [i]))"
  proof (rule parse_generation_gpt_split [where tail = "[]"])
    show "trimmed (gpt_render ?is (gpt_item_open ?i))" by code_simp
    show "\<forall>i \<in> set (?is @ (case Some ?i of None \<Rightarrow> [] | Some i \<Rightarrow> [i])). gpt_item_ok i" by code_simp
    show "\<not> str_includes [] CHANNEL" by code_simp
  qed simp
  moreover have "last_of_channel (?is @ (case Some ?i of None \<Rightarrow> [] | Some i \<Rightarrow> [i])) ''final'' = Some ''yo''"
    by code_simp
  ultimately show ?thesis by (simp add: map_add_def)
qed

end
