(* ===== verification/Chat.thy ===== *)
theory Chat
  imports Sse Chat_Helper
begin

text \<open>
  \<open>ChatProvider\<close> of \<open>services/chat.tsx\<close>: the message list, the input and the status of the chat,
  the callbacks it hands to the event-stream client, and the actions of the user interface.

  The state cells of React are modelled by two copies: \<open>cur\<close>, in which every queued update has been
  applied, and \<open>shown\<close>, what the last render read out of them.  Handlers read the shown copy (they
  close over the values of the last render) and update the current one.
\<close>

section \<open>Messages\<close>

datatype role = Role_user | Role_assistant | Role_other jsval

datatype message_status = Msg_waiting | Msg_thinking | Msg_generating | Msg_done | Msg_error

datatype chat_status = Chat_closed | Chat_opened | Chat_generating | Chat_error

record chat_message =
  msg_id :: jsval
  msg_role :: role
  msg_status :: message_status
  msg_content :: string
  msg_raw :: "string option"
  msg_thinking :: "string option"
  msg_created :: jsval

record chat_state =
  chat_input :: string
  chat_status :: chat_status
  chat_messages :: "chat_message list"
  chat_crashed :: bool

definition init_chat :: chat_state where
  "init_chat = \<lparr>chat_input = [], chat_status = Chat_closed, chat_messages = [], chat_crashed = False\<rparr>"

definition set_status :: "chat_status \<Rightarrow> chat_state \<Rightarrow> chat_state" where
  "set_status v s = s\<lparr>chat_status := v\<rparr>"

text \<open>
  A functional update of the message list.  An updater that throws does so while React renders: the
  component is unmounted, which the model records as \<open>chat_crashed\<close>.
\<close>

definition set_messages :: "(chat_message list \<Rightarrow> js_error + chat_message list) \<Rightarrow> chat_state \<Rightarrow> chat_state" where
  "set_messages f s =
     (case f (chat_messages s) of
        Inr ms \<Rightarrow> s\<lparr>chat_messages := ms\<rparr>
      | Inl e \<Rightarrow> s\<lparr>chat_crashed := True\<rparr>)"

text \<open>The updater of \<open>onClose\<close> and \<open>onError\<close>: the last message is done; it throws on an empty list.\<close>

definition mark_last_done :: "chat_message list \<Rightarrow> js_error + chat_message list" where
  "mark_last_done prev =
     (case last_opt prev of
        None \<Rightarrow> Inl TypeError
      | Some m \<Rightarrow> Inr (butlast prev @ [m\<lparr>msg_status := Msg_done\<rparr>]))"

definition chat_on_open :: "chat_state \<Rightarrow> chat_state" where
  "chat_on_open s = set_status Chat_opened s"

definition chat_on_close :: "chat_state \<Rightarrow> chat_state" where
  "chat_on_close s = set_status Chat_closed (set_messages mark_last_done s)"

definition chat_on_error :: "js_error \<Rightarrow> chat_state \<Rightarrow> chat_state" where
  "chat_on_error e s = set_status Chat_error (set_messages mark_last_done s)"

section \<open>Receiving a delta\<close>

fun role_of_js :: "jsval \<Rightarrow> role" where
  "role_of_js (JStr s) =
     (if s = ''user'' then Role_user else if s = ''assistant'' then Role_assistant
      else Role_other (JStr s))"
| "role_of_js v = Role_other v"

text \<open>\<open>undefined + delta\<close> is the text \<open>undefined\<close> followed by the delta.\<close>

fun js_concat :: "string option \<Rightarrow> string \<Rightarrow> string" where
  "js_concat None d = ''undefined'' @ d"
| "js_concat (Some r) d = r @ d"

definition append_delta :: "jsval \<Rightarrow> jsval \<Rightarrow> role \<Rightarrow> string \<Rightarrow> chat_message list \<Rightarrow> chat_message list" where
  "append_delta i created r d next =
     (case last_opt next of
        Some m \<Rightarrow>
          if msg_role m = r then
            butlast next @ [m\<lparr>msg_raw := Some (js_concat (msg_raw m) d),
                              msg_content := js_concat (msg_raw m) d\<rparr>]
          else next @ [\<lparr>msg_id = i, msg_role = r, msg_status = Msg_thinking, msg_content = d,
                        msg_raw = Some d, msg_thinking = None, msg_created = created\<rparr>]
      | None \<Rightarrow> [\<lparr>msg_id = i, msg_role = r, msg_status = Msg_thinking, msg_content = d,
                  msg_raw = Some d, msg_thinking = None, msg_created = created\<rparr>])"

text \<open>
  The body of \<open>choices.forEach\<close>: the parameter pattern \<open>{ delta: { role, content: rawDelta } = {} }\<close>
  throws on \<open>undefined\<close>; a delta without a non-empty text is skipped.  The flag says whether the
  list has been replaced (\<open>next !== prev\<close>).
\<close>

definition apply_choice ::
    "jsval \<Rightarrow> jsval \<Rightarrow> jsval \<Rightarrow> chat_message list \<times> bool \<Rightarrow> js_error + (chat_message list \<times> bool)" where
  "apply_choice i created choice = (\<lambda>(next, changed).
     bind_sum (get_prop choice ''delta'') (\<lambda>d.
     let delta = (if d = JUndef then JObj [] else d) in
     bind_sum (get_prop delta ''role'') (\<lambda>r.
     bind_sum (get_prop delta ''content'') (\<lambda>raw.
       case raw of
         JStr t \<Rightarrow>
           if t = [] then Inr (next, changed)
           else Inr (append_delta i created (role_of_js (js_or r (JStr ''assistant''))) t next, True)
       | _ \<Rightarrow> Inr (next, changed)))))"

text \<open>The split of the raw text by the name of the model.\<close>

definition split_generation :: "string \<Rightarrow> string \<Rightarrow> string \<times> string" where
  "split_generation model raw =
     (let lower = to_lower model in
      if str_includes lower ''gpt-oss'' then gpt_parts raw
      else if str_includes lower ''qwen'' then qwen_parts raw
      else ([], raw))"

definition parse_last :: "string \<Rightarrow> chat_message list \<Rightarrow> chat_message list" where
  "parse_last model next =
     (case last_opt next of
        None \<Rightarrow> next
      | Some m \<Rightarrow>
          (let (thinking, content) =
             split_generation model (case msg_raw m of Some r \<Rightarrow> r | None \<Rightarrow> [])
           in butlast next @
             [m\<lparr>msg_status := (if content \<noteq> [] then Msg_generating else Msg_thinking),
                msg_thinking := Some thinking, msg_content := content\<rparr>]))"

text \<open>The updater of \<open>onMessage\<close>; only an array has \<open>forEach\<close>.\<close>

definition receive_choices ::
    "jsval \<Rightarrow> jsval \<Rightarrow> jsval \<Rightarrow> jsval \<Rightarrow> chat_message list \<Rightarrow> js_error + chat_message list" where
  "receive_choices i created model choices prev =
     (case choices of
        JArr xs \<Rightarrow>
          bind_sum (fold_sum (apply_choice i created) xs (prev, False)) (\<lambda>(next, changed).
            case (changed, model) of
              (True, JStr m) \<Rightarrow> Inr (parse_last m next)
            | _ \<Rightarrow> Inr next)
      | _ \<Rightarrow> Inl TypeError)"

text \<open>\<open>choices?.length > 0\<close> and \<open>choices[0]\<close>.\<close>

fun has_choices :: "jsval \<Rightarrow> bool" where
  "has_choices (JArr xs) = (xs \<noteq> [])"
| "has_choices (JStr s) = (s \<noteq> [])"
| "has_choices (JObj kvs) = (case lookup kvs ''length'' of JNum n \<Rightarrow> num_gt n 0 | _ \<Rightarrow> False)"
| "has_choices v = False"

fun first_choice :: "jsval \<Rightarrow> jsval" where
  "first_choice (JArr (x # xs)) = x"
| "first_choice (JStr (c # cs)) = JStr [c]"
| "first_choice (JObj kvs) = lookup kvs ''0''"
| "first_choice v = JUndef"

definition field :: "jsval \<Rightarrow> string \<Rightarrow> jsval" where
  "field v k = (case get_prop v k of Inr x \<Rightarrow> x | Inl e \<Rightarrow> JUndef)"

definition chat_on_message :: "sse_message \<Rightarrow> chat_state \<Rightarrow> chat_state \<times> js_error option" where
  "chat_on_message message s =
     (let data = ev_data message in
      case get_prop data ''object'' of
        Inl e \<Rightarrow> (s, Some e)
      | Inr object \<Rightarrow>
          (let i = field data ''id''; model = field data ''model'';
               created = field data ''created''; choices = field data ''choices''
           in if object = JStr ''chat.completion.chunk'' \<and> has_choices choices then
                (case bind_sum (get_prop (first_choice choices) ''delta'') (\<lambda>d. get_prop d ''content'') of
                   Inl e \<Rightarrow> (s, Some e)
                 | Inr content \<Rightarrow>
                     (set_messages (receive_choices i created model choices)
                        (if truthy content then set_status Chat_generating s else s), None))
              else (s, None)))"

definition chat_callbacks :: "chat_state callbacks" where
  "chat_callbacks = \<lparr>on_open = chat_on_open, on_close = chat_on_close, on_error = chat_on_error,
     on_message = chat_on_message\<rparr>"

section \<open>The actions\<close>

type_synonym request_message = "jsval \<times> role \<times> string"

record chat_sys =
  cur :: chat_state
  shown :: chat_state
  sse :: sse_state
  cluster_status :: jsval
  cluster_model :: jsval
  requests :: "(jsval \<times> request_message list) list"

definition init_chat_sys :: chat_sys where
  "init_chat_sys = \<lparr>cur = init_chat, shown = init_chat, sse = init_sse,
     cluster_status = JStr ''offline'', cluster_model = JStr [], requests = []\<rparr>"

text \<open>Calls on the client keep its state and the current copy together.\<close>

definition on_client :: "(sse_state \<times> chat_state \<Rightarrow> sse_state \<times> chat_state) \<Rightarrow> chat_sys \<Rightarrow> chat_sys" where
  "on_client f s = (let (st, c) = f (sse s, cur s) in s\<lparr>sse := st, cur := c\<rparr>)"

definition to_request :: "chat_message \<Rightarrow> request_message" where
  "to_request m = (msg_id m, msg_role m, msg_content m)"

text \<open>What a request puts on the wire; the id, role and content of a message are members of an object.\<close>

fun role_js :: "role \<Rightarrow> jsval" where
  "role_js Role_user = JStr ''user''"
| "role_js Role_assistant = JStr ''assistant''"
| "role_js (Role_other v) = v"

definition request_json :: "request_message \<Rightarrow> jsval" where
  "request_json = (\<lambda>(i, r, content). JObj [(''id'', i), (''role'', role_js r), (''content'', JStr content)])"

definition wire_body :: "jsval \<times> request_message list \<Rightarrow> jsval" where
  "wire_body = (\<lambda>(model, messages). request_body model (JArr (map request_json messages)))"

definition start_generation :: "chat_message list \<Rightarrow> chat_sys \<Rightarrow> chat_sys" where
  "start_generation next s =
     on_client (connect chat_callbacks)
       (s\<lparr>cur := (cur s)\<lparr>chat_messages := next\<rparr>,
          requests := requests s @ [(cluster_model s, map to_request next)]\<rparr>)"

definition user_message :: "number \<Rightarrow> string \<Rightarrow> chat_message" where
  "user_message now t = \<lparr>msg_id = JStr (print_number now), msg_role = Role_user,
     msg_status = Msg_done, msg_content = t, msg_raw = None, msg_thinking = None,
     msg_created = JNum now\<rparr>"

text \<open>
  \<open>generate\<close>: with a message the list is cut at it (kept if it is the user's), without one the
  trimmed input becomes a new message.  \<open>now\<close> is what \<open>performance.now()\<close> returns.
\<close>

definition generate :: "number \<Rightarrow> chat_message option \<Rightarrow> chat_sys \<Rightarrow> chat_sys" where
  "generate now message s =
     (let sh = shown s in
      if cluster_status s \<noteq> JStr ''available'' \<or> chat_status sh = Chat_opened
         \<or> chat_status sh = Chat_generating then s
      else if \<not> truthy (cluster_model s) then s
      else
        (case message of
           Some m \<Rightarrow>
             (case find_index (\<lambda>x. msg_id x = msg_id m) (chat_messages sh) of
                None \<Rightarrow> s
              | Some i \<Rightarrow>
                  start_generation
                    (take (i + (if msg_role (chat_messages sh ! i) = Role_user then 1 else 0))
                       (chat_messages sh)) s)
         | None \<Rightarrow>
             (let final_input = trim (chat_input sh) in
              if final_input = [] then s
              else
                start_generation (chat_messages sh @ [user_message now final_input])
                  (s\<lparr>cur := (cur s)\<lparr>chat_input := []\<rparr>\<rparr>))))"

definition stop :: "chat_sys \<Rightarrow> chat_sys" where
  "stop s =
     (if chat_status (shown s) = Chat_closed \<or> chat_status (shown s) = Chat_error then s
      else on_client (disconnect chat_callbacks) s)"

definition clear :: "chat_sys \<Rightarrow> chat_sys" where
  "clear s =
     (let t = stop s in
      if chat_status (shown s) = Chat_opened \<or> chat_status (shown s) = Chat_generating then t
      else t\<lparr>cur := (cur t)\<lparr>chat_messages := []\<rparr>\<rparr>)"

section \<open>Steps\<close>

text \<open>
  An event of the user interface is handled, the microtasks it has queued run, and React renders
  before the next event.  A network event is handled in the same way but the render that follows it
  may come later: other events can happen in between, with handlers that still see the old copy.
\<close>

datatype chat_event =
    Set_input string
  | Generate number "chat_message option"
  | Stop
  | Clear
  | Net net_event
  | Render
  | Cluster jsval jsval

definition render :: "chat_sys \<Rightarrow> chat_sys" where
  "render s = s\<lparr>shown := cur s\<rparr>"

definition settle :: "chat_sys \<Rightarrow> chat_sys" where
  "settle s = on_client (drain chat_callbacks) s"

definition ui_event :: "(chat_sys \<Rightarrow> chat_sys) \<Rightarrow> chat_sys \<Rightarrow> chat_sys" where
  "ui_event handler s = (if chat_crashed (shown s) then s else render (settle (handler s)))"

fun chat_step :: "chat_sys \<Rightarrow> chat_event \<Rightarrow> chat_sys" where
  "chat_step s (Set_input t) = ui_event (\<lambda>s. s\<lparr>cur := (cur s)\<lparr>chat_input := t\<rparr>\<rparr>) s"
| "chat_step s (Generate now m) = ui_event (generate now m) s"
| "chat_step s Stop = ui_event stop s"
| "chat_step s Clear = ui_event clear s"
| "chat_step s (Net ev) = settle (on_client (net_step chat_callbacks ev) s)"
| "chat_step s Render = render s"
| "chat_step s (Cluster st m) = s\<lparr>cluster_status := st, cluster_model := m\<rparr>"

definition chat_run :: "chat_sys \<Rightarrow> chat_event list \<Rightarrow> chat_sys" where
  "chat_run = foldl chat_step"

text \<open>What a component below the provider gets.\<close>

definition use_chat :: "chat_sys option \<Rightarrow> js_error + chat_state" where
  "use_chat context = (case context of
     None \<Rightarrow> Inl (ErrorMsg ''useChat must be used within a ChatProvider'')
   | Some s \<Rightarrow> Inr (shown s))"

inductive chat_reachable :: "chat_sys \<Rightarrow> bool" where
  chat_start: "chat_reachable init_chat_sys"
| chat_next: "chat_reachable s \<Longrightarrow> chat_reachable (chat_step s ev)"

section \<open>The provider as the owner of its client\<close>

definition chat_busy :: "chat_state \<Rightarrow> bool" where
  "chat_busy s = (chat_status s = Chat_opened \<or> chat_status s = Chat_generating)"

lemma chat_status_set_messages [chat_simps]: "chat_status (set_messages f s) = chat_status s"
  by (simp add: set_messages_def split: sum.split)

lemma chat_busy_set_messages [chat_simps]: "chat_busy (set_messages f s) = chat_busy s"
  by (simp add: chat_busy_def chat_simps)

lemma chat_callbacks_sel [chat_simps]:
  "on_open chat_callbacks = chat_on_open" "on_close chat_callbacks = chat_on_close"
  "on_error chat_callbacks = chat_on_error" "on_message chat_callbacks = chat_on_message"
  by (simp_all add: chat_callbacks_def)

lemma chat_on_message_busy: "chat_busy s \<Longrightarrow> chat_busy (fst (chat_on_message m s))"
  by (simp add: chat_on_message_def Let_def chat_simps chat_busy_def set_status_def split: sum.split)

interpretation chat_client: sse_owner chat_callbacks chat_busy
  by unfold_locales
    (simp_all add: chat_simps chat_on_open_def chat_on_close_def chat_on_error_def
      set_status_def chat_busy_def chat_on_message_busy [unfolded chat_busy_def])

definition chat_inv :: "chat_sys \<Rightarrow> bool" where
  "chat_inv s = (sse_ok chat_busy (sse s, cur s) \<and> (chat_busy (cur s) \<longrightarrow> chat_busy (shown s)))"

lemma chat_inv_init: "chat_inv init_chat_sys"
  by (simp add: chat_inv_def init_chat_sys_def init_chat_def init_sse_def chat_busy_def
      sse_ok_def live_def)

lemma on_client_sel [chat_simps]:
  "shown (on_client f s) = shown s" "cluster_status (on_client f s) = cluster_status s"
  "cluster_model (on_client f s) = cluster_model s" "requests (on_client f s) = requests s"
  "(sse (on_client f s), cur (on_client f s)) = f (sse s, cur s)"
  by (simp_all add: on_client_def split: prod.split)

lemma sse_ok_owner_cong:
  "chat_status c = chat_status c' \<Longrightarrow> sse_ok chat_busy (st, c) = sse_ok chat_busy (st, c')"
  by (simp add: sse_ok_def chat_busy_def)

text \<open>
  The handlers keep the client and the status together; this is what the laws of the client give
  for the provider.
\<close>

definition client_ok :: "chat_sys \<Rightarrow> bool" where
  "client_ok s = sse_ok chat_busy (sse s, cur s)"

lemma client_ok_settle: "client_ok s \<Longrightarrow> settle s = s"
proof -
  assume "client_ok s"
  then have "drain chat_callbacks (sse s, cur s) = (sse s, cur s)"
    by (intro chat_client.drain_ok) (simp add: client_ok_def)
  then show ?thesis by (simp add: settle_def on_client_def)
qed

lemma client_ok_start:
  assumes "client_ok s" "\<not> chat_busy (cur s)"
  shows "client_ok (start_generation next s)"
proof -
  let ?c = "(cur s)\<lparr>chat_messages := next\<rparr>"
  have "sse_ok chat_busy (sse s, ?c)" "\<not> chat_busy ?c"
    using assms sse_ok_owner_cong [of ?c "cur s"] by (simp_all add: client_ok_def chat_busy_def)
  then have "sse_ok chat_busy (connect chat_callbacks (sse s, ?c))"
    by (rule chat_client.connect_ok)
  then show ?thesis by (simp add: start_generation_def client_ok_def chat_simps)
qed

lemma client_ok_cur:
  "client_ok s \<Longrightarrow> chat_status c = chat_status (cur s) \<Longrightarrow> client_ok (s\<lparr>cur := c\<rparr>)"
  using sse_ok_owner_cong [of c "cur s"] by (simp add: client_ok_def)

text \<open>An action either leaves the client alone, or starts a request with none running, or stops it.\<close>

lemma generate_cases:
  assumes "\<And>next t. t = s \<or> t = s\<lparr>cur := (cur s)\<lparr>chat_input := []\<rparr>\<rparr> \<Longrightarrow>
      \<not> chat_busy (shown s) \<Longrightarrow> P (start_generation next t)"
    and "P s"
  shows "P (generate now m s)"
  using assms by (simp add: generate_def Let_def chat_busy_def split: option.split)

lemma client_ok_generate:
  assumes "client_ok s" "chat_busy (cur s) \<longrightarrow> chat_busy (shown s)"
  shows "client_ok (generate now m s)"
proof (rule generate_cases [where P = client_ok])
  fix "next" t
  assume t: "t = s \<or> t = s\<lparr>cur := (cur s)\<lparr>chat_input := []\<rparr>\<rparr>" and "\<not> chat_busy (shown s)"
  then have "\<not> chat_busy (cur s)" using assms(2) by blast
  then have "client_ok t" "\<not> chat_busy (cur t)"
    using t assms(1) client_ok_cur by (auto simp: chat_busy_def)
  then show "client_ok (start_generation next t)" by (rule client_ok_start)
qed (rule assms(1))

lemma settle_stop:
  "client_ok s \<Longrightarrow> client_ok (settle (stop s))"
proof (cases "chat_status (shown s) = Chat_closed \<or> chat_status (shown s) = Chat_error")
  case True
  assume "client_ok s"
  with True show ?thesis by (auto simp: stop_def client_ok_settle)
next
  case False
  assume "client_ok s"
  then have "sse_ok chat_busy (drain chat_callbacks (disconnect chat_callbacks (sse s, cur s)))"
    by (auto dest: chat_client.disconnect_ok simp: client_ok_def)
  with False show ?thesis by (simp add: stop_def settle_def client_ok_def chat_simps)
qed

lemma settle_clear:
  assumes "client_ok s"
  shows "client_ok (settle (clear s))"
proof (cases "chat_busy (shown s)")
  case True
  then have "clear s = stop s" by (auto simp: clear_def chat_busy_def Let_def)
  with settle_stop [OF assms] show ?thesis by simp
next
  case False
  then have "stop s = s" by (cases "chat_status (shown s)") (auto simp: stop_def chat_busy_def)
  with False have "clear s = s\<lparr>cur := (cur s)\<lparr>chat_messages := []\<rparr>\<rparr>"
    by (auto simp: clear_def chat_busy_def Let_def)
  moreover have "client_ok (s\<lparr>cur := (cur s)\<lparr>chat_messages := []\<rparr>\<rparr>)"
    using assms by (rule client_ok_cur) simp
  ultimately show ?thesis by (simp add: client_ok_settle)
qed

lemma net_busy_mono:
  assumes "client_ok s" "\<not> chat_busy (cur s)"
  shows "on_client (net_step chat_callbacks ev) s = s"
proof -
  have dead: "\<not> is_live (conns (sse s) c)" for c
    using chat_client.idle_no_live assms by (simp add: client_ok_def)
  have "net_step chat_callbacks ev (sse s, cur s) = (sse s, cur s)"
  proof (cases ev)
    case (Response c st ct b)
    with dead [of c] show ?thesis by auto
  next
    case (Chunk c t)
    with dead [of c] show ?thesis by (cases "conns (sse s) c") auto
  next
    case (End_of_stream c)
    with dead [of c] show ?thesis by (cases "conns (sse s) c") auto
  next
    case (Reject c e)
    with dead [of c] show ?thesis by (cases "conns (sse s) c") auto
  qed
  then show ?thesis by (simp add: on_client_def)
qed

lemma client_ok_net: "client_ok s \<Longrightarrow> client_ok (on_client (net_step chat_callbacks ev) s)"
  using chat_client.net_step_ok by (simp add: client_ok_def chat_simps)

lemma chat_inv_ui:
  assumes "chat_inv s" "client_ok (settle (handler s))"
  shows "chat_inv (ui_event handler s)"
  using assms by (auto simp: ui_event_def chat_inv_def render_def client_ok_def)

lemma chat_inv_step: "chat_inv s \<Longrightarrow> chat_inv (chat_step s ev)"
proof -
  assume inv: "chat_inv s"
  then have ok: "client_ok s" and mono: "chat_busy (cur s) \<longrightarrow> chat_busy (shown s)"
    by (simp_all add: chat_inv_def client_ok_def)
  show ?thesis
  proof (cases ev)
    case (Set_input t)
    have "client_ok (s\<lparr>cur := (cur s)\<lparr>chat_input := t\<rparr>\<rparr>)" using ok by (rule client_ok_cur) simp
    with Set_input chat_inv_ui [OF inv] show ?thesis by (simp add: client_ok_settle)
  next
    case (Generate now m)
    with chat_inv_ui [OF inv] client_ok_generate [OF ok mono] show ?thesis
      by (simp add: client_ok_settle)
  next
    case Stop
    with chat_inv_ui [OF inv] settle_stop [OF ok] show ?thesis by simp
  next
    case Clear
    with chat_inv_ui [OF inv] settle_clear [OF ok] show ?thesis by simp
  next
    case (Net e)
    let ?t = "on_client (net_step chat_callbacks e) s"
    have "client_ok ?t" by (rule client_ok_net [OF ok])
    moreover have "chat_busy (cur ?t) \<longrightarrow> chat_busy (shown ?t)"
      using net_busy_mono [OF ok] mono by (cases "chat_busy (cur s)") (simp_all add: chat_simps)
    ultimately show ?thesis using Net by (simp add: client_ok_settle) (simp add: chat_inv_def client_ok_def)
  next
    case Render
    with inv show ?thesis by (simp add: render_def chat_inv_def)
  next
    case (Cluster st m)
    with inv show ?thesis by (simp add: chat_inv_def)
  qed
qed

lemma chat_reachable_inv: "chat_reachable s \<Longrightarrow> chat_inv s"
  by (induction rule: chat_reachable.induct) (auto intro: chat_inv_init chat_inv_step)

end
