(* ===== verification/Chat_History.thy ===== *)
theory Chat_History
  imports Chat
begin

text \<open>
  What the chat does to the history of messages: replies extend it, requests carry it, stopping
  closes it, and only a malformed chunk can make the provider throw.
\<close>

section \<open>Extending a history\<close>

text \<open>
  A reply may change the text and the status of the last message and add messages after it; the
  messages before it, and the identity of every message, stay.
\<close>

definition header :: "chat_message \<Rightarrow> jsval \<times> role \<times> jsval" where
  "header m = (msg_id m, msg_role m, msg_created m)"

definition extends :: "chat_message list \<Rightarrow> chat_message list \<Rightarrow> bool" where
  "extends ms ms' = (prefix (butlast ms) ms' \<and> prefix (map header ms) (map header ms'))"

lemma extends_refl: "extends ms ms"
  by (simp add: extends_def prefixeq_butlast)

lemma extends_trans:
  assumes "extends a b" "extends b c"
  shows "extends a c"
proof -
  have len: "length a \<le> length b"
    using assms(1) prefix_length_le by (fastforce simp: extends_def)
  have "prefix (butlast a) (butlast b)"
  proof (cases "a = []")
    case False
    with len have "length (butlast a) \<le> length (butlast b)" by simp
    moreover have "prefix (butlast a) b" "prefix (butlast b) b"
      using assms(1) by (simp_all add: extends_def prefixeq_butlast)
    ultimately show ?thesis using prefix_length_prefix by blast
  qed simp
  then show ?thesis using assms by (auto simp: extends_def intro: prefix_order.trans)
qed

lemma extends_append: "extends ms (ms @ xs)"
  by (simp add: extends_def prefixeq_butlast prefix_order.trans [OF prefixeq_butlast])

lemma extends_last: "last_opt ms = Some m \<Longrightarrow> header m' = header m \<Longrightarrow> extends ms (butlast ms @ [m'])"
  by (cases ms rule: rev_cases) (auto simp: extends_def last_opt_def)

lemma extends_hd: "extends ms ms' \<Longrightarrow> ms \<noteq> [] \<Longrightarrow> ms' \<noteq> [] \<and> msg_role (hd ms') = msg_role (hd ms)"
  by (cases ms; cases ms') (auto simp: extends_def header_def)

locale history_updater =
  fixes f :: "chat_message list \<Rightarrow> js_error + chat_message list"
  assumes updates: "f ms = Inr ms' \<Longrightarrow> extends ms ms'"
begin

lemma set_messages_extends: "extends (chat_messages s) (chat_messages (set_messages f s))"
  using updates extends_refl by (simp add: set_messages_def split: sum.split)

end

interpretation marking: history_updater mark_last_done
proof
  fix ms ms'
  assume "mark_last_done ms = Inr ms'"
  then obtain m where "last_opt ms = Some m" "ms' = butlast ms @ [m\<lparr>msg_status := Msg_done\<rparr>]"
    by (auto simp: mark_last_done_def split: option.splits)
  then show "extends ms ms'" by (simp add: extends_last header_def)
qed

lemma append_delta_extends: "extends ms (append_delta i created r d ms)"
proof (cases "last_opt ms")
  case None
  then have "ms = []" by (simp add: last_opt_def split: if_splits)
  then show ?thesis using extends_append [of "[]"] by simp
next
  case (Some m)
  then show ?thesis
    using extends_append extends_last [OF Some] by (simp add: append_delta_def header_def)
qed

lemma apply_choice_extends:
  assumes "apply_choice i created ch (ms, b) = Inr (ms', b')"
  shows "extends ms ms'"
proof -
  obtain d r raw where
    "(case raw of JStr t \<Rightarrow> if t = [] then Inr (ms, b)
        else Inr (append_delta i created (role_of_js (js_or r (JStr ''assistant''))) t ms, True)
      | _ \<Rightarrow> Inr (ms, b)) = (Inr (ms', b') :: js_error + _)"
    using assms unfolding apply_choice_def Let_def prod.case bind_sum_Inr_iff by blast
  then show ?thesis
    using append_delta_extends extends_refl by (cases raw) (auto split: if_splits)
qed

lemma parse_last_extends: "extends ms (parse_last model ms)"
proof (cases "last_opt ms")
  case (Some m)
  then show ?thesis
    by (simp add: parse_last_def extends_last header_def split: prod.split)
qed (simp add: parse_last_def extends_refl)

lemma fold_choices_extends:
  "fold_sum (apply_choice i created) xs (ms, b) = Inr (ms', b') \<Longrightarrow> extends ms ms'"
proof (induction xs arbitrary: ms b)
  case Nil
  then show ?case by (simp add: extends_refl)
next
  case (Cons x xs)
  then obtain ms1 b1 where "apply_choice i created x (ms, b) = Inr (ms1, b1)"
    "fold_sum (apply_choice i created) xs (ms1, b1) = Inr (ms', b')"
    by (auto simp: bind_sum_Inr_iff)
  with Cons.IH apply_choice_extends extends_trans show ?case by blast
qed

interpretation receiving: history_updater "receive_choices i created model choices"
  for i created model choices
proof
  fix ms ms'
  assume r: "receive_choices i created model choices ms = Inr ms'"
  obtain xs where ch: "choices = JArr xs"
    using r by (cases choices) (simp_all add: receive_choices_def)
  with r obtain nx b where f: "fold_sum (apply_choice i created) xs (ms, False) = Inr (nx, b)"
    and "ms' = nx \<or> (\<exists>m. ms' = parse_last m nx)"
    by (auto simp: receive_choices_def bind_sum_Inr_iff split: bool.splits jsval.splits)
  with fold_choices_extends [OF f] parse_last_extends extends_trans show "extends ms ms'" by blast
qed

definition chat_extends :: "chat_state \<Rightarrow> chat_state \<Rightarrow> bool" where
  "chat_extends s s' = extends (chat_messages s) (chat_messages s')"

lemma set_status_sel [chat_simps]:
  "chat_messages (set_status v s) = chat_messages s" "chat_crashed (set_status v s) = chat_crashed s"
  "chat_status (set_status v s) = v"
  by (simp_all add: set_status_def)

lemma chat_on_message_cases:
  "fst (chat_on_message m s) = s \<or> (\<exists>i c mo ch st. chat_on_message m s =
      (set_messages (receive_choices i c mo ch) (if st then set_status Chat_generating s else s), None))"
proof (cases "get_prop (ev_data m) ''object''")
  case (Inr object)
  let ?ch = "field (ev_data m) ''choices''"
  let ?c = "bind_sum (get_prop (first_choice ?ch) ''delta'') (\<lambda>d. get_prop d ''content'')"
  show ?thesis
  proof (cases "object = JStr ''chat.completion.chunk'' \<and> has_choices ?ch")
    case True
    then show ?thesis
      using Inr by (cases ?c) (simp_all add: chat_on_message_def Let_def, blast)
  qed (use Inr in \<open>auto simp: chat_on_message_def Let_def\<close>)
qed (simp add: chat_on_message_def Let_def)

interpretation chat_effect: sse_effect chat_callbacks chat_extends
proof
  fix s m
  show "chat_extends s (fst (on_message chat_callbacks m s))"
  proof (cases "fst (chat_on_message m s) = s")
    case False
    then obtain i c mo ch st where eq: "chat_on_message m s =
        (set_messages (receive_choices i c mo ch) (if st then set_status Chat_generating s else s), None)"
      using chat_on_message_cases by blast
    show ?thesis
      using receiving.set_messages_extends [of "if st then set_status Chat_generating s else s" i c mo ch]
      by (cases st) (simp_all add: eq chat_simps chat_extends_def)
  qed (simp add: chat_extends_def chat_simps extends_refl)
qed (use marking.set_messages_extends extends_refl extends_trans in
    \<open>auto simp: chat_extends_def chat_simps chat_on_close_def chat_on_error_def\<close>)

section \<open>The invariant of the provider\<close>

text \<open>
  While nothing is running the handlers see the current values; a history starts with a message of
  the user; a request is only running for a history that has one.
\<close>

definition history_inv :: "chat_sys \<Rightarrow> bool" where
  "history_inv s =
     ((\<not> chat_busy (shown s) \<longrightarrow> shown s = cur s)
      \<and> (chat_messages (cur s) \<noteq> [] \<longrightarrow> msg_role (hd (chat_messages (cur s))) = Role_user)
      \<and> (chat_busy (cur s) \<longrightarrow> chat_messages (cur s) \<noteq> []))"

definition user_first :: "chat_state \<Rightarrow> bool" where
  "user_first c = ((chat_messages c \<noteq> [] \<longrightarrow> msg_role (hd (chat_messages c)) = Role_user)
     \<and> (chat_busy c \<longrightarrow> chat_messages c \<noteq> []))"

lemma history_inv_user_first:
  "history_inv s \<longleftrightarrow> (\<not> chat_busy (shown s) \<longrightarrow> shown s = cur s) \<and> user_first (cur s)"
  by (auto simp: history_inv_def user_first_def)

lemma user_first_extends:
  assumes "user_first c" "chat_extends c c'" "chat_messages c = [] \<longrightarrow> chat_messages c' = []"
    and "chat_busy c' \<longrightarrow> chat_busy c"
  shows "user_first c'"
  using assms extends_hd [of "chat_messages c" "chat_messages c'"]
  by (cases "chat_messages c = []") (auto simp: user_first_def chat_extends_def)

lemma mark_last_done_Nil: "mark_last_done ms = Inl e \<Longrightarrow> ms = []"
  by (cases ms rule: rev_cases) (auto simp: mark_last_done_def last_opt_def)

lemma closing_crash:
  assumes "chat_messages s \<noteq> []"
  shows "chat_crashed (chat_on_close s) = chat_crashed s"
    and "chat_crashed (chat_on_error e s) = chat_crashed s"
    and "chat_messages (chat_on_close s) \<noteq> []"
  using assms mark_last_done_Nil marking.set_messages_extends [of s] extends_hd [of "chat_messages s"]
  by (auto simp: chat_on_close_def chat_on_error_def chat_simps set_messages_def split: sum.split)

lemma ui_event_inv:
  assumes "history_inv s" "user_first (cur (settle (handler s)))"
  shows "history_inv (ui_event handler s)"
  using assms by (simp add: ui_event_def history_inv_user_first render_def)

lemma user_first_start:
  "next \<noteq> [] \<Longrightarrow> msg_role (hd next) = Role_user \<Longrightarrow> user_first (cur (start_generation next s))"
  by (simp add: start_generation_def on_client_def connect_def Let_def user_first_def chat_simps
      chat_on_open_def)

lemma generate_inv:
  assumes "history_inv s"
  shows "user_first (cur (generate now m s))"
proof -
  have uf: "user_first (cur s)" using assms by (simp add: history_inv_user_first)
  show ?thesis
  proof (cases "generate now m s = s")
    case False
    then have nb: "\<not> chat_busy (shown s)" by (auto simp: generate_def chat_busy_def Let_def)
    then have ms: "chat_messages (shown s) \<noteq> [] \<Longrightarrow> msg_role (hd (chat_messages (shown s))) = Role_user"
      using assms by (simp add: history_inv_def)
    show ?thesis
    proof (cases m)
      case None
      have "user_first (cur (start_generation (chat_messages (shown s) @ [user_message now t]) u))" for t u
        using ms by (cases "chat_messages (shown s)")
          (auto intro!: user_first_start simp: user_message_def)
      then show ?thesis using None uf by (simp add: generate_def Let_def)
    next
      case (Some x)
      have "user_first (cur (start_generation
          (take (i + (if msg_role (chat_messages (shown s) ! i) = Role_user then 1 else 0))
            (chat_messages (shown s))) s))"
        if f: "find_index (\<lambda>y. msg_id y = msg_id x) (chat_messages (shown s)) = Some i" for i
      proof -
        have i: "i < length (chat_messages (shown s))" using find_index_SomeD [OF f] by simp
        then have ne: "chat_messages (shown s) \<noteq> []" by auto
        from ms [OF this] i show ?thesis
          by (intro user_first_start) (cases i; auto simp: hd_conv_nth take_eq_Nil ne)+
      qed
      then show ?thesis using Some uf by (simp add: generate_def Let_def split: option.split)
    qed
  qed (use uf in simp)
qed

text \<open>What the callbacks of a stopped or failing request do.\<close>

lemma client_net_inv:
  assumes "client_ok s" "user_first (cur s)"
  shows "user_first (cur (on_client (net_step chat_callbacks ev) s))"
proof (cases "chat_busy (cur s)")
  case False
  with net_busy_mono [OF assms(1)] assms(2) show ?thesis by simp
next
  case True
  have "chat_extends (cur s) (cur (on_client (net_step chat_callbacks ev) s))"
    using chat_effect.net_step_rel [of "(sse s, cur s)" ev]
    by (cases "net_step chat_callbacks ev (sse s, cur s)") (simp add: on_client_def)
  then show ?thesis
    using True assms(2) user_first_extends by (auto simp: user_first_def)
qed

lemma settle_stop_cur:
  assumes ok: "client_ok s" and stopping: "chat_busy (shown s)"
  shows "cur (settle (stop s)) =
    (if \<exists>c. conns (sse s) c = Fetching then chat_on_error (Thrown ''stop'') (chat_on_close (cur s))
     else if chat_busy (cur s) then chat_on_close (chat_on_close (cur s))
     else chat_on_close (cur s))"
proof -
  have ok': "sse_ok chat_busy (sse s, cur s)" using ok by (simp add: client_ok_def)
  have eq: "cur (settle (stop s)) = snd (drain chat_callbacks (disconnect chat_callbacks (sse s, cur s)))"
    using stopping by (auto simp: stop_def settle_def on_client_def chat_busy_def split: prod.split)
  show ?thesis
  proof (cases "chat_busy (cur s)")
    case False
    then have "\<nexists>c. conns (sse s) c = Fetching"
      using chat_client.idle_no_live [OF ok'] by (metis is_live.simps(1))
    with False eq chat_client.disconnect_idle [OF ok'] show ?thesis by (simp add: chat_simps)
  next
    case True
    then obtain c where c: "live (sse s) c" using sse_ok_busy [OF ok'] by blast
    show ?thesis
    proof (cases "conns (sse s) c")
      case Fetching
      with eq chat_client.disconnect_fetching [OF ok' Fetching] show ?thesis by (auto simp: chat_simps)
    next
      case (Reading b)
      have "conns (sse s) d \<noteq> Fetching" for d
        using sse_ok_single [OF ok' c, of d] Reading by (auto simp: live_def)
      with Reading eq True chat_client.disconnect_reading [OF ok' Reading] show ?thesis
        by (simp add: chat_simps)
    qed (use c in \<open>simp_all add: live_def\<close>)
  qed
qed

lemma stop_idle: "\<not> chat_busy (shown s) \<Longrightarrow> stop s = s"
  by (cases "chat_status (shown s)") (auto simp: stop_def chat_busy_def)

lemma clear_eq:
  "clear s = (if chat_busy (shown s) then stop s else s\<lparr>cur := (cur s)\<lparr>chat_messages := []\<rparr>\<rparr>)"
  using stop_idle [of s] by (auto simp: clear_def Let_def chat_busy_def)

lemma user_first_stop:
  assumes "client_ok s" "user_first (cur s)"
  shows "user_first (cur (settle (stop s)))"
proof (cases "chat_busy (shown s)")
  case False
  with assms stop_idle [OF False] show ?thesis by (simp add: client_ok_settle)
next
  case True
  have closed: "user_first (chat_on_close c)" "user_first (chat_on_error e c)" if "user_first c" for c e
    using that chat_effect.rel_close [of c] chat_effect.rel_error [of c e]
      chat_client.close_idle [of c] chat_client.error_idle [of e c]
      extends_hd [of "chat_messages c"]
    by (auto simp: user_first_def chat_simps chat_extends_def chat_on_close_def chat_on_error_def
        set_messages_def mark_last_done_def last_opt_def split: if_splits)
  show ?thesis unfolding settle_stop_cur [OF assms(1) True] using closed assms(2) by simp
qed

lemma user_first_cong:
  "chat_messages c = chat_messages c' \<Longrightarrow> chat_status c = chat_status c' \<Longrightarrow> user_first c = user_first c'"
  by (simp add: user_first_def chat_busy_def)

lemma chat_inv_client: "chat_inv s \<Longrightarrow> client_ok s \<and> (chat_busy (cur s) \<longrightarrow> chat_busy (shown s))"
  by (simp add: chat_inv_def client_ok_def)

lemma history_inv_step:
  assumes "chat_inv s" "history_inv s"
  shows "history_inv (chat_step s ev)"
proof -
  have ok: "client_ok s" and mono: "chat_busy (cur s) \<longrightarrow> chat_busy (shown s)"
    using chat_inv_client [OF assms(1)] by blast+
  have uf: "user_first (cur s)" using assms(2) by (simp add: history_inv_user_first)
  show ?thesis
  proof (cases ev)
    case (Set_input t)
    have "client_ok (s\<lparr>cur := (cur s)\<lparr>chat_input := t\<rparr>\<rparr>)" using ok by (rule client_ok_cur) simp
    with Set_input uf show ?thesis
      using user_first_cong [of "(cur s)\<lparr>chat_input := t\<rparr>" "cur s"]
      by (auto intro!: ui_event_inv [OF assms(2)] simp: client_ok_settle)
  next
    case (Generate now m)
    with generate_inv [OF assms(2)] client_ok_generate [OF ok mono] show ?thesis
      by (auto intro!: ui_event_inv [OF assms(2)] simp: client_ok_settle)
  next
    case Stop
    with user_first_stop [OF ok uf] show ?thesis by (auto intro!: ui_event_inv [OF assms(2)])
  next
    case Clear
    have "user_first (cur (settle (clear s)))"
    proof (cases "chat_busy (shown s)")
      case False
      with settle_clear [OF ok] have "client_ok (clear s)"
        using client_ok_cur [OF ok] by (simp add: clear_eq)
      with False mono show ?thesis by (simp add: clear_eq client_ok_settle user_first_def chat_busy_def)
    qed (simp add: clear_eq user_first_stop [OF ok uf])
    with Clear show ?thesis by (auto intro!: ui_event_inv [OF assms(2)])
  next
    case (Net e)
    let ?t = "on_client (net_step chat_callbacks e) s"
    have eq: "settle ?t = ?t" by (rule client_ok_settle [OF client_ok_net [OF ok]])
    have "\<not> chat_busy (shown s) \<Longrightarrow> ?t = s" using net_busy_mono [OF ok] mono by blast
    then show ?thesis
      using Net eq client_net_inv [OF ok uf, of e] assms(2)
      by (auto simp: history_inv_user_first chat_simps)
  next
    case Render
    with assms(2) show ?thesis by (simp add: history_inv_def render_def)
  next
    case (Cluster st m)
    with assms(2) show ?thesis by (simp add: history_inv_def)
  qed
qed

lemma reachable_history: "chat_reachable s \<Longrightarrow> history_inv s"
proof (induction rule: chat_reachable.induct)
  case chat_start
  then show ?case by (simp add: history_inv_def init_chat_sys_def init_chat_def chat_busy_def)
next
  case (chat_next s ev)
  then show ?case using history_inv_step chat_reachable_inv by blast
qed

lemma reachable_run: "chat_reachable s \<Longrightarrow> chat_reachable (chat_run s evs)"
  by (induction evs arbitrary: s) (auto simp: chat_run_def intro: chat_next)

section \<open>Crashes\<close>

lemma busy_nonempty: "user_first c \<Longrightarrow> chat_busy c \<Longrightarrow> chat_messages c \<noteq> []"
  by (simp add: user_first_def)

lemma generate_not_crashing: "chat_crashed (cur (generate now m s)) = chat_crashed (cur s)"
  by (simp add: generate_def start_generation_def on_client_def connect_def Let_def chat_simps
      chat_on_open_def split: option.split)

lemma stop_not_crashing:
  assumes "client_ok s" "user_first (cur s)" "chat_messages (cur s) \<noteq> []"
  shows "chat_crashed (cur (settle (stop s))) = chat_crashed (cur s)"
proof (cases "chat_busy (shown s)")
  case True
  then show ?thesis
    unfolding settle_stop_cur [OF assms(1) True] using assms(3) by (simp add: closing_crash)
qed (simp add: stop_idle client_ok_settle [OF assms(1)])

lemma net_not_crashing:
  assumes "\<And>c t. ev \<noteq> Chunk c t" "chat_messages s \<noteq> []"
  shows "chat_crashed (snd (net_step chat_callbacks ev (st, s))) = chat_crashed s"
proof (cases ev)
  case (Response c status ctype b)
  then show ?thesis using assms(2) by (simp add: on_response_def chat_simps closing_crash)
next
  case (End_of_stream c)
  then show ?thesis using assms(2) by (cases "conns st c") (simp_all add: chat_simps closing_crash)
next
  case (Reject c e)
  then show ?thesis
    using assms(2) by (cases "conns st c") (simp_all add: catch_error_def chat_simps closing_crash)
qed (use assms(1) in blast)

lemma on_client_cur: "cur (on_client f s) = snd (f (sse s, cur s))"
  by (simp add: on_client_def split: prod.split)

text \<open>
  A stop while the history is empty would throw; it cannot happen, because the handler does nothing
  when no request is shown as running.
\<close>

definition stop_safe :: "chat_sys \<Rightarrow> bool" where
  "stop_safe s = (chat_busy (shown s) \<longrightarrow> chat_messages (cur s) \<noteq> [])"

lemma stop_safe_shown: "history_inv s \<Longrightarrow> shown s = cur s \<Longrightarrow> stop_safe s"
  by (simp add: history_inv_user_first user_first_def stop_safe_def)

lemma shown_ui: "shown (ui_event h s) = (if chat_crashed (shown s) then shown s else cur (ui_event h s))"
  by (simp add: ui_event_def render_def)

lemma ui_event_crashed: "chat_crashed (shown s) \<Longrightarrow> ui_event h s = s"
  by (simp add: ui_event_def)

lemma stop_safe_step:
  assumes "chat_inv s" "history_inv s" "stop_safe s"
  shows "stop_safe (chat_step s ev)"
proof -
  have ui: "stop_safe (ui_event h s)" if "history_inv (ui_event h s)" for h
    using that assms(3) stop_safe_shown shown_ui [of h s]
    by (cases "chat_crashed (shown s)") (simp_all add: ui_event_crashed)
  have inv: "history_inv (chat_step s ev)" by (rule history_inv_step [OF assms(1,2)])
  have ok: "client_ok s" using chat_inv_client [OF assms(1)] by blast
  show ?thesis
  proof (cases ev)
    case (Net e)
    let ?t = "on_client (net_step chat_callbacks e) s"
    have "chat_messages (cur s) \<noteq> [] \<Longrightarrow> chat_messages (cur ?t) \<noteq> []"
      using chat_effect.net_step_rel [of "(sse s, cur s)" e] extends_hd
      by (auto simp: on_client_cur chat_extends_def)
    then show ?thesis using assms(3) Net client_ok_settle [OF client_ok_net [OF ok]]
      by (simp add: stop_safe_def chat_simps)
  next
    case Render
    with inv show ?thesis by (intro stop_safe_shown) (simp_all add: render_def)
  next
    case (Cluster st m)
    with assms(3) show ?thesis by (simp add: stop_safe_def)
  qed (use inv ui in simp_all)
qed

lemma reachable_stop_safe: "chat_reachable s \<Longrightarrow> stop_safe s"
proof (induction rule: chat_reachable.induct)
  case chat_start
  then show ?case by (simp add: stop_safe_def init_chat_sys_def init_chat_def chat_busy_def)
next
  case (chat_next s ev)
  then show ?case using stop_safe_step chat_reachable_inv reachable_history by blast
qed

lemmas reachable_facts = chat_reachable_inv [THEN chat_inv_client, THEN conjunct1]
  chat_reachable_inv [THEN chat_inv_client, THEN conjunct2] reachable_history reachable_stop_safe

section \<open>Actions, in full\<close>

lemma ui_event_running:
  "\<not> chat_crashed (shown s) \<Longrightarrow> ui_event h s = render (settle (h s))"
  by (simp add: ui_event_def)

lemma requests_ui: "requests (ui_event h s) = (if chat_crashed (shown s) then requests s else requests (h s))"
  by (simp add: ui_event_def render_def settle_def chat_simps)

lemma requests_stop: "requests (stop s) = requests s" "requests (clear s) = requests s"
  by (simp_all add: clear_eq stop_def chat_simps)

lemma start_generation_sel [chat_simps]:
  "requests (start_generation ms s) = requests s @ [(cluster_model s, map to_request ms)]"
  "chat_messages (cur (start_generation ms s)) = ms"
  "chat_input (cur (start_generation ms s)) = chat_input (cur s)"
  "chat_status (cur (start_generation ms s)) = Chat_opened"
  "abort_controller (sse (start_generation ms s)) = Some (next_conn (sse s))"
  "conns (sse (start_generation ms s)) (next_conn (sse s)) = Fetching"
  by (simp_all add: start_generation_def on_client_def connect_def Let_def chat_simps chat_on_open_def
      set_status_def)

lemma generate_result:
  assumes "requests (generate now m s) \<noteq> requests s"
  shows "cluster_status s = JStr ''available''" "truthy (cluster_model s)" "\<not> chat_busy (shown s)"
    and "requests (generate now m s) =
      requests s @ [(cluster_model s, map to_request (chat_messages (cur (generate now m s))))]"
  using assms by (auto simp: generate_def Let_def chat_busy_def chat_simps split: option.splits if_splits)

lemma step_generate:
  assumes "chat_reachable s" "\<not> chat_crashed (shown s)"
  shows "chat_step s (Generate now m) = render (generate now m s)"
  using assms client_ok_generate reachable_facts(1,2)
  by (simp add: ui_event_running client_ok_settle)

lemma generate_new:
  assumes "cluster_status s = JStr ''available''" "truthy (cluster_model s)" "\<not> chat_busy (shown s)"
    and "trim (chat_input (shown s)) \<noteq> []"
  shows "generate now None s = start_generation
      (chat_messages (shown s) @ [user_message now (trim (chat_input (shown s)))])
      (s\<lparr>cur := (cur s)\<lparr>chat_input := []\<rparr>\<rparr>)"
  using assms by (simp add: generate_def Let_def chat_busy_def)

lemma generate_again:
  assumes "cluster_status s = JStr ''available''" "truthy (cluster_model s)" "\<not> chat_busy (shown s)"
    and "chat_messages (shown s) = before @ x # after" "msg_id x = msg_id m"
    and "\<forall>y \<in> set before. msg_id y \<noteq> msg_id m"
  shows "generate now (Some m) s = start_generation
      (before @ (if msg_role x = Role_user then [x] else [])) s"
proof -
  have "find_index (\<lambda>y. msg_id y = msg_id m) (before @ x # after) = Some (length before)"
    using assms(5,6) by (induction before) auto
  then show ?thesis using assms(1-4) by (simp add: generate_def Let_def chat_busy_def)
qed

lemma idle_shown: "chat_reachable s \<Longrightarrow> \<not> chat_busy (shown s) \<Longrightarrow> shown s = cur s"
  using reachable_history by (simp add: history_inv_def)

lemma step_stop:
  assumes "chat_reachable s" "\<not> chat_crashed (shown s)" "live (sse s) c"
  shows "cur (chat_step s Stop) =
    (if conns (sse s) c = Fetching then chat_on_error (Thrown ''stop'') (chat_on_close (cur s))
     else chat_on_close (chat_on_close (cur s)))"
proof -
  have ok: "client_ok s" by (rule reachable_facts(1) [OF assms(1)])
  then have ok': "sse_ok chat_busy (sse s, cur s)" by (simp add: client_ok_def)
  have busy: "chat_busy (cur s)" using sse_ok_busy [OF ok'] assms(3) by blast
  then have sh: "chat_busy (shown s)" using reachable_facts(2) [OF assms(1)] by blast
  have "(\<exists>d. conns (sse s) d = Fetching) \<longleftrightarrow> conns (sse s) c = Fetching"
    using sse_ok_single [OF ok' assms(3)] by (metis is_live.simps(1) live_def)
  then show ?thesis
    using busy settle_stop_cur [OF ok sh] assms(2) by (simp add: ui_event_running render_def)
qed

lemma on_client_id: "on_client id s = s"
  by (simp add: on_client_def)

lemma settle_extends:
  assumes "chat_extends (cur s) (snd (f (sse s, cur s)))"
  shows "chat_extends (cur s) (cur (settle (on_client f s)))"
proof -
  have "cur (settle (on_client f s)) = snd (drain chat_callbacks (f (sse s, cur s)))"
    using on_client_sel(5) [of f s] by (simp add: settle_def on_client_cur [of "drain chat_callbacks"])
  then show ?thesis using chat_effect.rel_trans [OF assms chat_effect.drain_rel] by simp
qed

lemma request_cases:
  assumes "chat_reachable s"
  shows "requests (chat_step s ev) = requests s
    \<or> (\<exists>now m. ev = Generate now m) \<and> cluster_status s = JStr ''available'' \<and> truthy (cluster_model s)
      \<and> (\<forall>c. \<not> live (sse s) c)
      \<and> requests (chat_step s ev) = requests s @
          [(cluster_model s, map to_request (chat_messages (shown (chat_step s ev))))]"
proof (cases ev)
  case (Generate now m)
  show ?thesis
  proof (cases "chat_crashed (shown s) \<or> requests (generate now m s) = requests s")
    case True
    then show ?thesis using Generate by (auto simp: requests_ui)
  next
    case False
    then have run: "chat_step s ev = render (generate now m s)"
      and new: "requests (generate now m s) \<noteq> requests s"
      using Generate step_generate [OF assms] by auto
    have "\<not> chat_busy (cur s)" using generate_result(3) [OF new] reachable_facts(2) [OF assms] by blast
    then have "\<not> live (sse s) c" for c
      using chat_client.idle_no_live reachable_facts(1) [OF assms] by (simp add: client_ok_def live_def)
    with Generate run generate_result [OF new] show ?thesis by (simp add: render_def)
  qed
qed (simp_all add: requests_ui requests_stop render_def settle_def chat_simps)

section \<open>Properties\<close>

text \<open>
  A run that ends with a request in flight and one whose reply is being read; the witnesses below
  start from it.
\<close>

definition sample_fetching :: chat_sys where
  "sample_fetching = chat_run init_chat_sys
     [Cluster (JStr ''available'') (JStr ''m''), Set_input '' hi '', Generate (Num 5 0) None]"

definition sample_reading :: chat_sys where
  "sample_reading = chat_step sample_fetching (Net (Response 0 200 (Some ''text/event-stream'') True))"

lemma sample_reachable: "chat_reachable sample_fetching" "chat_reachable sample_reading"
  unfolding sample_reading_def sample_fetching_def
  by (intro chat_next reachable_run chat_start)+

lemma sample_phases:
  "conns (sse sample_fetching) 0 = Fetching" "conns (sse sample_reading) 0 = Reading []"
  "chat_crashed (cur sample_fetching) = False" "chat_crashed (cur sample_reading) = False"
  "chat_crashed (shown sample_fetching) = False" "chat_crashed (shown sample_reading) = False"
  "chat_busy (cur sample_fetching)" "chat_busy (cur sample_reading)"
  by code_simp+

text \<open>C2: In every reachable state of the chat the provider's status is the truth about its client:
  it is \<open>opened\<close> or \<open>generating\<close> exactly when a request is live, and then one single request is, with
  the client's abort controller belonging to it.\<close>

theorem chat_one_request:
  assumes "chat_reachable s"
  shows "if chat_busy (cur s)
    then \<exists>c. abort_controller (sse s) = Some c \<and> (\<forall>d. live (sse s) d \<longleftrightarrow> d = c)
    else \<forall>d. \<not> live (sse s) d"
proof -
  have ok: "sse_ok chat_busy (sse s, cur s)"
    using reachable_facts(1) [OF assms] by (simp add: client_ok_def)
  show ?thesis
  proof (cases "chat_busy (cur s)")
    case True
    then obtain c where "live (sse s) c" using sse_ok_busy [OF ok] by blast
    with True show ?thesis
      using sse_ok_single [OF ok] sse_ok_abort [OF ok, of c] by (auto simp: live_def)
  qed (use sse_ok_busy [OF ok] in auto)
qed

theorem chat_one_request_witness:
  "\<exists>c. abort_controller (sse sample_reading) = Some c \<and> (\<forall>d. live (sse sample_reading) d \<longleftrightarrow> d = c)"
  using chat_one_request [OF sample_reachable(2)] sample_phases by simp

text \<open>A request is sent by nothing but the user's \<open>generate\<close>, and only while the cluster is available,
  has a model and no other request is live; it carries exactly the messages then shown.\<close>

theorem chat_request_guarded:
  assumes "chat_reachable s"
  shows "requests (chat_step s ev) = requests s
    \<or> (\<exists>now m. ev = Generate now m) \<and> cluster_status s = JStr ''available'' \<and> truthy (cluster_model s)
      \<and> (\<forall>c. \<not> live (sse s) c)
      \<and> requests (chat_step s ev) = requests s @
          [(cluster_model s, map to_request (chat_messages (shown (chat_step s ev))))]"
  using assms by (rule request_cases)

theorem chat_request_guarded_witness:
  "requests sample_fetching = [(JStr ''m'', [(JStr ''5'', Role_user, ''hi'')])]
   \<and> requests (chat_step sample_fetching Stop) = requests sample_fetching"
proof
  show "requests sample_fetching = [(JStr ''m'', [(JStr ''5'', Role_user, ''hi'')])]" by code_simp
  show "requests (chat_step sample_fetching Stop) = requests sample_fetching"
    using chat_request_guarded [OF sample_reachable(1), of Stop] by simp
qed

text \<open>Sending a new input while nothing runs appends the trimmed text as one message of the user,
  clears the input, shows the status \<open>opened\<close> and puts the request on the wire.\<close>

theorem chat_generate_new:
  assumes "chat_reachable s" "\<not> chat_crashed (shown s)" "\<not> chat_busy (shown s)"
    and "cluster_status s = JStr ''available''" "truthy (cluster_model s)" "trim (chat_input (shown s)) \<noteq> []"
  shows "let s' = chat_step s (Generate now None) in
    chat_messages (shown s') = chat_messages (shown s) @ [user_message now (trim (chat_input (shown s)))]
    \<and> chat_input (shown s') = [] \<and> chat_status (shown s') = Chat_opened
    \<and> conns (sse s') (next_conn (sse s)) = Fetching"
  unfolding step_generate [OF assms(1,2)] generate_new [OF assms(4,5,3,6)]
  using start_generation_sel(6) [of _ "s\<lparr>cur := (cur s)\<lparr>chat_input := []\<rparr>\<rparr>"]
  by (simp add: Let_def render_def chat_simps)

definition sample_typed :: chat_sys where
  "sample_typed = chat_run init_chat_sys [Cluster (JStr ''available'') (JStr ''m''), Set_input '' hi '']"

theorem chat_generate_new_witness:
  "let s' = chat_step sample_typed (Generate (Num 5 0) None) in
    chat_messages (shown s') = [user_message (Num 5 0) ''hi''] \<and> conns (sse s') 0 = Fetching"
proof -
  have "chat_reachable sample_typed"
    unfolding sample_typed_def by (intro reachable_run chat_start)
  moreover have "\<not> chat_crashed (shown sample_typed)" "\<not> chat_busy (shown sample_typed)"
    "cluster_status sample_typed = JStr ''available''" "truthy (cluster_model sample_typed)"
    "trim (chat_input (shown sample_typed)) = ''hi''" "chat_messages (shown sample_typed) = []"
    "next_conn (sse sample_typed) = 0"
    by code_simp+
  ultimately show ?thesis using chat_generate_new [of sample_typed "Num 5 0"] by (simp add: Let_def)
qed

text \<open>C19: Regenerating from a message cuts the history at it, keeping it when it is the user's, and sends
  what is left as a new request.\<close>

theorem chat_regenerate:
  assumes "chat_reachable s" "\<not> chat_crashed (shown s)" "\<not> chat_busy (shown s)"
    and "cluster_status s = JStr ''available''" "truthy (cluster_model s)"
    and "chat_messages (shown s) = before @ x # after" "msg_id x = msg_id m"
    and "\<forall>y \<in> set before. msg_id y \<noteq> msg_id m"
  shows "let s' = chat_step s (Generate now (Some m));
             kept = before @ (if msg_role x = Role_user then [x] else [])
    in chat_messages (shown s') = kept \<and> kept \<noteq> [] \<and> chat_input (shown s') = chat_input (shown s)
      \<and> chat_status (shown s') = Chat_opened
      \<and> requests s' = requests s @ [(cluster_model s, map to_request kept)]"
proof -
  have cur: "shown s = cur s" by (rule idle_shown [OF assms(1,3)])
  have "before = [] \<Longrightarrow> msg_role x = Role_user"
    using reachable_history [OF assms(1)] assms(6) cur by (auto simp: history_inv_def)
  then show ?thesis
    unfolding step_generate [OF assms(1,2)] generate_again [OF assms(4,5,3,6,7,8)]
    by (auto simp: Let_def render_def chat_simps cur)
qed

definition sample_stopped :: chat_sys where
  "sample_stopped = chat_step sample_fetching Stop"

lemma sample_stopped_facts:
  "chat_reachable sample_stopped" "chat_crashed (shown sample_stopped) = False"
  "chat_busy (shown sample_stopped) = False" "cluster_status sample_stopped = JStr ''available''"
  "cluster_model sample_stopped = JStr ''m''"
  "requests sample_stopped = [(JStr ''m'', [(JStr ''5'', Role_user, ''hi'')])]"
  "chat_messages (shown sample_stopped) = [user_message (Num 5 0) ''hi'']"
proof -
  show "chat_reachable sample_stopped"
    unfolding sample_stopped_def by (rule chat_next [OF sample_reachable(1)])
qed code_simp+

theorem chat_regenerate_witness:
  "let s' = chat_step sample_stopped (Generate (Num 9 0) (Some (user_message (Num 5 0) ''hi'')))
   in chat_messages (shown s') = [user_message (Num 5 0) ''hi'']
     \<and> requests s' = [(JStr ''m'', [(JStr ''5'', Role_user, ''hi'')]), (JStr ''m'', [(JStr ''5'', Role_user, ''hi'')])]"
proof -
  have "to_request (user_message (Num 5 0) ''hi'') = (JStr ''5'', Role_user, ''hi'')"
    "msg_role (user_message (Num 5 0) ''hi'') = Role_user" by code_simp+
  then show ?thesis
    using chat_regenerate [of sample_stopped "[]" "user_message (Num 5 0) ''hi''" "[]"
        "user_message (Num 5 0) ''hi''" "Num 9 0"] sample_stopped_facts
    by (simp add: Let_def)
qed

text \<open>C20: Stopping a live request always ends it at once, but the status shown depends on the moment: a
  reply being read closes the chat, a request whose response has not arrived ends in the error
  status, because the string \<open>'stop'\<close> given to \<open>abort\<close> is not an \<open>AbortError\<close>.  Either way the last
  message is done and no request is live.\<close>

theorem chat_stop_ends:
  assumes "chat_reachable s" "\<not> chat_crashed (shown s)" "live (sse s) c"
  shows "let s' = chat_step s Stop in
    chat_status (shown s') = (if conns (sse s) c = Fetching then Chat_error else Chat_closed)
    \<and> (\<forall>d. \<not> live (sse s') d)
    \<and> chat_messages (shown s') = butlast (chat_messages (cur s)) @
        [last (chat_messages (cur s))\<lparr>msg_status := Msg_done\<rparr>]"
proof -
  have ok: "sse_ok chat_busy (sse s, cur s)"
    using reachable_facts(1) [OF assms(1)] by (simp add: client_ok_def)
  have "chat_busy (cur s)" using sse_ok_busy [OF ok] assms(3) by blast
  then have ne: "chat_messages (cur s) \<noteq> []"
    using reachable_history [OF assms(1)] by (simp add: history_inv_def)
  have sh: "shown (chat_step s Stop) = cur (chat_step s Stop)"
    using assms(2) by (simp add: ui_event_running render_def)
  have closed: "chat_messages (chat_on_close d) = butlast (chat_messages d) @
      [last (chat_messages d)\<lparr>msg_status := Msg_done\<rparr>]"
    "chat_messages (chat_on_error e d) = butlast (chat_messages d) @
      [last (chat_messages d)\<lparr>msg_status := Msg_done\<rparr>]" if "chat_messages d \<noteq> []" for d e
    using that by (simp_all add: chat_on_close_def chat_on_error_def chat_simps set_messages_def
        mark_last_done_def last_opt_def)
  have ne': "chat_messages (chat_on_close (cur s)) \<noteq> []" using closed(1) [OF ne] by simp
  have idle: "\<not> chat_busy (cur (chat_step s Stop))"
    unfolding step_stop [OF assms] using chat_client.close_idle chat_client.error_idle
    by (simp add: chat_simps)
  moreover have "chat_inv (chat_step s Stop)"
    using assms(1) by (intro chat_inv_step chat_reachable_inv)
  ultimately have "\<not> live (sse (chat_step s Stop)) d" for d
    using chat_client.idle_no_live by (simp add: chat_inv_def live_def)
  then show ?thesis
    unfolding Let_def sh step_stop [OF assms] using closed ne ne'
    by (simp add: chat_on_close_def chat_on_error_def chat_simps)
qed

theorem chat_stop_ends_witness:
  "chat_status (shown (chat_step sample_fetching Stop)) = Chat_error
   \<and> chat_status (shown (chat_step sample_reading Stop)) = Chat_closed"
  using chat_stop_ends [of sample_fetching 0] chat_stop_ends [of sample_reading 0]
    sample_reachable sample_phases by (simp add: Let_def live_def)

text \<open>C18: Whatever the network does, and when the user stops, the history is only extended: every message
  but the last keeps its text, and every message keeps its id, role and time.\<close>

theorem chat_history_extended:
  assumes "case ev of Net e \<Rightarrow> True | Stop \<Rightarrow> True | _ \<Rightarrow> False"
  shows "extends (chat_messages (cur s)) (chat_messages (cur (chat_step s ev)))"
proof (cases ev)
  case (Net e)
  have "chat_extends (cur s) (cur (settle (on_client (net_step chat_callbacks e) s)))"
    using settle_extends [of s "net_step chat_callbacks e"]
      chat_effect.net_step_rel [of "(sse s, cur s)" e] by simp
  with Net show ?thesis by (simp add: chat_extends_def)
next
  case Stop
  have "chat_extends (cur s) (cur (settle (stop s)))"
  proof (cases "chat_status (shown s) = Chat_closed \<or> chat_status (shown s) = Chat_error")
    case True
    then show ?thesis
      using settle_extends [of s id] chat_effect.rel_refl by (simp add: stop_def on_client_id)
  next
    case False
    then show ?thesis
      using settle_extends [of s "disconnect chat_callbacks"]
        chat_effect.disconnect_rel [of "(sse s, cur s)"] by (simp add: stop_def)
  qed
  with Stop show ?thesis
    by (simp add: chat_extends_def ui_event_def render_def extends_refl)
qed (use assms in simp_all)

theorem chat_history_extended_witness:
  "extends (chat_messages (cur sample_fetching)) (chat_messages (cur (chat_step sample_fetching Stop)))
   \<and> extends (chat_messages (cur sample_fetching)) (chat_messages (cur sample_reading))"
  unfolding sample_reading_def
  using chat_history_extended [of Stop sample_fetching]
    chat_history_extended [of "Net (Response 0 200 (Some ''text/event-stream'') True)" sample_fetching]
  by simp

end
