(* ===== verification/Chat_Stream.thy ===== *)
theory Chat_Stream
  imports Chat_History
begin

text \<open>
  The chat from the bytes of a reply to the message shown: the chunks of a stream may be cut
  anywhere, and the message holds the concatenated deltas, split into thinking and content.
\<close>

section \<open>A line of data\<close>

definition data_line :: "jsval \<Rightarrow> string" where
  "data_line v = ''data: '' @ stringify v"

lemma index_of_data: "index_of (''data:'' @ x) '':'' = 4"
  by (simp add: index_of_def)

lemma trim_space_Cons: "is_space c \<Longrightarrow> trim (c # s) = trim s"
  by (simp add: trim_def)

lemma apply_data_line:
  assumes "json_wf v" "v = JObj kvs"
  shows "apply_line (data_line v) m = Some (m\<lparr>ev_data := walk v\<rparr>)" "plain_line (data_line v)"
    and "line_data (data_line v) = Some (walk v)"
proof -
  have "trimmed (stringify v)" by (simp add: assms(2) trimmed_def is_space_def)
  then have val: "trim (drop 5 (data_line v)) = stringify v"
    using trim_space_Cons [of "CHR '' ''" "stringify v"] trim_trimmed_id
    by (simp add: data_line_def is_space_def)
  have ix: "index_of (data_line v) '':'' = 4" using index_of_data by (simp add: data_line_def)
  have fld: "trim (take 4 (data_line v)) = ''data''" by (simp add: data_line_def, code_simp)
  have np: "\<not> prefix '':'' (stringify v)" by (simp add: assms(2))
  show "apply_line (data_line v) m = Some (m\<lparr>ev_data := walk v\<rparr>)" for m
    using json_parse_stringify [OF assms(1)] ix fld val np by (simp add: apply_line_def Let_def)
  then show "line_data (data_line v) = Some (walk v)" by (simp add: line_data_def)
  show "plain_line (data_line v)" using ix fld by (simp add: plain_line_def Let_def)
qed

lemma data_line_no_newline: "newline \<notin> set (data_line v)"
  using stringify_no_newline(1) by (simp add: data_line_def)

section \<open>A reply\<close>

text \<open>The chunks of a reply in the form the server sends them, one data line and an empty line each.\<close>

definition delta_chunk :: "string \<Rightarrow> number \<Rightarrow> string \<Rightarrow> string \<Rightarrow> jsval" where
  "delta_chunk i created model d =
     JObj [(''id'', JStr i), (''object'', JStr ''chat.completion.chunk''), (''model'', JStr model),
       (''created'', JNum created),
       (''choices'', JArr [JObj [(''index'', JNum (Num 0 0)), (''finish_reason'', JNull),
          (''delta'', JObj [(''role'', JNull), (''content'', JStr d)])]]),
       (''usage'', JNull)]"

definition reply_text :: "(string \<Rightarrow> jsval) \<Rightarrow> string list \<Rightarrow> string" where
  "reply_text chunk ds = concat (map (\<lambda>d. data_line (chunk d) @ [newline, newline]) ds)"

definition reply_lines :: "(string \<Rightarrow> jsval) \<Rightarrow> string list \<Rightarrow> string list" where
  "reply_lines chunk ds = concat (map (\<lambda>d. [data_line (chunk d), []]) ds)"

lemma reply_text_lines: "reply_text chunk ds = lines_text (reply_lines chunk ds)"
  by (induction ds) (simp_all add: reply_text_def reply_lines_def lines_text_def)

lemma reply_lines_no_newline: "\<forall>l \<in> set (reply_lines chunk ds). newline \<notin> set l"
  by (induction ds) (auto simp: reply_lines_def data_line_no_newline)

lemma empty_line: "plain_line []" "line_data [] = None"
  by code_simp+

lemma delta_chunk_wf: "normal_number created \<Longrightarrow> json_wf (delta_chunk i created model d)"
  by (simp add: delta_chunk_def)

lemma delta_line:
  assumes "normal_number created"
  shows "plain_line (data_line (delta_chunk i created model d))"
    and "line_data (data_line (delta_chunk i created model d)) = Some (walk (delta_chunk i created model d))"
  using apply_data_line [OF delta_chunk_wf [OF assms, of i model d] delta_chunk_def] by blast+

lemma reply_lines_data:
  assumes "normal_number created"
  shows "lines_data (reply_lines (delta_chunk i created model) ds)
      = map (\<lambda>d. walk (delta_chunk i created model d)) ds"
    and "\<forall>l \<in> set (reply_lines (delta_chunk i created model) ds). plain_line l"
  by (induction ds) (simp_all add: reply_lines_def delta_line [OF assms] empty_line)

text \<open>The message of the assistant after the deltas received so far.\<close>

definition reply_message :: "string \<Rightarrow> number \<Rightarrow> string \<Rightarrow> string \<Rightarrow> chat_message" where
  "reply_message i created model raw =
     (let (thinking, content) = split_generation model raw in
      \<lparr>msg_id = JStr i, msg_role = Role_assistant,
       msg_status = (if content \<noteq> [] then Msg_generating else Msg_thinking),
       msg_content = content, msg_raw = Some raw, msg_thinking = Some thinking,
       msg_created = JNum created\<rparr>)"

definition with_reply :: "string \<Rightarrow> number \<Rightarrow> string \<Rightarrow> chat_state \<Rightarrow> string \<Rightarrow> chat_state" where
  "with_reply i created model s raw =
     (if raw = [] then s
      else s\<lparr>chat_status := Chat_generating,
             chat_messages := chat_messages s @ [reply_message i created model raw]\<rparr>)"

lemma parse_last_reply:
  "parse_last model (ms @ [\<lparr>msg_id = JStr i, msg_role = Role_assistant, msg_status = st,
      msg_content = c, msg_raw = Some raw, msg_thinking = th, msg_created = JNum created\<rparr>])
    = ms @ [reply_message i created model raw]"
  by (simp add: parse_last_def last_opt_def reply_message_def split: prod.split)

lemma receive_delta:
  assumes "d \<noteq> []" "\<And>u. last_opt ms = Some u \<Longrightarrow> msg_role u \<noteq> Role_assistant"
  shows "receive_choices (JStr i) (JNum created) (JStr model)
      (JArr [JObj [(''index'', JNum (Num 0 0)), (''delta'', JObj [(''content'', JStr d)])]])
      (if raw = [] then ms else ms @ [reply_message i created model raw])
    = Inr (ms @ [reply_message i created model (raw @ d)])"
proof (cases "raw = []")
  case True
  have "append_delta (JStr i) (JNum created) Role_assistant d ms = ms @ [\<lparr>msg_id = JStr i,
      msg_role = Role_assistant, msg_status = Msg_thinking, msg_content = d,
      msg_raw = Some d, msg_thinking = None, msg_created = JNum created\<rparr>]"
    using assms(2) by (cases "last_opt ms") (auto simp: append_delta_def last_opt_def split: if_splits)
  then show ?thesis using True assms(1) parse_last_reply
    by (simp add: receive_choices_def apply_choice_def js_or_def)
next
  case False
  obtain t c where sp: "split_generation model raw = (t, c)" by fastforce
  show ?thesis using False assms(1) parse_last_reply
    by (simp add: receive_choices_def apply_choice_def js_or_def append_delta_def last_opt_def
        reply_message_def [of i created model raw] sp)
qed

lemma walk_delta_chunk:
  "walk (delta_chunk i created model d) =
     JObj [(''id'', JStr i), (''object'', JStr ''chat.completion.chunk''), (''model'', JStr model),
       (''created'', JNum created),
       (''choices'', JArr [JObj [(''index'', JNum (Num 0 0)), (''delta'', JObj [(''content'', JStr d)])]])]"
  by (simp add: delta_chunk_def)

lemma message_delta:
  assumes "\<And>u. last_opt (chat_messages s) = Some u \<Longrightarrow> msg_role u \<noteq> Role_assistant"
  shows "chat_on_message (data_message (walk (delta_chunk i created model d)))
      (with_reply i created model s raw) = (with_reply i created model s (raw @ d), None)"
proof -
  let ?ch = "JArr [JObj [(''index'', JNum (Num 0 0)), (''delta'', JObj [(''content'', JStr d)])]]"
  let ?s = "with_reply i created model s raw"
  have "chat_on_message (data_message (walk (delta_chunk i created model d))) ?s =
      (set_messages (receive_choices (JStr i) (JNum created) (JStr model) ?ch)
         (if d \<noteq> [] then set_status Chat_generating ?s else ?s), None)"
    by (simp add: walk_delta_chunk chat_on_message_def data_message_def field_def Let_def)
  moreover have "set_messages (receive_choices (JStr i) (JNum created) (JStr model) ?ch)
         (if d \<noteq> [] then set_status Chat_generating ?s else ?s) = with_reply i created model s (raw @ d)"
  proof (cases "d = []")
    case True
    then show ?thesis by (simp add: set_messages_def receive_choices_def apply_choice_def)
  next
    case False
    have "chat_messages ?s =
        (if raw = [] then chat_messages s else chat_messages s @ [reply_message i created model raw])"
      by (simp add: with_reply_def)
    with receive_delta [of d "chat_messages s" i created model raw] assms False show ?thesis
      by (simp add: set_messages_def set_status_def with_reply_def)
  qed
  ultimately show ?thesis by simp
qed

lemma run_deltas:
  assumes "\<And>u. last_opt (chat_messages s) = Some u \<Longrightarrow> msg_role u \<noteq> Role_assistant"
  shows "run_data chat_on_message (map (\<lambda>d. walk (delta_chunk i created model d)) ds)
      (with_reply i created model s raw) = (with_reply i created model s (raw @ concat ds), None)"
proof (induction ds arbitrary: raw)
  case Nil
  then show ?case by simp
next
  case (Cons d ds)
  then show ?case using message_delta [OF assms] by simp
qed

text \<open>Chunks of one request as steps of the provider.\<close>

lemma chat_run_chunks:
  assumes "client_ok s"
  shows "chat_run s (map (\<lambda>t. Net (Chunk c t)) cs) = on_client (run_chunks chat_callbacks c cs) s"
  using assms
proof (induction cs arbitrary: s)
  case Nil
  then show ?case by (simp add: chat_run_def run_chunks_def on_client_def)
next
  case (Cons t cs)
  let ?s = "on_client (net_step chat_callbacks (Chunk c t)) s"
  have ok: "client_ok ?s" by (rule client_ok_net [OF Cons.prems])
  have "chat_step s (Net (Chunk c t)) = ?s" by (simp add: client_ok_settle [OF ok])
  moreover have "on_client (run_chunks chat_callbacks c cs) ?s = on_client (run_chunks chat_callbacks c (t # cs)) s"
    by (cases "net_step chat_callbacks (Chunk c t) (sse s, cur s)")
      (simp add: on_client_def run_chunks_def split: prod.split)
  ultimately show ?case using Cons.IH [OF ok] by (simp add: chat_run_def)
qed

lemma stream_chunks:
  assumes ok: "client_ok s" and rd: "conns (sse s) c = Reading []"
    and created: "normal_number created" and cs: "concat cs = reply_text (delta_chunk i created model) ds"
    and lst: "\<And>u. last_opt (chat_messages (cur s)) = Some u \<Longrightarrow> msg_role u \<noteq> Role_assistant"
  shows "chat_run s (map (\<lambda>t. Net (Chunk c t)) cs) =
    s\<lparr>cur := with_reply i created model (cur s) (concat ds)\<rparr>"
proof -
  let ?chunk = "delta_chunk i created model"
  have "feed_all sse_feed [] cs = (reply_lines ?chunk ds, [])"
    using sse_lines.feed_all_lines [of cs "reply_lines ?chunk ds" "[]"] cs
    by (simp add: reply_text_lines reply_lines_no_newline)
  moreover have "reader (sse s) = Some c"
    using sse_ok_reader [of chat_busy "sse s" "cur s" c] ok rd by (simp add: client_ok_def)
  moreover have "run_data (on_message chat_callbacks) (lines_data (reply_lines ?chunk ds)) (cur s)
      = (with_reply i created model (cur s) (concat ds), None)"
    using run_deltas [of "cur s" i created model ds "[]"] lst
    by (simp add: reply_lines_data [OF created] chat_simps with_reply_def)
  ultimately have "run_chunks chat_callbacks c cs (sse s, cur s) =
      ((sse s)\<lparr>conns := (conns (sse s))(c := Reading [])\<rparr>, with_reply i created model (cur s) (concat ds))"
    using run_chunks_data [where st = "sse s" and c = c and b = "[]" and cb = chat_callbacks and cs = cs] rd reply_lines_data(2) [OF created]
    by blast
  moreover have "(conns (sse s))(c := Reading []) = conns (sse s)" using rd by (rule fun_upd_idem)
  ultimately show ?thesis by (simp add: chat_run_chunks [OF ok] on_client_def)
qed

section \<open>Properties\<close>

lemma stream_reply:
  assumes "chat_reachable s" "conns (sse s) c = Reading []" "normal_number created"
    and "concat cs = reply_text (delta_chunk i created model) ds" "concat ds \<noteq> []"
    and "msg_role (last (chat_messages (cur s))) \<noteq> Role_assistant"
  shows "let s1 = chat_run s (map (\<lambda>t. Net (Chunk c t)) cs);
             s2 = chat_step s1 (Net (End_of_stream c));
             m = reply_message i created model (concat ds)
    in chat_messages (cur s1) = chat_messages (cur s) @ [m] \<and> chat_status (cur s1) = Chat_generating
      \<and> chat_messages (cur s2) = chat_messages (cur s) @ [m\<lparr>msg_status := Msg_done\<rparr>]
      \<and> chat_status (cur s2) = Chat_closed \<and> (\<forall>d. \<not> live (sse s2) d)"
proof -
  let ?s1 = "chat_run s (map (\<lambda>t. Net (Chunk c t)) cs)"
  let ?m = "reply_message i created model (concat ds)"
  have ok: "client_ok s" by (rule reachable_facts(1) [OF assms(1)])
  have "\<And>u. last_opt (chat_messages (cur s)) = Some u \<Longrightarrow> msg_role u \<noteq> Role_assistant"
    using assms(6) by (simp add: last_opt_def split: if_splits)
  from stream_chunks [OF ok assms(2,3,4) this]
  have s1: "?s1 = s\<lparr>cur := with_reply i created model (cur s) (concat ds)\<rparr>" .
  have reach: "chat_reachable (chat_step ?s1 (Net (End_of_stream c)))"
    by (intro chat_next reachable_run assms(1))
  have ok1: "client_ok ?s1" using reachable_facts(1) [OF reachable_run [OF assms(1)]] .
  have s2: "chat_step ?s1 (Net (End_of_stream c)) =
      s\<lparr>sse := finish c (sse s), cur := chat_on_close (cur ?s1)\<rparr>"
    using client_ok_settle [OF client_ok_net [OF ok1, of "End_of_stream c"]] assms(2)
    by (simp add: s1 on_client_def chat_simps)
  have cur2: "cur (chat_step ?s1 (Net (End_of_stream c))) = chat_on_close (cur ?s1)"
    unfolding s2 by simp
  then have "\<not> chat_busy (cur (chat_step ?s1 (Net (End_of_stream c))))"
    using chat_client.close_idle by (simp add: chat_simps)
  then have "\<not> live (sse (chat_step ?s1 (Net (End_of_stream c)))) d" for d
    using chat_client.idle_no_live reachable_facts(1) [OF reach] by (simp add: client_ok_def live_def)
  then show ?thesis
    unfolding Let_def cur2 using assms(5)
    by (simp add: s1 with_reply_def chat_on_close_def chat_simps set_messages_def mark_last_done_def
        last_opt_def)
qed

text \<open>C1: A reply streamed as data lines, its text cut into network chunks at arbitrary places, adds exactly one
  message: its raw text is the concatenation of the deltas, thinking and content are the model's
  split of that text; when the stream ends the message is done, the status is closed and no
  request is live.\<close>

theorem chat_stream_reply:
  assumes "chat_reachable s" "conns (sse s) c = Reading []" "normal_number created"
    and "concat cs = reply_text (delta_chunk i created model) ds" "concat ds \<noteq> []"
    and "msg_role (last (chat_messages (cur s))) \<noteq> Role_assistant"
  shows "let s1 = chat_run s (map (\<lambda>t. Net (Chunk c t)) cs);
             s2 = chat_step s1 (Net (End_of_stream c));
             m = reply_message i created model (concat ds)
    in chat_messages (cur s1) = chat_messages (cur s) @ [m] \<and> chat_status (cur s1) = Chat_generating
      \<and> chat_messages (cur s2) = chat_messages (cur s) @ [m\<lparr>msg_status := Msg_done\<rparr>]
      \<and> chat_status (cur s2) = Chat_closed \<and> (\<forall>d. \<not> live (sse s2) d)"
  by (rule stream_reply [OF assms])

theorem chat_stream_reply_witness:
  "let s1 = chat_run sample_reading (map (\<lambda>t. Net (Chunk 0 t))
        [take 9 (reply_text (delta_chunk ''r'' (Num 7 0) ''llama'') [''yo'', ''!'']),
         drop 9 (reply_text (delta_chunk ''r'' (Num 7 0) ''llama'') [''yo'', ''!''])])
   in map msg_content (chat_messages (cur s1)) = [''hi'', ''yo!'']
     \<and> map msg_role (chat_messages (cur s1)) = [Role_user, Role_assistant]"
proof -
  have m: "chat_messages (cur sample_reading) = [user_message (Num 5 0) ''hi'']" by code_simp
  have r: "reply_message ''r'' (Num 7 0) ''llama'' ''yo!'' =
    \<lparr>msg_id = JStr ''r'', msg_role = Role_assistant, msg_status = Msg_generating,
       msg_content = ''yo!'', msg_raw = Some ''yo!'', msg_thinking = Some [], msg_created = JNum (Num 7 0)\<rparr>"
    by code_simp
  show ?thesis
    using chat_stream_reply [of sample_reading 0 "Num 7 0"
        "[take 9 (reply_text (delta_chunk ''r'' (Num 7 0) ''llama'') [''yo'', ''!'']),
          drop 9 (reply_text (delta_chunk ''r'' (Num 7 0) ''llama'') [''yo'', ''!''])]"
        "''r''" "''llama''" "[''yo'', ''!'']"] sample_reachable(2) sample_phases(2)
    by (simp add: m r Let_def user_message_def normal_number.simps)
qed

text \<open>The updaters of the message list read the last message without checking that there is one, but
  in every reachable state they find it: the only event that can make the provider throw while
  rendering is a chunk received for the live request.\<close>

theorem chat_crash_only_by_chunk:
  assumes "chat_reachable s" "\<not> chat_crashed (cur s)" "chat_crashed (cur (chat_step s ev))"
  shows "\<exists>c t. ev = Net (Chunk c t) \<and> live (sse s) c"
proof -
  have ok: "client_ok s" and uf: "user_first (cur s)" and safe: "stop_safe s"
    using reachable_facts [OF assms(1)] by (auto simp: history_inv_user_first)
  have ui: "\<not> chat_crashed (cur (settle (h s))) \<Longrightarrow> \<not> chat_crashed (cur (ui_event h s))" for h
    using assms(2) by (simp add: ui_event_def render_def)
  have stopping: "\<not> chat_crashed (cur (settle (stop s)))"
  proof (cases "chat_busy (shown s)")
    case True
    with safe stop_not_crashing [OF ok uf] assms(2) show ?thesis by (simp add: stop_safe_def)
  qed (use assms(2) in \<open>simp add: stop_idle client_ok_settle [OF ok]\<close>)
  show ?thesis
  proof (cases ev)
    case (Set_input t)
    have "client_ok (s\<lparr>cur := (cur s)\<lparr>chat_input := t\<rparr>\<rparr>)" using ok by (rule client_ok_cur) simp
    with Set_input assms(2,3) ui [of "\<lambda>s. s\<lparr>cur := (cur s)\<lparr>chat_input := t\<rparr>\<rparr>"] show ?thesis
      by (simp add: client_ok_settle)
  next
    case (Generate now m)
    have "client_ok (generate now m s)"
      using client_ok_generate [OF ok] reachable_facts(2) [OF assms(1)] by blast
    with Generate assms(2,3) ui [of "generate now m"] show ?thesis
      by (simp add: client_ok_settle generate_not_crashing)
  next
    case Stop
    with stopping ui [of stop] assms(3) show ?thesis by simp
  next
    case Clear
    have "client_ok (s\<lparr>cur := (cur s)\<lparr>chat_messages := []\<rparr>\<rparr>)" using ok by (rule client_ok_cur) simp
    then have "\<not> chat_crashed (cur (settle (clear s)))"
      using stopping assms(2) by (simp add: clear_eq client_ok_settle)
    with Clear ui [of clear] assms(3) show ?thesis by simp
  next
    case (Net e)
    have eq: "chat_step s ev = on_client (net_step chat_callbacks e) s"
      using Net client_ok_settle [OF client_ok_net [OF ok]] by simp
    have busy: "chat_busy (cur s)"
      using assms(2,3) eq net_busy_mono [OF ok] by (cases "chat_busy (cur s)") simp_all
    then have "chat_messages (cur s) \<noteq> []" by (rule busy_nonempty [OF uf])
    then obtain c t where e: "e = Chunk c t"
      using net_not_crashing [of e "cur s" "sse s"] assms(2,3) eq
      by (cases e) (auto simp: on_client_cur)
    have "live (sse s) c"
      using assms(2,3) eq e by (cases "conns (sse s) c") (simp_all add: live_def on_client_cur)
    with Net e show ?thesis by blast
  qed (use assms in \<open>simp_all add: render_def\<close>)
qed

text \<open>A choice of \<open>null\<close>, which becomes \<open>undefined\<close>, throws in the updater.\<close>

definition bad_chunk :: jsval where
  "bad_chunk = JObj [(''object'', JStr ''chat.completion.chunk''),
     (''choices'', JArr [JObj [(''delta'', JObj [])], JNull])]"

lemma bad_chunk_line: "apply_line (data_line bad_chunk) new_message = Some (data_message (walk bad_chunk))"
  using apply_data_line(1) [OF _ bad_chunk_def, of new_message]
  by (simp add: bad_chunk_def data_message_def)

lemma bad_chunk_crashes:
  "chat_crashed (fst (chat_on_message (data_message (walk bad_chunk)) c))"
  by (simp add: bad_chunk_def chat_on_message_def data_message_def field_def Let_def set_messages_def
      receive_choices_def apply_choice_def)

theorem chat_crash_only_by_chunk_witness:
  "live (sse sample_reading) 0
   \<and> chat_crashed (cur (chat_step sample_reading (Net (Chunk 0 (data_line bad_chunk @ [newline])))))"
proof -
  let ?t = "data_line bad_chunk @ [newline]"
  have f: "sse_feed [] ?t = ([data_line bad_chunk], [])"
    using sse_lines.feed_line [of "[]" "data_line bad_chunk"] data_line_no_newline by simp
  have ok: "client_ok sample_reading" by (rule reachable_facts(1) [OF sample_reachable(2)])
  have r: "reader (sse sample_reading) = Some 0" by code_simp
  have nu: "walk bad_chunk \<noteq> JUndef" by (simp add: bad_chunk_def)
  obtain s' err where cb: "chat_on_message (data_message (walk bad_chunk)) (cur sample_reading) = (s', err)"
    by fastforce
  then have err: "err = None" "chat_crashed s'"
    using bad_chunk_crashes [of "cur sample_reading"]
    by (auto simp: bad_chunk_def chat_on_message_def data_message_def field_def Let_def)
  have "process_lines chat_on_message [data_line bad_chunk] new_message (cur sample_reading) = (s', None)"
    using bad_chunk_line cb err nu by (simp add: data_message_def)
  then have crash: "chat_crashed (cur (chat_step sample_reading (Net (Chunk 0 ?t))))"
    using client_ok_settle [OF client_ok_net [OF ok]] sample_phases(2) f r err
    by (simp add: on_client_cur on_chunk_def chat_simps)
  then show ?thesis
    using chat_crash_only_by_chunk [OF sample_reachable(2) _ crash] sample_phases(4) by simp
qed

end
