(* ===== verification/Http_Stream.thy ===== *)
theory Http_Stream
  imports Json_Roundtrip Line_Framing "HOL-Library.AList" "HOL-Library.Multiset"
begin

text \<open>
  \<open>createHttpStreamFactory\<close> of \<open>services/http-stream.ts\<close>: a client for newline-delimited JSON with
  a timeout for the response and automatic reconnection.  Every \<open>send\<close> starts a new promise chain
  (a loop), but all of them share the variables \<open>abortController\<close> and \<open>reader\<close>; a loop reads from
  whatever reader the variable holds at the moment of the call.  The model therefore keeps the
  streams, the loops and the queue of pending reads apart.

  Continuations that a handler makes runnable (a read settled by \<open>cancel\<close> or \<open>abort\<close>) are tasks,
  run before the next event.  Timers may fire in any order.
\<close>

section \<open>Options and state\<close>

datatype http_status = Connecting | Connected | Disconnected | Error_status

record http_common_options =
  opt_url :: string
  opt_method :: string
  opt_after_fetch :: "jsval \<Rightarrow> js_error + jsval"

record send_options =
  so_headers :: "(string \<times> string) list"
  so_data :: jsval
  so_body :: jsval

record 'o http_options =
  auto_reconnect :: bool
  auto_reconnect_interval :: nat
  on_status_change :: "http_status \<Rightarrow> 'o \<Rightarrow> js_error + 'o"
  on_http_message :: "jsval \<Rightarrow> 'o \<Rightarrow> 'o \<times> js_error option"
  on_http_error :: "js_error \<Rightarrow> 'o \<Rightarrow> 'o"

text \<open>The stream of the response body of a request, and the loop that the request started.\<close>

datatype stream = No_stream | Open_stream | Closed_stream | Errored_stream js_error

datatype loop = No_loop | Fetching_loop | Reading_loop string | Ended_loop

datatype timer = Reconnect_timer | Timeout_timer nat

datatype task = Read_done nat | Rejected nat js_error

record fetch_request =
  fr_url :: string
  fr_method :: string
  fr_headers :: "(string \<times> string) list"
  fr_body :: jsval

record http_state =
  hs_reader :: "nat option"
  hs_abort :: "nat option"
  hs_previous :: "send_options option"
  hs_streams :: "nat \<Rightarrow> stream"
  hs_loops :: "nat \<Rightarrow> loop"
  hs_next :: nat
  hs_reads :: "(nat \<times> nat) list"
  hs_tasks :: "task list"
  hs_timers :: "timer list"
  hs_fetches :: "fetch_request list"

definition init_http :: http_state where
  "init_http = \<lparr>hs_reader = None, hs_abort = None, hs_previous = None,
     hs_streams = (\<lambda>_. No_stream), hs_loops = (\<lambda>_. No_loop), hs_next = 0, hs_reads = [],
     hs_tasks = [], hs_timers = [], hs_fetches = []\<rparr>"

section \<open>Callbacks\<close>

text \<open>\<open>onStatusChange\<close>: the reconnect timer is set first; an exception of the callback is swallowed.\<close>

definition schedule_reconnect :: "'o http_options \<Rightarrow> http_status \<Rightarrow> http_state \<Rightarrow> http_state" where
  "schedule_reconnect opt status st =
     (if auto_reconnect opt \<and> (status = Disconnected \<or> status = Error_status)
      then st\<lparr>hs_timers := hs_timers st @ [Reconnect_timer]\<rparr> else st)"

definition status_change :: "'o http_options \<Rightarrow> http_status \<Rightarrow> http_state \<times> 'o \<Rightarrow> http_state \<times> 'o" where
  "status_change opt status = (\<lambda>(st, s).
     (schedule_reconnect opt status st,
      case on_status_change opt status s of Inr s' \<Rightarrow> s' | Inl e \<Rightarrow> s))"

text \<open>\<open>onMessage\<close>: an exception of the callback is swallowed, its effects stay.\<close>

definition deliver :: "'o http_options \<Rightarrow> jsval \<Rightarrow> 'o \<Rightarrow> 'o" where
  "deliver opt message s = fst (on_http_message opt message s)"

text \<open>The body of \<open>lines.forEach\<close>: a line that cannot be parsed or processed is skipped.\<close>

definition handle_line ::
    "http_common_options \<Rightarrow> 'o http_options \<Rightarrow> string \<Rightarrow> 'o \<Rightarrow> 'o" where
  "handle_line com opt line s =
     (case bind_sum (json_parse line) (opt_after_fetch com) of
        Inr message \<Rightarrow> deliver opt message s
      | Inl e \<Rightarrow> s)"

definition http_feed :: "string \<Rightarrow> string \<Rightarrow> string list \<times> string" where
  "http_feed buffer chunk =
     (let parts = split_lines (buffer @ chunk) in (butlast parts, last parts))"

section \<open>Settling reads\<close>

text \<open>All pending reads of a stream settle, in the order of the calls.\<close>

definition settle_reads :: "nat \<Rightarrow> (nat \<Rightarrow> task) \<Rightarrow> http_state \<Rightarrow> http_state" where
  "settle_reads r f st = st\<lparr>hs_reads := filter (\<lambda>(r', l). r' \<noteq> r) (hs_reads st),
     hs_tasks := hs_tasks st @ map (\<lambda>(r', l). f l) (filter (\<lambda>(r', l). r' = r) (hs_reads st))\<rparr>"

text \<open>\<open>reader.cancel()\<close> closes an open stream; on an errored one it rejects.\<close>

definition cancel :: "nat \<Rightarrow> http_state \<Rightarrow> http_state" where
  "cancel r st = (case hs_streams st r of
     Open_stream \<Rightarrow> settle_reads r Read_done (st\<lparr>hs_streams := (hs_streams st)(r := Closed_stream)\<rparr>)
   | _ \<Rightarrow> st)"

fun is_errored :: "stream \<Rightarrow> bool" where
  "is_errored (Errored_stream e) = True"
| "is_errored s = False"

text \<open>\<open>cleanupReader\<close>: the variable is only unset when \<open>cancel\<close> does not reject.\<close>

definition cleanup_reader :: "http_state \<Rightarrow> http_state" where
  "cleanup_reader st = (case hs_reader st of
     None \<Rightarrow> st
   | Some r \<Rightarrow> if is_errored (hs_streams st r) then st else (cancel r st)\<lparr>hs_reader := None\<rparr>)"

text \<open>Aborting the controller of a request rejects its pending \<open>fetch\<close> or breaks its stream.\<close>

definition fail_request :: "nat \<Rightarrow> js_error \<Rightarrow> http_state \<Rightarrow> http_state" where
  "fail_request c e st =
     (if hs_loops st c = Fetching_loop then st\<lparr>hs_tasks := hs_tasks st @ [Rejected c e]\<rparr>
      else if hs_streams st c = Open_stream then
        settle_reads c (\<lambda>l. Rejected l e) (st\<lparr>hs_streams := (hs_streams st)(c := Errored_stream e)\<rparr>)
      else st)"

definition abort_controller_signal :: "http_state \<Rightarrow> http_state" where
  "abort_controller_signal st = (case hs_abort st of
     None \<Rightarrow> st | Some c \<Rightarrow> fail_request c AbortError st)"

definition clear_timeout :: "nat \<Rightarrow> http_state \<Rightarrow> http_state" where
  "clear_timeout c st = st\<lparr>hs_timers := filter (\<lambda>t. t \<noteq> Timeout_timer c) (hs_timers st)\<rparr>"

section \<open>The promise chain\<close>

text \<open>The \<open>finally\<close> of the chain; it ends the loop.\<close>

definition finally_loop :: "nat \<Rightarrow> http_state \<Rightarrow> http_state" where
  "finally_loop l st =
     (cleanup_reader (clear_timeout l (st\<lparr>hs_loops := (hs_loops st)(l := Ended_loop)\<rparr>)))\<lparr>hs_abort := None\<rparr>"

text \<open>The continuation of a settled read or of a rejected fetch.\<close>

fun run_task :: "'o http_options \<Rightarrow> task \<Rightarrow> http_state \<times> 'o \<Rightarrow> http_state \<times> 'o" where
  "run_task opt (Read_done l) (st, s) =
     (let (st', s') = status_change opt Disconnected (cleanup_reader st, s)
      in (finally_loop l st', s'))"
| "run_task opt (Rejected l e) (st, s) =
     (let (st', s') = status_change opt Error_status (cleanup_reader (clear_timeout l st), s)
      in (finally_loop l st', on_http_error opt e s'))"

definition pending :: "http_state \<Rightarrow> nat" where
  "pending st = length (hs_reads st) + length (hs_tasks st)"

text \<open>\<open>reader.read()\<close> in the loop, on the shared variable.\<close>

definition next_read :: "nat \<Rightarrow> http_state \<Rightarrow> http_state" where
  "next_read l st = (case hs_reader st of
     None \<Rightarrow> st\<lparr>hs_tasks := hs_tasks st @ [Rejected l TypeError]\<rparr>
   | Some r \<Rightarrow>
       (case hs_streams st r of
          Open_stream \<Rightarrow> st\<lparr>hs_reads := hs_reads st @ [(r, l)]\<rparr>
        | Errored_stream e \<Rightarrow> st\<lparr>hs_tasks := hs_tasks st @ [Rejected l e]\<rparr>
        | _ \<Rightarrow> st\<lparr>hs_tasks := hs_tasks st @ [Read_done l]\<rparr>))"

section \<open>Draining the tasks\<close>

lemma settle_reads_pending: "pending (settle_reads r f st) = pending st"
proof -
  have "length (filter (\<lambda>(r', l). r' \<noteq> r) xs) + length (filter (\<lambda>(r', l). r' = r) xs) = length xs" for xs
    by (induction xs) auto
  then show ?thesis by (simp add: pending_def settle_reads_def add.commute add.left_commute)
qed

lemma pending_update [simp]:
  "pending (st\<lparr>hs_timers := a\<rparr>) = pending st" "pending (st\<lparr>hs_loops := b\<rparr>) = pending st"
  "pending (st\<lparr>hs_streams := c\<rparr>) = pending st" "pending (st\<lparr>hs_reader := d\<rparr>) = pending st"
  "pending (st\<lparr>hs_abort := f\<rparr>) = pending st"
  by (simp_all add: pending_def)

lemma cancel_pending: "pending (cancel r st) = pending st"
  by (simp add: cancel_def settle_reads_pending split: stream.split)

lemma cleanup_pending: "pending (cleanup_reader st) = pending st"
  by (simp add: cleanup_reader_def cancel_pending split: option.split)

lemma schedule_pending: "pending (schedule_reconnect opt status st) = pending st"
  by (simp add: schedule_reconnect_def)

lemma clear_timeout_pending: "pending (clear_timeout l st) = pending st"
  by (simp add: clear_timeout_def)

lemma finally_pending: "pending (finally_loop l st) = pending st"
  by (simp add: finally_loop_def cleanup_pending clear_timeout_pending)

text \<open>The client's own state does not depend on the callbacks.\<close>

lemma fst_status_change [http_simps]:
  "fst (status_change opt status x) = schedule_reconnect opt status (fst x)"
  by (simp add: status_change_def split: prod.split)

lemma fst_run_task [http_simps]:
  "fst (run_task opt (Read_done l) x) =
     finally_loop l (schedule_reconnect opt Disconnected (cleanup_reader (fst x)))"
  "fst (run_task opt (Rejected l e) x) =
     finally_loop l (schedule_reconnect opt Error_status (cleanup_reader (clear_timeout l (fst x))))"
  by (cases x; simp add: status_change_def)+

lemma run_task_pending: "pending (fst (run_task opt t x)) = pending (fst x)"
  by (cases t) (simp_all add: http_simps finally_pending schedule_pending cleanup_pending
      clear_timeout_pending)

function run_tasks :: "'o http_options \<Rightarrow> http_state \<times> 'o \<Rightarrow> http_state \<times> 'o" where
  "run_tasks opt (st, s) =
     (case hs_tasks st of
        [] \<Rightarrow> (st, s)
      | t # ts \<Rightarrow> run_tasks opt (run_task opt t (st\<lparr>hs_tasks := ts\<rparr>, s)))"
  by pat_completeness auto
termination
proof (relation "measure (\<lambda>(opt, x). pending (fst x))")
  fix opt :: "'o http_options" and st :: http_state and s t ts
  assume "hs_tasks st = t # ts"
  then have "pending (st\<lparr>hs_tasks := ts\<rparr>) < pending st" by (simp add: pending_def)
  then show "((opt, run_task opt t (st\<lparr>hs_tasks := ts\<rparr>, s)), (opt, (st, s)))
      \<in> measure (\<lambda>(opt, x). pending (fst x))"
    using run_task_pending [of opt t "(st\<lparr>hs_tasks := ts\<rparr>, s)"] by simp
qed simp

declare run_tasks.simps [simp del]

section \<open>Operations and events\<close>

text \<open>The arguments of \<open>fetch\<close>; the caller's headers override the default one.\<close>

definition fetch_args :: "http_common_options \<Rightarrow> send_options option \<Rightarrow> fetch_request" where
  "fetch_args com options =
     (let headers = (case options of Some so \<Rightarrow> so_headers so | None \<Rightarrow> []);
          data = (case options of Some so \<Rightarrow> so_data so | None \<Rightarrow> JUndef);
          body = (case options of Some so \<Rightarrow> so_body so | None \<Rightarrow> JUndef)
      in \<lparr>fr_url = opt_url com, fr_method = opt_method com,
          fr_headers = fold (\<lambda>(k, v). AList.update k v) headers [(''Content-Type'', ''application/json'')],
          fr_body = (if truthy data then JStr (stringify data) else js_or data body)\<rparr>)"

text \<open>\<open>data?.type === 'queue_info'\<close>\<close>

definition is_queue_info :: "send_options option \<Rightarrow> bool" where
  "is_queue_info options =
     (case options of
        None \<Rightarrow> False
      | Some so \<Rightarrow> get_prop (so_data so) ''type'' = Inr (JStr ''queue_info''))"

definition timeout_ms :: "send_options option \<Rightarrow> nat" where
  "timeout_ms options = (if is_queue_info options then 0 else 5000)"

definition send :: "http_common_options \<Rightarrow> 'o http_options \<Rightarrow> send_options option
    \<Rightarrow> http_state \<times> 'o \<Rightarrow> http_state \<times> 'o" where
  "send com opt options = (\<lambda>(st, s).
     let (st1, s1) = status_change opt Connecting (st\<lparr>hs_previous := options\<rparr>, s);
         c = hs_next st1
     in (st1\<lparr>hs_abort := Some c,
             hs_timers := (if timeout_ms options > 0 then hs_timers st1 @ [Timeout_timer c]
                           else hs_timers st1),
             hs_loops := (hs_loops st1)(c := Fetching_loop),
             hs_next := Suc c,
             hs_fetches := hs_fetches st1 @ [fetch_args com options]\<rparr>, s1))"

definition abort :: "'o http_options \<Rightarrow> http_state \<times> 'o \<Rightarrow> http_state \<times> 'o" where
  "abort opt = (\<lambda>(st, s).
     let st1 = (abort_controller_signal st)\<lparr>hs_abort := None\<rparr>;
         st2 = (case hs_reader st1 of None \<Rightarrow> st1 | Some r \<Rightarrow> cancel r st1)
     in status_change opt Disconnected (st2\<lparr>hs_reader := None\<rparr>, s))"

definition on_http_response :: "'o http_options \<Rightarrow> nat \<Rightarrow> int \<Rightarrow> string option \<Rightarrow> bool
    \<Rightarrow> http_state \<times> 'o \<Rightarrow> http_state \<times> 'o" where
  "on_http_response opt c status ctype has_body = (\<lambda>(st0, s).
     let st = clear_timeout c st0 in
     if status \<noteq> 200 \<or> ctype \<noteq> Some ''application/x-ndjson'' then
       (let (st', s') = status_change opt Error_status (st, s) in (finally_loop c st', s'))
     else if \<not> has_body then
       (let (st', s') = status_change opt Error_status (st\<lparr>hs_reader := None\<rparr>, s)
        in (finally_loop c st', s'))
     else
       (let (st', s') = status_change opt Connected
              (st\<lparr>hs_reader := Some c, hs_streams := (hs_streams st)(c := Open_stream),
                  hs_loops := (hs_loops st)(c := Reading_loop [])\<rparr>, s)
        in (next_read c st', s')))"

definition on_http_chunk :: "http_common_options \<Rightarrow> 'o http_options \<Rightarrow> nat \<Rightarrow> string \<Rightarrow> string
    \<Rightarrow> http_state \<times> 'o \<Rightarrow> http_state \<times> 'o" where
  "on_http_chunk com opt l buffer chunk = (\<lambda>(st, s).
     let (ls, rest) = http_feed buffer chunk
     in (next_read l (st\<lparr>hs_loops := (hs_loops st)(l := Reading_loop rest)\<rparr>),
         fold (handle_line com opt) ls s))"

definition on_timer :: "http_common_options \<Rightarrow> 'o http_options \<Rightarrow> timer
    \<Rightarrow> http_state \<times> 'o \<Rightarrow> http_state \<times> 'o" where
  "on_timer com opt t = (\<lambda>(st, s).
     (case t of
        Reconnect_timer \<Rightarrow> send com opt (hs_previous st) (st, s)
      | Timeout_timer c \<Rightarrow>
          (let (st', s') = status_change opt Error_status (abort_controller_signal st, s)
           in (st', on_http_error opt
                 (ErrorMsg ''The request timed out. Please try again later.'') s'))))"

datatype http_event =
    Send "send_options option"
  | Abort
  | Http_response nat int "string option" bool
  | Http_chunk nat string
  | Http_end nat
  | Http_fail nat js_error
  | Fire nat

fun first_read :: "nat \<Rightarrow> (nat \<times> nat) list \<Rightarrow> nat option" where
  "first_read r [] = None"
| "first_read r ((r', l) # rs) = (if r' = r then Some l else first_read r rs)"

text \<open>
  An event.  A chunk of a stream goes to the first pending read of it; an event that cannot happen in
  the state changes nothing.
\<close>

fun handle_event :: "http_common_options \<Rightarrow> 'o http_options \<Rightarrow> http_event
    \<Rightarrow> http_state \<times> 'o \<Rightarrow> http_state \<times> 'o" where
  "handle_event com opt (Send options) x = send com opt options x"
| "handle_event com opt Abort x = abort opt x"
| "handle_event com opt (Http_response c status ctype has_body) (st, s) =
     (if hs_loops st c = Fetching_loop then on_http_response opt c status ctype has_body (st, s)
      else (st, s))"
| "handle_event com opt (Http_chunk r chunk) (st, s) =
     (case first_read r (hs_reads st) of
        None \<Rightarrow> (st, s)
      | Some l \<Rightarrow>
          (case hs_loops st l of
             Reading_loop b \<Rightarrow>
               on_http_chunk com opt l b chunk (st\<lparr>hs_reads := remove1 (r, l) (hs_reads st)\<rparr>, s)
           | _ \<Rightarrow> (st, s)))"
| "handle_event com opt (Http_end r) (st, s) = (cancel r st, s)"
| "handle_event com opt (Http_fail c e) (st, s) = (fail_request c e st, s)"
| "handle_event com opt (Fire k) (st, s) =
     (if k < length (hs_timers st)
      then on_timer com opt (hs_timers st ! k)
             (st\<lparr>hs_timers := take k (hs_timers st) @ drop (Suc k) (hs_timers st)\<rparr>, s)
      else (st, s))"

definition http_step :: "http_common_options \<Rightarrow> 'o http_options \<Rightarrow> http_state \<times> 'o \<Rightarrow> http_event
    \<Rightarrow> http_state \<times> 'o" where
  "http_step com opt x ev = run_tasks opt (handle_event com opt ev x)"

definition http_run :: "http_common_options \<Rightarrow> 'o http_options \<Rightarrow> http_state \<times> 'o \<Rightarrow> http_event list
    \<Rightarrow> http_state \<times> 'o" where
  "http_run com opt = foldl (http_step com opt)"

section \<open>Well-formed states\<close>

text \<open>
  Every loop that has not ended waits for its response, has exactly one pending read, or is among the
  tasks; \<open>running\<close> lists the loops whose continuation is executing.
\<close>

fun task_loop :: "task \<Rightarrow> nat" where
  "task_loop (Read_done l) = l"
| "task_loop (Rejected l e) = l"

fun live_loop :: "loop \<Rightarrow> bool" where
  "live_loop Fetching_loop = True"
| "live_loop (Reading_loop b) = True"
| "live_loop p = False"

fun reading_loop :: "loop \<Rightarrow> bool" where
  "reading_loop (Reading_loop b) = True"
| "reading_loop p = False"

lemma reading_live: "reading_loop p \<Longrightarrow> live_loop p"
  by (cases p) auto

definition engaged :: "nat list \<Rightarrow> http_state \<Rightarrow> nat list" where
  "engaged running st = running @ map snd (hs_reads st) @ map task_loop (hs_tasks st)"

definition loops_wf :: "nat list \<Rightarrow> http_state \<Rightarrow> bool" where
  "loops_wf running st =
     (distinct (engaged running st)
      \<and> (\<forall>l \<in> set (engaged running st). live_loop (hs_loops st l))
      \<and> (\<forall>l. reading_loop (hs_loops st l) \<longrightarrow> l \<in> set (engaged running st))
      \<and> (\<forall>l \<in> snd ` set (hs_reads st). reading_loop (hs_loops st l)))"

definition table_wf :: "http_state \<Rightarrow> bool" where
  "table_wf st = ((\<forall>l. hs_next st \<le> l \<longrightarrow> hs_loops st l = No_loop)
     \<and> (\<forall>c. Timeout_timer c \<in> set (hs_timers st) \<longrightarrow> hs_loops st c = Fetching_loop))"

definition http_wf :: "nat list \<Rightarrow> http_state \<Rightarrow> bool" where
  "http_wf running st = (loops_wf running st \<and> table_wf st)"

text \<open>What the client has going: loops that have not ended, and reconnections that are scheduled.\<close>

definition weight :: "http_state \<Rightarrow> nat" where
  "weight st = card {l. live_loop (hs_loops st l)} + count_list (hs_timers st) Reconnect_timer"

lemma live_less: "table_wf st \<Longrightarrow> live_loop (hs_loops st l) \<Longrightarrow> l < hs_next st"
  by (cases "l < hs_next st") (simp_all add: table_wf_def)

lemma live_finite: "table_wf st \<Longrightarrow> finite {l. live_loop (hs_loops st l)}"
proof -
  assume "table_wf st"
  then have "{l. live_loop (hs_loops st l)} \<subseteq> {..<hs_next st}" using live_less by auto
  then show ?thesis using finite_subset by blast
qed

text \<open>Operations that only move pending reads to the tasks.\<close>

lemma settle_engaged:
  assumes "\<And>l. task_loop (f l) = l"
  shows "mset (engaged running (settle_reads r f st)) = mset (engaged running st)"
proof -
  have "mset (map snd xs) = mset (map snd (filter (\<lambda>(r', l). r' \<noteq> r) xs))
      + mset (map (task_loop \<circ> (\<lambda>(r', l). f l)) (filter (\<lambda>(r', l). r' = r) xs))" for xs
    using assms by (induction xs) auto
  from this [of "hs_reads st"] show ?thesis by (simp add: engaged_def settle_reads_def)
qed

lemma http_wf_cong:
  assumes "mset (engaged running st') = mset (engaged running st)"
    and "snd ` set (hs_reads st') \<subseteq> snd ` set (hs_reads st)"
    and "hs_loops st' = hs_loops st" "hs_next st' = hs_next st" "hs_timers st' = hs_timers st"
    and "http_wf running st"
  shows "http_wf running st'"
proof -
  have "set (engaged running st') = set (engaged running st)"
    "distinct (engaged running st') = distinct (engaged running st)"
    using assms(1) mset_eq_setD mset_eq_imp_distinct_iff by blast+
  moreover have "\<forall>l \<in> snd ` set (hs_reads st'). reading_loop (hs_loops st l)"
    using assms(2,6) by (simp only: http_wf_def loops_wf_def) blast
  ultimately show ?thesis using assms(3-6) by (simp add: http_wf_def loops_wf_def table_wf_def)
qed

definition same_loops :: "http_state \<Rightarrow> http_state \<Rightarrow> bool" where
  "same_loops st st' = (hs_loops st' = hs_loops st \<and> hs_next st' = hs_next st
     \<and> hs_timers st' = hs_timers st \<and> snd ` set (hs_reads st') \<subseteq> snd ` set (hs_reads st)
     \<and> (\<forall>running. mset (engaged running st') = mset (engaged running st)))"

lemma same_loops_wf: "same_loops st st' \<Longrightarrow> http_wf running st \<Longrightarrow> http_wf running st'"
  using http_wf_cong by (simp add: same_loops_def)

lemma same_loops_weight: "same_loops st st' \<Longrightarrow> weight st' = weight st"
  by (simp add: same_loops_def weight_def)

lemma settle_same:
  "(\<And>l. task_loop (f l) = l) \<Longrightarrow> same_loops st (settle_reads r f (st\<lparr>hs_streams := g\<rparr>))"
  using settle_engaged [of f _ r "st\<lparr>hs_streams := g\<rparr>"]
  by (auto simp: same_loops_def settle_reads_def engaged_def)

lemma cancel_same: "same_loops st (cancel r st)"
  using settle_same [of Read_done st r] by (simp add: cancel_def same_loops_def split: stream.split)

lemma same_loops_reader: "same_loops st st' \<Longrightarrow> same_loops st (st'\<lparr>hs_reader := x\<rparr>)"
  by (simp add: same_loops_def engaged_def)

lemma cleanup_same: "same_loops st (cleanup_reader st)"
  using cancel_same same_loops_reader
  by (simp add: cleanup_reader_def same_loops_def split: option.split)

lemma schedule_wf [http_simps]: "http_wf running (schedule_reconnect opt status st) = http_wf running st"
  by (simp add: schedule_reconnect_def http_wf_def loops_wf_def table_wf_def engaged_def)

lemma schedule_weight:
  "auto_reconnect opt \<Longrightarrow> weight (schedule_reconnect opt status st) =
     weight st + (if status = Disconnected \<or> status = Error_status then 1 else 0)"
  by (simp add: schedule_reconnect_def weight_def)

lemma clear_timeout_wf: "http_wf running st \<Longrightarrow> http_wf running (clear_timeout l st)"
  by (simp add: clear_timeout_def http_wf_def loops_wf_def table_wf_def engaged_def)

lemma count_clear: "count_list (filter (\<lambda>t. t \<noteq> Timeout_timer l) ts) Reconnect_timer = count_list ts Reconnect_timer"
  by (induction ts) auto

lemma clear_timeout_weight: "weight (clear_timeout l st) = weight st"
  by (simp add: clear_timeout_def weight_def count_clear)

text \<open>The running loop ends.\<close>

definition end_loop :: "nat \<Rightarrow> http_state \<Rightarrow> http_state" where
  "end_loop l st = clear_timeout l (st\<lparr>hs_loops := (hs_loops st)(l := Ended_loop)\<rparr>)"

lemma end_loop_wf:
  assumes "http_wf [l] st"
  shows "http_wf [] (end_loop l st)"
proof -
  have "live_loop (hs_loops st l)" "l \<notin> set (engaged [] st)"
    using assms by (auto simp: http_wf_def loops_wf_def engaged_def)
  moreover have "l < hs_next st" using live_less calculation assms by (simp add: http_wf_def)
  ultimately show ?thesis
    using assms
    by (auto simp: http_wf_def loops_wf_def table_wf_def engaged_def end_loop_def clear_timeout_def)
qed

lemma end_loop_weight:
  assumes "http_wf [l] st"
  shows "weight st = Suc (weight (end_loop l st))"
proof -
  let ?live = "{k. live_loop (hs_loops st k)}"
  have "l \<in> ?live" using assms by (simp add: http_wf_def loops_wf_def engaged_def)
  moreover have "finite ?live" using live_finite assms by (simp add: http_wf_def)
  moreover have "{k. live_loop (((hs_loops st)(l := Ended_loop)) k)} = ?live - {l}" by auto
  ultimately show ?thesis
    using card.remove [of ?live l] clear_timeout_weight [of l "st\<lparr>hs_loops := (hs_loops st)(l := Ended_loop)\<rparr>"]
    by (simp add: weight_def end_loop_def)
qed

lemma abort_var [http_simps]:
  "http_wf running (st\<lparr>hs_abort := x\<rparr>) = http_wf running st" "weight (st\<lparr>hs_abort := x\<rparr>) = weight st"
  by (simp_all add: http_wf_def loops_wf_def table_wf_def engaged_def weight_def)

lemma finally_wf: "http_wf [l] st \<Longrightarrow> http_wf [] (finally_loop l st)"
  using same_loops_wf [OF cleanup_same end_loop_wf, of l st]
  by (simp add: finally_loop_def end_loop_def http_simps)

lemma finally_weight: "http_wf [l] st \<Longrightarrow> weight st = Suc (weight (finally_loop l st))"
  using same_loops_weight [OF cleanup_same, of "end_loop l st"] end_loop_weight [of l st]
  by (simp add: finally_loop_def end_loop_def http_simps)

lemma run_task_wf:
  assumes "http_wf [task_loop t] (fst x)"
  shows "http_wf [] (fst (run_task opt t x))"
    and "auto_reconnect opt \<Longrightarrow> weight (fst (run_task opt t x)) = weight (fst x)"
proof -
  have clean: "http_wf [l] (cleanup_reader st)" "weight (cleanup_reader st) = weight st"
    if "http_wf [l] st" for l st
    using that same_loops_wf [OF cleanup_same] same_loops_weight [OF cleanup_same] by blast+
  show "http_wf [] (fst (run_task opt t x))"
    using assms clean clear_timeout_wf
    by (cases t) (simp_all add: http_simps finally_wf)
  assume ar: "auto_reconnect opt"
  show "weight (fst (run_task opt t x)) = weight (fst x)"
  proof (cases t)
    case (Read_done l)
    let ?st = "schedule_reconnect opt Disconnected (cleanup_reader (fst x))"
    have "http_wf [l] ?st" using assms clean Read_done by (simp add: http_simps)
    from finally_weight [OF this] show ?thesis
      using Read_done clean assms ar by (simp add: http_simps schedule_weight)
  next
    case (Rejected l e)
    let ?st = "schedule_reconnect opt Error_status (cleanup_reader (clear_timeout l (fst x)))"
    have c: "http_wf [l] (clear_timeout l (fst x))" using assms Rejected clear_timeout_wf by simp
    then have "http_wf [l] ?st" using clean by (simp add: http_simps)
    from finally_weight [OF this] show ?thesis
      using Rejected clean(2) [OF c] ar by (simp add: http_simps schedule_weight clear_timeout_weight)
  qed
qed

lemma next_task_wf:
  "http_wf [] st \<Longrightarrow> hs_tasks st = t # ts \<Longrightarrow> http_wf [task_loop t] (st\<lparr>hs_tasks := ts\<rparr>)"
  by (auto simp: http_wf_def loops_wf_def table_wf_def engaged_def)

lemma run_tasks_wf:
  "http_wf [] (fst x) \<Longrightarrow> http_wf [] (fst (run_tasks opt x)) \<and> hs_tasks (fst (run_tasks opt x)) = []
     \<and> (auto_reconnect opt \<longrightarrow> weight (fst (run_tasks opt x)) = weight (fst x))"
proof (induction opt x rule: run_tasks.induct)
  case (1 opt st s)
  show ?case
  proof (cases "hs_tasks st")
    case Nil
    then show ?thesis using 1 by (simp add: run_tasks.simps [of opt st s])
  next
    case (Cons t ts)
    have w: "http_wf [task_loop t] (fst (st\<lparr>hs_tasks := ts\<rparr>, s))"
      using next_task_wf [of st t ts] 1(2) Cons by simp
    have "weight (st\<lparr>hs_tasks := ts\<rparr>) = weight st" by (simp add: weight_def)
    then show ?thesis
      using 1(1) [OF Cons run_task_wf(1) [OF w]] run_task_wf(2) [OF w, of opt] Cons
      by (simp add: run_tasks.simps [of opt st s])
  qed
qed

text \<open>The events.\<close>

lemma weight_update [http_simps]:
  "weight (st\<lparr>hs_reads := a\<rparr>) = weight st" "weight (st\<lparr>hs_tasks := b\<rparr>) = weight st"
  "weight (st\<lparr>hs_reader := c\<rparr>) = weight st" "weight (st\<lparr>hs_streams := d\<rparr>) = weight st"
  by (simp_all add: weight_def)

lemma next_read_wf:
  assumes "http_wf [l] st" "reading_loop (hs_loops st l)"
  shows "http_wf [] (next_read l st)" "weight (next_read l st) = weight st"
proof -
  have t: "http_wf [] (st\<lparr>hs_tasks := hs_tasks st @ [t]\<rparr>)" if "task_loop t = l" for t
    using assms that by (auto simp: http_wf_def loops_wf_def table_wf_def engaged_def)
  have r: "http_wf [] (st\<lparr>hs_reads := hs_reads st @ [(r, l)]\<rparr>)" for r
    using assms by (auto simp: http_wf_def loops_wf_def table_wf_def engaged_def)
  show "http_wf [] (next_read l st)" "weight (next_read l st) = weight st"
    using t r by (simp_all add: next_read_def http_simps split: option.split stream.split)
qed

lemma fetching_free:
  assumes "http_wf [] st" "hs_tasks st = []" "hs_loops st c = Fetching_loop"
  shows "c \<notin> set (engaged [] st)" "http_wf [c] st"
proof -
  show "c \<notin> set (engaged [] st)"
    using assms by (fastforce simp: http_wf_def loops_wf_def engaged_def)
  then show "http_wf [c] st"
    using assms by (auto simp: http_wf_def loops_wf_def engaged_def)
qed

lemma fail_wf:
  assumes "http_wf [] st" "hs_tasks st = []"
  shows "http_wf [] (fail_request c e st)" "weight (fail_request c e st) = weight st"
proof -
  have "http_wf [] (fail_request c e st) \<and> weight (fail_request c e st) = weight st"
  proof (cases "hs_loops st c = Fetching_loop")
    case True
    have "http_wf [] (st\<lparr>hs_tasks := hs_tasks st @ [Rejected c e]\<rparr>)"
      using assms fetching_free [OF assms True] True
      by (auto simp: http_wf_def loops_wf_def table_wf_def engaged_def)
    with True show ?thesis by (simp add: fail_request_def http_simps)
  next
    case False
    have "same_loops st (settle_reads c (\<lambda>l. Rejected l e)
        (st\<lparr>hs_streams := (hs_streams st)(c := Errored_stream e)\<rparr>))"
      by (rule settle_same) simp
    with False assms same_loops_wf same_loops_weight show ?thesis
      by (simp add: fail_request_def)
  qed
  then show "http_wf [] (fail_request c e st)" "weight (fail_request c e st) = weight st" by blast+
qed

lemma signal_wf:
  assumes "http_wf [] st" "hs_tasks st = []"
  shows "http_wf [] (abort_controller_signal st)" "weight (abort_controller_signal st) = weight st"
  using fail_wf [OF assms] assms by (simp_all add: abort_controller_signal_def split: option.split)

definition new_loop :: "send_options option \<Rightarrow> http_state \<Rightarrow> http_state" where
  "new_loop options st = st\<lparr>hs_timers := (if timeout_ms options > 0 then hs_timers st @ [Timeout_timer (hs_next st)]
     else hs_timers st), hs_loops := (hs_loops st)(hs_next st := Fetching_loop), hs_next := Suc (hs_next st)\<rparr>"

lemma new_loop_wf:
  assumes "http_wf [] st" "hs_tasks st = []"
  shows "http_wf [] (new_loop options st)" "weight (new_loop options st) = Suc (weight st)"
proof -
  let ?c = "hs_next st" and ?live = "{k. live_loop (hs_loops st k)}"
  have none: "hs_loops st ?c = No_loop" using assms by (simp add: http_wf_def table_wf_def)
  have "?c \<notin> set (engaged [] st)"
    using assms none by (auto simp: http_wf_def loops_wf_def engaged_def)
  moreover have "\<forall>l\<in>set (engaged [] (new_loop options st)). l \<in> set (engaged [] st)"
    by (simp add: engaged_def new_loop_def)
  ultimately show "http_wf [] (new_loop options st)"
    using assms by (auto simp: http_wf_def loops_wf_def table_wf_def engaged_def new_loop_def)
  have "finite ?live" using live_finite assms(1) by (simp add: http_wf_def)
  moreover have "{k. live_loop (((hs_loops st)(?c := Fetching_loop)) k)} = insert ?c ?live" by auto
  moreover have "?c \<notin> ?live" using none by simp
  ultimately show "weight (new_loop options st) = Suc (weight st)"
    by (simp add: weight_def new_loop_def)
qed

lemma fst_send:
  "fst (send com opt options x) =
     (new_loop options ((fst x)\<lparr>hs_previous := options\<rparr>))\<lparr>hs_abort := Some (hs_next (fst x)),
        hs_fetches := hs_fetches (fst x) @ [fetch_args com options]\<rparr>"
  by (cases x) (simp add: send_def status_change_def schedule_reconnect_def new_loop_def Let_def)

lemma bookkeeping [http_simps]:
  "http_wf running (st\<lparr>hs_fetches := a\<rparr>) = http_wf running st" "weight (st\<lparr>hs_fetches := a\<rparr>) = weight st"
  "http_wf running (st\<lparr>hs_previous := b\<rparr>) = http_wf running st" "weight (st\<lparr>hs_previous := b\<rparr>) = weight st"
  "http_wf running (st\<lparr>hs_reader := r\<rparr>) = http_wf running st"
  "http_wf running (st\<lparr>hs_streams := ss\<rparr>) = http_wf running st"
  by (simp_all add: http_wf_def loops_wf_def table_wf_def engaged_def weight_def)

lemma send_wf:
  assumes "http_wf [] (fst x)" "hs_tasks (fst x) = []"
  shows "http_wf [] (fst (send com opt options x))"
    "weight (fst (send com opt options x)) = Suc (weight (fst x))"
  using new_loop_wf [of "(fst x)\<lparr>hs_previous := options\<rparr>" options] assms
  unfolding fst_send by (simp_all add: http_simps)

lemma response_wf:
  assumes "http_wf [] st0" "hs_tasks st0 = []" "hs_loops st0 c = Fetching_loop"
  shows "http_wf [] (fst (on_http_response opt c status ctype has_body (st0, s)))
    \<and> (auto_reconnect opt \<longrightarrow>
        weight (fst (on_http_response opt c status ctype has_body (st0, s))) = weight st0)"
proof -
  let ?st = "clear_timeout c st0"
  have st: "http_wf [c] ?st" "weight ?st = weight st0"
    using fetching_free(2) [OF assms] clear_timeout_wf clear_timeout_weight by blast+
  have err: "http_wf [] (finally_loop c (schedule_reconnect opt Error_status (st'))) \<and>
      (auto_reconnect opt \<longrightarrow> weight (finally_loop c (schedule_reconnect opt Error_status st')) = weight st0)"
    if "http_wf [c] st'" "weight st' = weight st0" for st'
    using that finally_wf [of c "schedule_reconnect opt Error_status st'"]
      finally_weight [of c "schedule_reconnect opt Error_status st'"]
    by (auto simp: http_simps schedule_weight)
  have fst_err: "fst (let (st', s') = status_change opt Error_status (st', s)
      in (finally_loop c st', f s')) = finally_loop c (schedule_reconnect opt Error_status st')" for st' f
    by (simp add: status_change_def)
  let ?open = "?st\<lparr>hs_reader := Some c, hs_streams := (hs_streams ?st)(c := Open_stream),
      hs_loops := (hs_loops ?st)(c := Reading_loop [])\<rparr>"
  have c: "c < hs_next st0" "live_loop (hs_loops st0 c)"
    using live_less assms by (simp_all add: http_wf_def)
  have live: "{k. live_loop (((hs_loops ?st)(c := Reading_loop [])) k)} = {k. live_loop (hs_loops ?st k)}"
    using c by (auto simp: clear_timeout_def)
  have "http_wf [c] ?open"
    using st(1) c fetching_free(1) [OF assms]
    by (auto simp: http_wf_def loops_wf_def table_wf_def engaged_def clear_timeout_def)
  moreover have "weight ?open = weight st0" using st(2) live by (simp add: weight_def)
  ultimately have ok: "http_wf [] (next_read c ?open)" "weight (next_read c ?open) = weight st0"
    using next_read_wf [of c ?open] by simp_all
  have fst_ok: "fst (let (st', s') = status_change opt Connected (?open, s)
      in (next_read c st', s')) = next_read c ?open"
    by (simp add: status_change_def schedule_reconnect_def)
  show ?thesis
    using err [OF st] err [of "?st\<lparr>hs_reader := None\<rparr>"] ok st fst_err [of _ id] fst_ok
    by (simp add: on_http_response_def Let_def http_simps del: clear_timeout_def)
qed

lemma first_read_in: "first_read r rs = Some l \<Longrightarrow> (r, l) \<in> set rs"
  by (induction rs) (auto split: if_splits)

lemma remove1_snd:
  "(r, l) \<in> set rs \<Longrightarrow> mset (map snd rs) = add_mset l (mset (map snd (remove1 (r, l) rs)))"
  by (induction rs) auto

lemma take_read:
  assumes "http_wf [] st" "(r, l) \<in> set (hs_reads st)"
  shows "http_wf [l] (st\<lparr>hs_reads := remove1 (r, l) (hs_reads st)\<rparr>)"
proof -
  have "mset (map snd (hs_reads st)) = add_mset l (mset (map snd (remove1 (r, l) (hs_reads st))))"
    by (rule remove1_snd [OF assms(2)])
  then have m: "mset (engaged [l] (st\<lparr>hs_reads := remove1 (r, l) (hs_reads st)\<rparr>)) = mset (engaged [] st)"
    by (simp add: engaged_def)
  then have "set (engaged [l] (st\<lparr>hs_reads := remove1 (r, l) (hs_reads st)\<rparr>)) = set (engaged [] st)"
    "distinct (engaged [l] (st\<lparr>hs_reads := remove1 (r, l) (hs_reads st)\<rparr>)) = distinct (engaged [] st)"
    using mset_eq_setD mset_eq_imp_distinct_iff by blast+
  moreover have "snd ` set (remove1 (r, l) (hs_reads st)) \<subseteq> snd ` set (hs_reads st)"
    using set_remove1_subset by fast
  moreover have "\<forall>k \<in> snd ` set (remove1 (r, l) (hs_reads st)). reading_loop (hs_loops st k)"
    using calculation(3) assms(1) by (simp only: http_wf_def loops_wf_def) blast
  ultimately show ?thesis
    using assms(1) by (simp add: http_wf_def loops_wf_def table_wf_def)
qed

lemma chunk_wf:
  assumes "http_wf [] st" "first_read r (hs_reads st) = Some l"
  shows "http_wf [] (fst (on_http_chunk com opt l b chunk
        (st\<lparr>hs_reads := remove1 (r, l) (hs_reads st)\<rparr>, s)))
    \<and> weight (fst (on_http_chunk com opt l b chunk
        (st\<lparr>hs_reads := remove1 (r, l) (hs_reads st)\<rparr>, s))) = weight st"
proof -
  obtain ls rest where f: "http_feed b chunk = (ls, rest)" by fastforce
  let ?st = "st\<lparr>hs_reads := remove1 (r, l) (hs_reads st), hs_loops := (hs_loops st)(l := Reading_loop rest)\<rparr>"
  have rl: "reading_loop (hs_loops st l)"
    using assms first_read_in [OF assms(2)] by (force simp: http_wf_def loops_wf_def)
  then have live: "{k. live_loop (((hs_loops st)(l := Reading_loop rest)) k)} = {k. live_loop (hs_loops st k)}"
    using reading_live by auto
  have "http_wf [l] ?st"
    using take_read [OF assms(1) first_read_in [OF assms(2)]] rl
    by (cases "hs_loops st l") (auto simp: http_wf_def loops_wf_def table_wf_def engaged_def)
  from next_read_wf [OF this] have "http_wf [] (next_read l ?st)" "weight (next_read l ?st) = weight ?st"
    by simp_all
  with f live show ?thesis by (simp add: on_http_chunk_def weight_def)
qed

text \<open>What an event adds to the client's weight.\<close>

fun gain :: "http_event \<Rightarrow> http_state \<Rightarrow> nat" where
  "gain (Send options) st = 1"
| "gain Abort st = 1"
| "gain (Fire k) st =
     (if k < length (hs_timers st) \<and> hs_timers st ! k \<noteq> Reconnect_timer then 1 else 0)"
| "gain ev st = 0"

lemma abort_wf:
  assumes "http_wf [] (fst x)" "hs_tasks (fst x) = []"
  shows "http_wf [] (fst (abort opt x))
    \<and> (auto_reconnect opt \<longrightarrow> weight (fst (abort opt x)) = Suc (weight (fst x)))"
proof (cases x)
  case (Pair st s)
  let ?st1 = "(abort_controller_signal st)\<lparr>hs_abort := None\<rparr>"
  let ?st2 = "case hs_reader ?st1 of None \<Rightarrow> ?st1 | Some r \<Rightarrow> cancel r ?st1"
  have s1: "http_wf [] ?st1" "weight ?st1 = weight st"
    using signal_wf assms Pair by (simp_all add: http_simps)
  then have "http_wf [] ?st2" "weight ?st2 = weight st"
    using same_loops_wf [OF cancel_same] same_loops_weight [OF cancel_same]
    by (simp_all split: option.split)
  then show ?thesis
    using Pair by (simp add: abort_def Let_def http_simps schedule_weight)
qed

lemma drop_timer:
  assumes "http_wf [] st" "k < length (hs_timers st)"
  shows "http_wf [] (st\<lparr>hs_timers := take k (hs_timers st) @ drop (Suc k) (hs_timers st)\<rparr>)"
    and "weight st = weight (st\<lparr>hs_timers := take k (hs_timers st) @ drop (Suc k) (hs_timers st)\<rparr>)
      + (if hs_timers st ! k = Reconnect_timer then 1 else 0)"
proof -
  let ?ts = "hs_timers st"
  have split: "?ts = take k ?ts @ ?ts ! k # drop (Suc k) ?ts" by (rule id_take_nth_drop [OF assms(2)])
  then have "set (take k ?ts @ drop (Suc k) ?ts) \<subseteq> set ?ts"
    by (metis Un_least set_append set_drop_subset set_take_subset)
  then show "http_wf [] (st\<lparr>hs_timers := take k ?ts @ drop (Suc k) ?ts\<rparr>)"
    using assms(1) by (auto simp: http_wf_def loops_wf_def table_wf_def engaged_def)
  have "count_list ?ts Reconnect_timer =
      count_list (take k ?ts @ ?ts ! k # drop (Suc k) ?ts) Reconnect_timer" using split by simp
  then show "weight st = weight (st\<lparr>hs_timers := take k ?ts @ drop (Suc k) ?ts\<rparr>)
      + (if ?ts ! k = Reconnect_timer then 1 else 0)"
    by (simp add: weight_def)
qed

lemma timer_wf:
  assumes "http_wf [] st" "hs_tasks st = []"
  shows "http_wf [] (fst (on_timer com opt t (st, s)))
    \<and> (auto_reconnect opt \<longrightarrow> weight (fst (on_timer com opt t (st, s))) = Suc (weight st))"
proof (cases t)
  case Reconnect_timer
  then show ?thesis using send_wf [of "(st, s)" com opt "hs_previous st"] assms
    by (simp add: on_timer_def)
next
  case (Timeout_timer c)
  have "fst (on_timer com opt t (st, s)) = schedule_reconnect opt Error_status (abort_controller_signal st)"
    using Timeout_timer by (simp add: on_timer_def status_change_def)
  then show ?thesis using signal_wf [OF assms] by (simp add: http_simps schedule_weight)
qed

lemma handle_wf:
  assumes "http_wf [] (fst x)" "hs_tasks (fst x) = []"
  shows "http_wf [] (fst (handle_event com opt ev x))
    \<and> (auto_reconnect opt \<longrightarrow> weight (fst (handle_event com opt ev x)) = weight (fst x) + gain ev (fst x))"
proof (cases x)
  case (Pair st s)
  note a = assms [unfolded Pair fst_conv]
  show ?thesis
  proof (cases ev)
    case (Send options)
    then show ?thesis using send_wf [OF assms] by simp
  next
    case Abort
    then show ?thesis using abort_wf [OF assms] by simp
  next
    case (Http_response c status ctype b)
    then show ?thesis using Pair a response_wf [OF a, of c opt status ctype b s] by simp
  next
    case (Http_chunk r t)
    then show ?thesis using Pair a
      by (simp add: chunk_wf [OF a(1)] split: option.split loop.split)
  next
    case (Http_end r)
    then show ?thesis
      using Pair a same_loops_wf [OF cancel_same] same_loops_weight [OF cancel_same] by simp
  next
    case (Http_fail c e)
    then show ?thesis using Pair fail_wf [OF a] by simp
  next
    case (Fire k)
    show ?thesis
    proof (cases "k < length (hs_timers st)")
      case True
      let ?st = "st\<lparr>hs_timers := take k (hs_timers st) @ drop (Suc k) (hs_timers st)\<rparr>"
      have "hs_tasks ?st = []" using a(2) by simp
      then show ?thesis
        using timer_wf [OF drop_timer(1) [OF a(1) True], of com opt "hs_timers st ! k" s]
          drop_timer(2) [OF a(1) True] True Fire Pair by auto
    qed (use a Fire Pair in simp)
  qed
qed

lemma step_wf:
  assumes "http_wf [] (fst x)" "hs_tasks (fst x) = []"
  shows "http_wf [] (fst (http_step com opt x ev)) \<and> hs_tasks (fst (http_step com opt x ev)) = []
    \<and> (auto_reconnect opt \<longrightarrow> weight (fst (http_step com opt x ev)) = weight (fst x) + gain ev (fst x))"
  using handle_wf [OF assms, of com opt ev] run_tasks_wf [of "handle_event com opt ev x" opt]
  by (auto simp: http_step_def)

inductive http_reachable :: "http_common_options \<Rightarrow> 'o http_options \<Rightarrow> http_state \<times> 'o \<Rightarrow> bool"
  for com opt where
  http_start: "http_reachable com opt (init_http, s)"
| http_next: "http_reachable com opt x \<Longrightarrow> http_reachable com opt (http_step com opt x ev)"

lemma http_reachable_wf:
  "http_reachable com opt x \<Longrightarrow> http_wf [] (fst x) \<and> hs_tasks (fst x) = []"
proof (induction rule: http_reachable.induct)
  case (http_start s)
  then show ?case
    by (simp add: init_http_def http_wf_def loops_wf_def table_wf_def engaged_def)
next
  case (http_next x ev)
  then show ?case using step_wf by blast
qed

lemma http_reachable_run: "http_reachable com opt x \<Longrightarrow> http_reachable com opt (http_run com opt x evs)"
proof (induction evs arbitrary: x)
  case (Cons ev evs)
  from Cons.IH [OF http_next [OF Cons.prems]] show ?case by (simp add: http_run_def)
qed (simp add: http_run_def)

section \<open>Owners\<close>

text \<open>
  What the client promises to the owner of its callbacks: a property of the owner's state that the
  callbacks for the status and for errors keep is kept by every event that brings no text.
\<close>

locale http_quiet =
  fixes opt :: "'o http_options" and inv :: "'o \<Rightarrow> bool"
  assumes status_inv: "inv s \<Longrightarrow> on_status_change opt status s = Inr s' \<Longrightarrow> inv s'"
    and error_inv: "inv s \<Longrightarrow> inv (on_http_error opt e s)"
begin

lemma notify_inv: "inv (snd x) \<Longrightarrow> inv (snd (status_change opt status x))"
  using status_inv by (cases x) (simp add: status_change_def split: sum.split)

lemma task_inv: "inv (snd x) \<Longrightarrow> inv (snd (run_task opt t x))"
proof (cases x; cases t)
  fix st s l
  assume "inv (snd x)" "x = (st, s)" "t = Read_done l"
  then show ?thesis using notify_inv [of "(cleanup_reader st, s)" Disconnected]
    by (cases "status_change opt Disconnected (cleanup_reader st, s)") simp
next
  fix st s l e
  assume "inv (snd x)" "x = (st, s)" "t = Rejected l e"
  then show ?thesis
    using notify_inv [of "(cleanup_reader (clear_timeout l st), s)" Error_status] error_inv
    by (cases "status_change opt Error_status (cleanup_reader (clear_timeout l st), s)") simp
qed

lemma tasks_inv: "inv (snd x) \<Longrightarrow> inv (snd (run_tasks opt x))"
proof (induction "pending (fst x)" arbitrary: x rule: less_induct)
  case less
  obtain st s where x: "x = (st, s)" by fastforce
  show ?case
  proof (cases "hs_tasks st")
    case Nil
    then show ?thesis using less.prems x by (simp add: run_tasks.simps [of opt st s])
  next
    case (Cons t ts)
    let ?y = "run_task opt t (st\<lparr>hs_tasks := ts\<rparr>, s)"
    have "pending (fst ?y) < pending (fst x)"
      using run_task_pending [of opt t "(st\<lparr>hs_tasks := ts\<rparr>, s)"] Cons x by (simp add: pending_def)
    moreover have "inv (snd ?y)" using less.prems x by (intro task_inv) simp
    ultimately have "inv (snd (run_tasks opt ?y))" by (rule less.hyps)
    then show ?thesis using Cons x by (simp add: run_tasks.simps [of opt st s])
  qed
qed

lemma send_inv: "inv (snd x) \<Longrightarrow> inv (snd (send com opt options x))"
proof (cases x)
  case (Pair st s)
  assume "inv (snd x)"
  with Pair show ?thesis using notify_inv [of "(st\<lparr>hs_previous := options\<rparr>, s)" Connecting]
    by (cases "status_change opt Connecting (st\<lparr>hs_previous := options\<rparr>, s)")
      (simp add: send_def Let_def)
qed

lemma response_inv:
  assumes "inv s"
  shows "inv (snd (on_http_response opt c status ctype has_body (st, s)))"
proof -
  have go: "inv (snd (case status_change opt v (st', s) of (st'', s') \<Rightarrow> (f st'', s')))" for v st' f
    using notify_inv [of "(st', s)" v] assms by (cases "status_change opt v (st', s)") simp
  show ?thesis by (simp add: on_http_response_def Let_def go)
qed

lemma timer_inv: "inv s \<Longrightarrow> inv (snd (on_timer com opt t (st, s)))"
proof (cases t)
  case (Timeout_timer c)
  assume "inv s"
  with Timeout_timer show ?thesis
    using notify_inv [of "(abort_controller_signal st, s)" Error_status] error_inv
    by (cases "status_change opt Error_status (abort_controller_signal st, s)")
      (simp add: on_timer_def)
qed (simp add: on_timer_def send_inv)

lemma abort_inv: "inv s \<Longrightarrow> inv (snd (abort opt (st, s)))"
  using notify_inv [of "(_, s)" Disconnected] by (simp add: abort_def Let_def)

lemma quiet_step:
  assumes "inv (snd x)" "\<forall>r t. ev \<noteq> Http_chunk r t"
  shows "inv (snd (http_step com opt x ev))"
proof -
  obtain st s where x: "x = (st, s)" by fastforce
  have "inv (snd (handle_event com opt ev x))"
    using assms x send_inv response_inv timer_inv abort_inv by (cases ev) simp_all
  then show ?thesis by (simp add: http_step_def tasks_inv)
qed

end

text \<open>
  A property that the callback for messages keeps as well is kept by every event.  Messages are what a
  line of the stream parses to.
\<close>

locale http_owner = http_quiet opt inv
  for com :: http_common_options and opt :: "'o http_options" and inv :: "'o \<Rightarrow> bool" +
  assumes message_inv: "bind_sum (json_parse line) (opt_after_fetch com) = Inr m \<Longrightarrow> inv s
      \<Longrightarrow> inv (fst (on_http_message opt m s))"
begin

lemma lines_inv: "inv s \<Longrightarrow> inv (fold (handle_line com opt) ls s)"
  using message_inv
  by (induction ls arbitrary: s) (auto simp: handle_line_def deliver_def split: sum.split)

lemma step_inv:
  assumes "inv (snd x)"
  shows "inv (snd (http_step com opt x ev))"
proof (cases "\<exists>r t. ev = Http_chunk r t")
  case True
  obtain st s where x: "x = (st, s)" by fastforce
  have "inv (snd (handle_event com opt ev x))"
    using True assms x lines_inv by (auto simp: on_http_chunk_def split: option.split loop.split prod.split)
  then show ?thesis by (simp add: http_step_def tasks_inv)
qed (use assms quiet_step in blast)

end

section \<open>Framing\<close>

interpretation http_lines: line_framing http_feed
proof unfold_locales
  fix b c d :: string
  show "http_feed b (c @ d) =
      (let (ls, b') = http_feed b c; (ms, b'') = http_feed b' d in (ls @ ms, b''))"
    using split_feed_append [of b c d] by (simp add: http_feed_def Let_def)
qed (auto simp: http_feed_def Let_def split_feed_laws simp flip: append_assoc)

text \<open>A client with one loop that reads its own stream.\<close>

definition solo :: "nat \<Rightarrow> string \<Rightarrow> http_state \<Rightarrow> bool" where
  "solo c b st = (hs_reads st = [(c, c)] \<and> hs_loops st c = Reading_loop b \<and> hs_reader st = Some c
     \<and> hs_streams st c = Open_stream \<and> hs_tasks st = [])"

lemma solo_chunk:
  assumes "solo c b st" "http_feed b t = (ls, b')"
  shows "\<exists>st'. http_step com opt (st, s) (Http_chunk c t) = (st', fold (handle_line com opt) ls s)
    \<and> solo c b' st'"
  using assms
  by (auto simp: http_step_def solo_def on_http_chunk_def next_read_def run_tasks.simps)

lemma solo_chunks:
  assumes "solo c b st" "feed_all http_feed b cs = (ls, b')"
  shows "\<exists>st'. http_run com opt (st, s) (map (Http_chunk c) cs) = (st', fold (handle_line com opt) ls s)
    \<and> solo c b' st'"
  using assms
proof (induction cs arbitrary: b st s ls)
  case Nil
  then show ?case by (simp add: http_run_def)
next
  case (Cons t cs)
  obtain l1 b1 where f1: "http_feed b t = (l1, b1)" by fastforce
  obtain l2 where f2: "feed_all http_feed b1 cs = (l2, b')" and ls: "ls = l1 @ l2"
    using Cons.prems(2) f1 by (auto split: prod.splits)
  obtain st1 where "http_step com opt (st, s) (Http_chunk c t) = (st1, fold (handle_line com opt) l1 s)"
    and so: "solo c b1 st1" using solo_chunk [OF Cons.prems(1) f1, of com opt s] by blast
  with Cons.IH [OF so f2, of "fold (handle_line com opt) l1 s"] show ?case
    by (auto simp: http_run_def ls)
qed

lemma message_line:
  assumes "solo c [] st" "json_wf m"
  shows "\<exists>st'. http_step com opt (st, s) (Http_chunk c (stringify m @ [newline])) =
      (st', case opt_after_fetch com m of Inr v \<Rightarrow> deliver opt v s | Inl e \<Rightarrow> s) \<and> solo c [] st'"
proof -
  have "http_feed [] (stringify m @ [newline]) = ([stringify m], [])"
    using http_lines.feed_line [of "[]" "stringify m"] stringify_no_newline(1) by simp
  from solo_chunk [OF assms(1) this, of com opt s] show ?thesis
    by (cases "opt_after_fetch com m") (simp_all add: handle_line_def json_parse_stringify [OF assms(2)])
qed

section \<open>Properties\<close>

text \<open>Options that record the messages, and the messages of whole lines.\<close>

definition http_recorder :: "jsval list http_options" where
  "http_recorder = \<lparr>auto_reconnect = True, auto_reconnect_interval = 2000,
     on_status_change = (\<lambda>status. Inr), on_http_message = (\<lambda>m s. (s @ [m], None)),
     on_http_error = (\<lambda>e s. s)\<rparr>"

definition plain_common :: http_common_options where
  "plain_common = \<lparr>opt_url = ''/cluster/status'', opt_method = ''GET'', opt_after_fetch = Inr\<rparr>"

abbreviation http_ok :: "nat \<Rightarrow> http_event" where
  "http_ok c \<equiv> Http_response c 200 (Some ''application/x-ndjson'') True"

fun messages_of :: "(jsval \<Rightarrow> js_error + jsval) \<Rightarrow> string list \<Rightarrow> jsval list" where
  "messages_of f [] = []"
| "messages_of f (l # ls) = (case bind_sum (json_parse l) f of
     Inr m \<Rightarrow> m # messages_of f ls | Inl e \<Rightarrow> messages_of f ls)"

lemma fold_handle_line: "fold (handle_line com opt) ls s = fold (deliver opt) (messages_of (opt_after_fetch com) ls) s"
proof (induction ls arbitrary: s)
  case (Cons l ls)
  then show ?case
    by (cases "bind_sum (json_parse l) (opt_after_fetch com)") (simp_all add: handle_line_def)
qed simp

text \<open>C3: With automatic reconnection the client never gives up: in every reachable state, each event other than
  \<open>send\<close>, \<open>abort\<close> and an expiring timeout keeps the number of running loops plus scheduled
  reconnections, and those three raise it by one.\<close>

theorem http_weight_step:
  assumes "http_reachable com opt x" "auto_reconnect opt"
  shows "weight (fst (http_step com opt x ev)) = weight (fst x) + gain ev (fst x)"
  using step_wf [of x com opt ev] http_reachable_wf [OF assms(1)] assms(2) by blast

theorem http_weight_step_witness:
  "weight (fst (http_step plain_common http_recorder (init_http, []) (Send None))) = 1"
proof -
  have "weight init_http = 0" by (simp add: weight_def init_http_def)
  then show ?thesis
    using http_weight_step [of plain_common http_recorder "(init_http, [])" "Send None"]
      http_start [of plain_common http_recorder "[]"] by (simp add: http_recorder_def)
qed

lemma weight_run_ge:
  assumes "http_reachable com opt x" "auto_reconnect opt"
  shows "weight (fst x) \<le> weight (fst (http_run com opt x evs))"
  using assms(1)
proof (induction evs arbitrary: x)
  case (Cons ev evs)
  have "weight (fst x) \<le> weight (fst (http_step com opt x ev))"
    using step_wf [of x com opt ev] http_reachable_wf [OF Cons.prems] assms(2) by simp
  also have "\<dots> \<le> weight (fst (http_run com opt (http_step com opt x ev) evs))"
    by (rule Cons.IH [OF http_next [OF Cons.prems]])
  finally show ?case by (simp add: http_run_def)
qed (simp add: http_run_def)

text \<open>C15: After one \<open>send\<close>, whatever happens, a loop is running or a reconnection is scheduled.\<close>

theorem http_never_gives_up:
  assumes "auto_reconnect opt"
  shows "let st = fst (http_run com opt (http_step com opt (init_http, s) (Send options)) evs)
    in (\<exists>l. live_loop (hs_loops st l)) \<or> Reconnect_timer \<in> set (hs_timers st)"
proof -
  have reach: "http_reachable com opt (http_step com opt (init_http, s) (Send options))"
    by (intro http_next http_start)
  let ?st = "fst (http_run com opt (http_step com opt (init_http, s) (Send options)) evs)"
  have "weight (fst (http_step com opt (init_http, s) (Send options))) = weight init_http + 1"
    using step_wf [of "(init_http, s)" com opt "Send options"] http_reachable_wf [OF http_start] assms
    by auto
  then have "0 < weight ?st" using weight_run_ge [OF reach assms, of evs] by simp
  then have "{l. live_loop (hs_loops ?st l)} \<noteq> {} \<or> count_list (hs_timers ?st) Reconnect_timer \<noteq> 0"
    by (auto simp: weight_def card_gt_0_iff)
  then show ?thesis by (auto simp: Let_def count_list_0_iff)
qed

theorem http_never_gives_up_witness:
  "let st = fst (http_run plain_common http_recorder
      (http_step plain_common http_recorder (init_http, []) (Send None)) [http_ok 0, Http_end 0])
   in (\<exists>l. live_loop (hs_loops st l)) \<or> Reconnect_timer \<in> set (hs_timers st)"
  by (rule http_never_gives_up) (simp add: http_recorder_def)

text \<open>A timeout timer is pending only while the response to its own request is outstanding.\<close>

lemma http_timeout_only_pending:
  assumes "http_reachable com opt x" "Timeout_timer c \<in> set (hs_timers (fst x))"
  shows "hs_loops (fst x) c = Fetching_loop"
  using http_reachable_wf [OF assms(1)] assms(2) by (simp add: http_wf_def table_wf_def)

text \<open>C24: A loop that alone reads its stream delivers exactly the parsable complete lines of the text, in
  order, however the text is cut into chunks.\<close>

theorem http_delivery:
  assumes "solo c [] st"
  shows "snd (http_run com opt (st, s) (map (Http_chunk c) cs)) =
    fold (deliver opt) (messages_of (opt_after_fetch com) (butlast (split_lines (concat cs)))) s"
proof -
  have "feed_all http_feed [] cs = (butlast (split_lines (concat cs)), last (split_lines (concat cs)))"
    using http_lines.feed_all_concat [of "[]" cs] by (simp add: http_feed_def Let_def)
  from solo_chunks [OF assms this, of com opt s] show ?thesis by (auto simp: fold_handle_line)
qed

definition http_reading :: http_state where
  "http_reading = fst (http_run plain_common http_recorder (init_http, []) [Send None, http_ok 0])"

theorem http_delivery_witness:
  "snd (http_run plain_common http_recorder (http_reading, [])
      (map (Http_chunk 0) [''1'', ''2'' @ newline # ''x'' @ newline # ''7'', [newline]]))
   = [JNum (Num 12 0), JNum (Num 7 0)]"
proof -
  let ?cs = "[''1'', ''2'' @ newline # ''x'' @ newline # ''7'', [newline]]"
  have "solo 0 [] http_reading" by code_simp
  from http_delivery [OF this, of plain_common http_recorder "[]" ?cs]
  have "snd (http_run plain_common http_recorder (http_reading, []) (map (Http_chunk 0) ?cs)) =
    fold (deliver http_recorder) (messages_of (opt_after_fetch plain_common)
      (butlast (split_lines (concat ?cs)))) []" .
  also have "\<dots> = [JNum (Num 12 0), JNum (Num 7 0)]" by code_simp
  finally show ?thesis .
qed

section \<open>Two requests on one variable\<close>

text \<open>A request without an answer, alone, whose timeout is running.\<close>

definition late :: "nat \<Rightarrow> http_state \<Rightarrow> bool" where
  "late c st = (hs_loops st c = Fetching_loop \<and> hs_abort st = Some c \<and> hs_timers st = [Timeout_timer c]
     \<and> hs_reads st = [] \<and> hs_tasks st = [] \<and> hs_reader st = None \<and> hs_next st = Suc c)"

text \<open>Two loops that take turns on one open stream.\<close>

definition sharing :: "nat \<Rightarrow> nat \<Rightarrow> nat \<Rightarrow> string \<Rightarrow> string \<Rightarrow> http_state \<Rightarrow> bool" where
  "sharing r a b u v st = (a \<noteq> b \<and> hs_reads st = [(r, a), (r, b)] \<and> hs_reader st = Some r
     \<and> hs_streams st r = Open_stream \<and> hs_tasks st = []
     \<and> hs_loops st a = Reading_loop u \<and> hs_loops st b = Reading_loop v)"

text \<open>The lines that come out when the chunks are dealt in turn to two buffers.\<close>

fun dealt :: "string \<Rightarrow> string \<Rightarrow> string list \<Rightarrow> string list" where
  "dealt u v [] = []"
| "dealt u v (t # ts) = fst (http_feed u t) @ dealt v (snd (http_feed u t)) ts"

lemma sharing_chunk:
  assumes "sharing r a b u v st"
  shows "sharing r b a v (snd (http_feed u t)) (fst (http_step com opt (st, s) (Http_chunk r t)))
    \<and> snd (http_step com opt (st, s) (Http_chunk r t)) = fold (handle_line com opt) (fst (http_feed u t)) s"
  using assms by (simp add: sharing_def http_step_def on_http_chunk_def next_read_def run_tasks.simps split: prod.split)

lemma sharing_chunks:
  assumes "sharing r a b u v st"
  shows "snd (http_run com opt (st, s) (map (Http_chunk r) ts)) = fold (handle_line com opt) (dealt u v ts) s"
  using assms
proof (induction ts arbitrary: a b u v st s)
  case (Cons t ts)
  obtain st' s' where x: "http_step com opt (st, s) (Http_chunk r t) = (st', s')" by fastforce
  with sharing_chunk [OF Cons.prems, of t com opt s] Cons.IH [of b a v "snd (http_feed u t)" st' s']
  show ?case by (simp add: http_run_def)
qed (simp add: http_run_def)

lemma late_timeout:
  assumes "late c st" "auto_reconnect opt"
  shows "let st' = fst (http_step com opt (st, s) (Fire 0)) in
    hs_timers st' = [Reconnect_timer, Reconnect_timer] \<and> hs_reads st' = [] \<and> hs_tasks st' = []
    \<and> hs_reader st' = None \<and> hs_next st' = Suc c"
  using assms
  by (simp add: late_def http_step_def on_timer_def abort_controller_signal_def fail_request_def status_change_def
      schedule_reconnect_def run_tasks.simps cleanup_reader_def clear_timeout_def finally_loop_def Let_def split: sum.split)

lemma fire_reconnect:
  assumes "hs_timers st = Reconnect_timer # ts" "hs_tasks st = []"
  shows "let st' = fst (http_step com opt (st, s) (Fire 0)) in
    (\<exists>us. hs_timers st' = ts @ us) \<and> hs_reads st' = hs_reads st \<and> hs_tasks st' = [] \<and> hs_reader st' = hs_reader st
    \<and> hs_next st' = Suc (hs_next st) \<and> hs_loops st' = (hs_loops st)(hs_next st := Fetching_loop)"
  using assms
  by (simp add: http_step_def on_timer_def send_def status_change_def schedule_reconnect_def run_tasks.simps Let_def
      split: sum.split)

lemma ok_reads:
  assumes "hs_loops st c = Fetching_loop" "hs_tasks st = []"
  shows "let st' = fst (http_step com opt (st, s) (http_ok c)) in
    hs_reads st' = hs_reads st @ [(c, c)] \<and> hs_tasks st' = [] \<and> hs_reader st' = Some c
    \<and> hs_streams st' = (hs_streams st)(c := Open_stream) \<and> hs_loops st' = (hs_loops st)(c := Reading_loop [])"
  using assms
  by (simp add: http_step_def on_http_response_def clear_timeout_def status_change_def schedule_reconnect_def
      next_read_def run_tasks.simps Let_def split: sum.split)

lemma older_chunk:
  assumes "hs_reads st = [(a, a), (r, r)]" "a \<noteq> r" "hs_reader st = Some r" "hs_streams st r = Open_stream"
    and "hs_tasks st = []" "hs_loops st a = Reading_loop []" "hs_loops st r = Reading_loop []"
  shows "sharing r r a [] (snd (http_feed [] t)) (fst (http_step com opt (st, s) (Http_chunk a t)))"
  using assms by (simp add: sharing_def http_step_def on_http_chunk_def next_read_def run_tasks.simps split: prod.split)

lemma two_requests:
  assumes "hs_timers st = [Reconnect_timer, Reconnect_timer]" "hs_reads st = []" "hs_tasks st = []" "hs_next st = n"
  shows "sharing (Suc n) (Suc n) n [] (snd (http_feed [] t))
    (fst (http_run com opt (st, s) [Fire 0, Fire 0, http_ok n, http_ok (Suc n), Http_chunk n t]))"
proof -
  obtain st1 s1 where x1: "http_step com opt (st, s) (Fire 0) = (st1, s1)" by fastforce
  obtain st2 s2 where x2: "http_step com opt (st1, s1) (Fire 0) = (st2, s2)" by fastforce
  obtain st3 s3 where x3: "http_step com opt (st2, s2) (http_ok n) = (st3, s3)" by fastforce
  obtain st4 s4 where x4: "http_step com opt (st3, s3) (http_ok (Suc n)) = (st4, s4)" by fastforce
  obtain us where f1: "hs_timers st1 = Reconnect_timer # us" "hs_reads st1 = []" "hs_tasks st1 = []" "hs_next st1 = Suc n"
    "hs_loops st1 = (hs_loops st)(n := Fetching_loop)"
    using fire_reconnect [OF assms(1,3), of com opt s] assms x1 by (auto simp: Let_def)
  have f2: "hs_reads st2 = []" "hs_tasks st2 = []"
    "hs_loops st2 = (hs_loops st)(n := Fetching_loop, Suc n := Fetching_loop)"
    using fire_reconnect [OF f1(1,3), of com opt s1] f1 x2 by (auto simp: Let_def)
  have f3: "hs_reads st3 = [(n, n)]" "hs_tasks st3 = []"
    "hs_loops st3 = (hs_loops st)(n := Reading_loop [], Suc n := Fetching_loop)"
    using ok_reads [of st2 n com opt s2] f2 x3 by (auto simp: Let_def)
  have "hs_reads st4 = [(n, n), (Suc n, Suc n)]" "hs_tasks st4 = []" "hs_reader st4 = Some (Suc n)"
    "hs_streams st4 (Suc n) = Open_stream" "hs_loops st4 n = Reading_loop []" "hs_loops st4 (Suc n) = Reading_loop []"
    using ok_reads [of st3 "Suc n" com opt s3] f3 x4 by (simp_all add: Let_def)
  from older_chunk [OF this(1) _ this(3,4,2,5,6), of t com opt s4] show ?thesis
    by (simp add: http_run_def x1 x2 x3 x4)
qed

text \<open>C25: A response that comes too late costs the stream its integrity.  From any state in which one request waits
  alone for its response, the expired timeout leaves two reconnections behind (its own status change and that
  of the rejected \<open>fetch\<close>), and the two requests that follow share the variable \<open>reader\<close>: from the first
  chunk of the older stream on, both loops read from the newer one.  Its chunks, however many and however cut,
  are dealt in turn to two buffers, so that what is delivered are not its lines, but those of every other
  chunk.\<close>

theorem http_timeout_corrupts:
  assumes "late c st" "auto_reconnect opt" "r = Suc (Suc c)"
  shows "let x = http_step com opt (st, s) (Fire 0);
      y = http_run com opt x [Fire 0, Fire 0, http_ok (Suc c), http_ok r, Http_chunk (Suc c) t];
      z = http_run com opt y (map (Http_chunk r) ts) in
    hs_timers (fst x) = [Reconnect_timer, Reconnect_timer] \<and> hs_reads (fst y) = [(r, r), (r, Suc c)]
    \<and> snd z = fold (handle_line com opt) (dealt [] (snd (http_feed [] t)) ts) (snd y)"
proof -
  obtain st1 s1 where x: "http_step com opt (st, s) (Fire 0) = (st1, s1)" by fastforce
  have f: "hs_timers st1 = [Reconnect_timer, Reconnect_timer]" "hs_reads st1 = []" "hs_tasks st1 = []" "hs_next st1 = Suc c"
    using late_timeout [OF assms(1,2), of com s] x by (simp_all add: Let_def)
  obtain st2 s2 where y: "http_run com opt (st1, s1) [Fire 0, Fire 0, http_ok (Suc c), http_ok r, Http_chunk (Suc c) t] = (st2, s2)"
    by fastforce
  have share: "sharing r r (Suc c) [] (snd (http_feed [] t)) st2"
    using two_requests [OF f, of t com opt s1] y assms(3) by simp
  then have "hs_reads st2 = [(r, r), (r, Suc c)]" by (simp add: sharing_def)
  then show ?thesis unfolding Let_def x y using f(1) sharing_chunks [OF share, of com opt s2 ts] by simp
qed

text \<open>The lines \<open>12\<close> and \<open>3\<close>, received in three chunks, come out as the messages \<open>2\<close> and \<open>13\<close>.\<close>

definition http_late :: http_state where
  "http_late = fst (http_step plain_common http_recorder (init_http, []) (Send None))"

theorem http_timeout_corrupts_witness:
  "let y = http_run plain_common http_recorder (http_late, [])
        [Fire 0, Fire 0, Fire 0, http_ok 1, http_ok 2, Http_chunk 1 [newline]];
      z = http_run plain_common http_recorder y
        (map (Http_chunk 2) [''1'', ''2'' @ [newline], ''3'' @ [newline]])
   in snd y = [] \<and> snd z = [JNum (Num 2 0), JNum (Num 13 0)]"
proof -
  let ?y = "http_run plain_common http_recorder (http_step plain_common http_recorder (http_late, []) (Fire 0))
      [Fire 0, Fire 0, http_ok 1, http_ok 2, Http_chunk 1 [newline]]"
  have "late 0 http_late" "snd ?y = []" by code_simp+
  moreover have "auto_reconnect http_recorder" by (simp add: http_recorder_def)
  moreover have "fold (handle_line plain_common http_recorder)
      (dealt [] (snd (http_feed [] [newline])) [''1'', ''2'' @ [newline], ''3'' @ [newline]]) [] =
    [JNum (Num 2 0), JNum (Num 13 0)]" by code_simp
  ultimately show ?thesis
    using http_timeout_corrupts [of 0 http_late http_recorder 2 plain_common "[]" "[newline]"
        "[''1'', ''2'' @ [newline], ''3'' @ [newline]]"]
    by (simp add: http_run_def Let_def)
qed

text \<open>\<open>abort\<close> does not stop a reconnecting client: aborting a request in flight schedules two
  reconnections, one for its own status change and one for the rejected \<open>fetch\<close>.\<close>

theorem http_abort_reconnects:
  "hs_timers (fst (http_run plain_common http_recorder (init_http, []) [Send None, Abort]))
     = [Reconnect_timer, Reconnect_timer]"
  by code_simp

end
