(* ===== verification/Api.thy ===== *)
theory Api
  imports Json_Roundtrip
begin

text \<open>
  \<open>services/api.ts\<close>: the calls to the backend.  The outcome of a call is the error with which
  \<open>fetch\<close> rejects or the text of the response body; the status code is not looked at.
\<close>

type_synonym response = "js_error + string"

text \<open>The common part of the calls: the body must be an object of the expected type.\<close>

definition typed_data :: "string \<Rightarrow> response \<Rightarrow> js_error + jsval" where
  "typed_data expected response =
     bind_sum response (\<lambda>body.
     bind_sum (json_parse body) (\<lambda>message.
     bind_sum (get_prop message ''type'') (\<lambda>t.
       if t \<noteq> JStr expected
       then Inl (ErrorMsg (''Invalid message type: '' @ js_to_string t @ ''.''))
       else get_prop message ''data'')))"

definition get_model_list :: "response \<Rightarrow> js_error + jsval" where
  "get_model_list = typed_data ''model_list''"

definition init_scheduler_params :: "jsval \<Rightarrow> int \<Rightarrow> bool \<Rightarrow> jsval" where
  "init_scheduler_params model_name init_nodes_num is_local_network =
     JObj [(''model_name'', model_name), (''init_nodes_num'', JNum (num_of_int init_nodes_num)),
           (''is_local_network'', JBool is_local_network)]"

definition init_scheduler :: "response \<Rightarrow> js_error + jsval" where
  "init_scheduler = typed_data ''scheduler_init''"

lemma typed_data_ok:
  assumes "json_wf data"
  shows "typed_data t (Inr (stringify (JObj [(''type'', JStr t), (''data'', data)]))) = Inr data"
  using assms by (simp add: typed_data_def json_parse_stringify del: stringify.simps)

lemma typed_data_wrong_type:
  assumes "json_wf data" "t \<noteq> u"
  shows "typed_data t (Inr (stringify (JObj [(''type'', JStr u), (''data'', data)]))) =
    Inl (ErrorMsg (''Invalid message type: '' @ u @ ''.''))"
  using assms by (simp add: typed_data_def json_parse_stringify del: stringify.simps)

text \<open>
  A call is taken as answered by every object of its type, whatever its status code and whether or not it
  has data: the backend reports a failed \<open>/scheduler/init\<close> as an object of the same type with \<open>error\<close>.
\<close>

lemma typed_data_accepts:
  assumes "json_wf v"
  shows "(\<exists>d. typed_data t (Inr (stringify v)) = Inr d) \<longleftrightarrow> get_prop v ''type'' = Inr (JStr t)"
proof (cases v)
  case (JObj kvs)
  then show ?thesis using json_parse_stringify [OF assms] by (simp add: typed_data_def del: stringify.simps)
qed (use json_parse_stringify [OF assms] in \<open>simp_all add: typed_data_def del: stringify.simps\<close>)

text \<open>A body of the expected type, printed by the server and read back, gives its data unchanged,
  for both calls; a body of another type is refused with its type in the message, and a body that
  is no JSON with a syntax error.\<close>

theorem api_answers_read:
  assumes "json_wf data" "other \<noteq> ''model_list''" "json_parse garbage = Inl SyntaxError"
  shows "get_model_list (Inr (stringify (JObj [(''type'', JStr ''model_list''), (''data'', data)]))) = Inr data
    \<and> init_scheduler (Inr (stringify (JObj [(''type'', JStr ''scheduler_init''), (''data'', data)]))) = Inr data
    \<and> get_model_list (Inr (stringify (JObj [(''type'', JStr other), (''data'', data)])))
        = Inl (ErrorMsg (''Invalid message type: '' @ other @ ''.''))
    \<and> get_model_list (Inr garbage) = Inl SyntaxError
    \<and> get_model_list (Inl e) = Inl e"
  using typed_data_ok[OF assms(1)] typed_data_wrong_type[OF assms(1), of "''model_list''" other] assms(2,3)
  by (simp add: get_model_list_def init_scheduler_def del: stringify.simps)
     (simp add: typed_data_def)

theorem api_answers_read_witness:
  "get_model_list (Inr (stringify (JObj [(''type'', JStr ''model_list''), (''data'', JArr [])]))) = Inr (JArr [])"
proof -
  have "json_wf (JArr [])" "json_parse ''{'' = Inl SyntaxError" by code_simp+
  then show ?thesis using api_answers_read[of "JArr []" "[]" "''{''"] by blast
qed

end
