(* ===== verification/React_Hooks.thy ===== *)
theory React_Hooks
  imports Js_Value
begin

text \<open>
  The hooks of \<open>hooks/\<close> and the host context of \<open>services/host.tsx\<close>.  A \<open>useRef\<close> cell is the
  \<open>current\<close> value that React keeps between the renders of one component.
\<close>

section \<open>Constants and callbacks\<close>

text \<open>The argument of \<open>useConst\<close>: a value, or a function that computes it.\<close>

datatype 'a initial = Value 'a | Lazy "unit \<Rightarrow> 'a"

fun initial_value :: "'a initial \<Rightarrow> 'a" where
  "initial_value (Value v) = v"
| "initial_value (Lazy f) = f ()"

text \<open>A hook takes the cell and returns its result and the cell after the render.\<close>

definition use_const :: "'a initial \<Rightarrow> 'a option \<Rightarrow> 'a \<times> 'a option" where
  "use_const v ref = (case ref of
     None \<Rightarrow> (initial_value v, Some (initial_value v))
   | Some w \<Rightarrow> (w, Some w))"

definition use_const_callback :: "'f \<Rightarrow> 'f option \<Rightarrow> 'f \<times> 'f option" where
  "use_const_callback f ref = (case ref of None \<Rightarrow> (f, Some f) | Some g \<Rightarrow> (g, Some g))"

text \<open>
  \<open>useRefCallback\<close>: the cell holds the callback of the last render; the returned function is created
  at the first render and reads the cell when it is called.
\<close>

type_synonym ('x, 'y) ref_cell = "('x \<Rightarrow> 'y) option"

definition invoke_ref :: "('x, 'y) ref_cell \<Rightarrow> 'x \<Rightarrow> 'y option" where
  "invoke_ref ref args = map_option (\<lambda>f. f args) ref"

definition use_ref_callback ::
    "('x \<Rightarrow> 'y) \<Rightarrow> ('x, 'y) ref_cell \<times> (('x, 'y) ref_cell \<Rightarrow> 'x \<Rightarrow> 'y option) option
     \<Rightarrow> (('x, 'y) ref_cell \<Rightarrow> 'x \<Rightarrow> 'y option)
       \<times> (('x, 'y) ref_cell \<times> (('x, 'y) ref_cell \<Rightarrow> 'x \<Rightarrow> 'y option) option)" where
  "use_ref_callback callback refs =
     (let (invoke, const) = use_const_callback invoke_ref (snd refs)
      in (invoke, (Some callback, const)))"

text \<open>The renders of a component, one argument of the hook each.\<close>

fun renders :: "('v \<Rightarrow> 'c \<Rightarrow> 'r \<times> 'c) \<Rightarrow> 'v list \<Rightarrow> 'c \<Rightarrow> 'r list \<times> 'c" where
  "renders hook [] c = ([], c)"
| "renders hook (v # vs) c =
     (let (r, c') = hook v c; (rs, c'') = renders hook vs c' in (r # rs, c''))"

section \<open>The host\<close>

datatype host_type = Cluster_host | Node_host

text \<open>\<open>useHost\<close> throws outside its provider.\<close>

definition use_host :: "host_type option \<Rightarrow> js_error + host_type" where
  "use_host context = (case context of
     None \<Rightarrow> Inl (ErrorMsg ''useHost must be used within a HostProvider'')
   | Some t \<Rightarrow> Inr t)"

section \<open>Properties\<close>

lemma renders_const_set: "renders use_const vs (Some w) = (replicate (length vs) w, Some w)"
  by (induction vs) (simp_all add: use_const_def)

lemma renders_callback_set:
  "renders use_ref_callback fs (f0, Some invoke_ref) =
     (replicate (length fs) invoke_ref, (if fs = [] then f0 else Some (last fs), Some invoke_ref))"
  by (induction fs arbitrary: f0) (simp_all add: use_ref_callback_def use_const_callback_def)

text \<open>Over all renders of a component \<open>useConst\<close> returns the value of the first render, and
  \<open>useRefCallback\<close> returns one and the same function, which runs the callback of the latest
  render; this is why handlers see the values last rendered.\<close>

theorem hooks_over_renders:
  "fst (renders use_const (v # vs) None) = replicate (Suc (length vs)) (initial_value v)
   \<and> (let (invokes, refs) = renders use_ref_callback (f # fs) (None, None)
      in invokes = replicate (Suc (length fs)) invoke_ref
        \<and> invoke_ref (fst refs) args = Some (last (f # fs) args))"
  by (simp add: use_const_def renders_const_set use_ref_callback_def use_const_callback_def
      renders_callback_set invoke_ref_def)

end
