(* ===== verification/Cluster.thy ===== *)
theory Cluster
  imports Http_Stream Api React_Hooks
begin

text \<open>
  \<open>ClusterProvider\<close> of \<open>services/cluster.tsx\<close>: configuration, model list, cluster status and
  node list, fed by the status stream.  Renders complete before the next event, and the effect that
  chooses the model name runs after a render in which one of its dependencies changed.
\<close>

section \<open>Data\<close>

datatype network_type = Local_network | Remote_network

record model_info =
  mi_name :: string
  mi_display_name :: string
  mi_logo_url :: string
  mi_vram :: jsval

record cluster_info =
  ci_id :: string
  ci_status :: jsval
  ci_model_name :: jsval
  ci_model_info :: "model_info option"
  ci_node_join_command :: jsval
  ci_init_nodes_number :: jsval
  ci_need_more_nodes :: jsval

record node_info =
  ni_id :: jsval
  ni_status :: jsval
  ni_gpu_number :: jsval
  ni_gpu_name :: jsval
  ni_gpu_memory :: jsval

definition initial_cluster_info :: cluster_info where
  "initial_cluster_info = \<lparr>ci_id = [], ci_status = JStr ''offline'', ci_model_name = JStr [],
     ci_model_info = None, ci_node_join_command = JObj [], ci_init_nodes_number = JNum (num_of_int 4),
     ci_need_more_nodes = JBool False\<rparr>"

section \<open>Logos\<close>

definition logo_url_map :: "(string \<times> string) list" where
  "logo_url_map =
     [(''openai'', ''OpenAI-black-monoblossom.svg''), (''qwen'', ''Qwen3.png''),
      (''nvidia'', ''NVIDIA.png''), (''moonshotai'', ''MoonshotAI.png''),
      (''deepseek'', ''DeepSeek.png''), (''zai'', ''Zai.png''), (''minimaxai'', ''MiniMax.png'')]"

definition get_logo_url :: "string \<Rightarrow> string" where
  "get_logo_url name =
     (let parts = split_on (\<lambda>c. c = CHR ''-'' \<or> c = CHR ''/'') (to_lower name)
      in case map_of logo_url_map (hd parts) of Some url \<Rightarrow> url | None \<Rightarrow> [])"

section \<open>The model list\<close>

text \<open>
  One element of the raw list: destructuring throws on \<open>undefined\<close> and \<open>null\<close>, and a name without
  \<open>toLowerCase\<close> throws in \<open>getLogoUrl\<close>.
\<close>

definition model_of_js :: "jsval \<Rightarrow> js_error + model_info" where
  "model_of_js raw =
     bind_sum (get_prop raw ''name'') (\<lambda>n.
     bind_sum (get_prop raw ''vram_gb'') (\<lambda>g.
       case js_or n (JStr []) of
         JStr name \<Rightarrow> Inr \<lparr>mi_name = name, mi_display_name = name, mi_logo_url = get_logo_url name,
                        mi_vram = js_or g (JNum (num_of_int 0))\<rparr>
       | _ \<Rightarrow> Inl TypeError))"

fun map_sum_list :: "('a \<Rightarrow> 'e + 'b) \<Rightarrow> 'a list \<Rightarrow> 'e + 'b list" where
  "map_sum_list f [] = Inr []"
| "map_sum_list f (x # xs) = bind_sum (f x) (\<lambda>y. bind_sum (map_sum_list f xs) (\<lambda>ys. Inr (y # ys)))"

definition models_of_response :: "response \<Rightarrow> js_error + model_info list" where
  "models_of_response r =
     bind_sum (get_model_list r) (\<lambda>raw_list.
       case raw_list of JArr xs \<Rightarrow> map_sum_list model_of_js xs | _ \<Rightarrow> Inl TypeError)"

text \<open>The loop of \<open>updateModelList\<close>: fetching, or sleeping before the next attempt, or finished.\<close>

datatype models_phase = Models_fetching | Models_sleeping | Models_finished

section \<open>Status messages\<close>

definition find_model :: "jsval \<Rightarrow> model_info list \<Rightarrow> model_info option" where
  "find_model name models = find (\<lambda>m. JStr (mi_name m) = name) models"

definition json_of_model :: "model_info option \<Rightarrow> jsval" where
  "json_of_model m = (case m of
     None \<Rightarrow> JUndef
   | Some i \<Rightarrow> JObj [(''name'', JStr (mi_name i)), (''displayName'', JStr (mi_display_name i)),
       (''logoUrl'', JStr (mi_logo_url i)), (''vram'', mi_vram i)])"

definition json_of_cluster :: "cluster_info \<Rightarrow> jsval" where
  "json_of_cluster c = JObj [(''id'', JStr (ci_id c)), (''status'', ci_status c),
     (''modelName'', ci_model_name c), (''modelInfo'', json_of_model (ci_model_info c)),
     (''nodeJoinCommand'', ci_node_join_command c), (''initNodesNumber'', ci_init_nodes_number c),
     (''needMoreNodes'', ci_need_more_nodes c)]"

definition json_of_node :: "node_info \<Rightarrow> jsval" where
  "json_of_node n = JObj [(''id'', ni_id n), (''status'', ni_status n),
     (''gpuNumber'', ni_gpu_number n), (''gpuName'', ni_gpu_name n), (''gpuMemory'', ni_gpu_memory n)]"

definition json_of_nodes :: "node_info list \<Rightarrow> jsval" where
  "json_of_nodes ns = JArr (map json_of_node ns)"

text \<open>The next cluster info; \<open>models\<close> is the model list that the closure sees.\<close>

definition next_cluster_info :: "model_info list \<Rightarrow> jsval \<Rightarrow> cluster_info \<Rightarrow> cluster_info" where
  "next_cluster_info models data prev =
     (let get = (\<lambda>k. case get_prop data k of Inr v \<Rightarrow> v | Inl e \<Rightarrow> JUndef) in
      prev\<lparr>ci_status := js_or (js_and (get ''model_name'') (get ''status'')) (JStr ''idle''),
           ci_init_nodes_number := js_or (get ''init_nodes_num'') (JNum (num_of_int 0)),
           ci_model_name := js_or (get ''model_name'') (JStr []),
           ci_model_info := find_model (get ''model_name'') models,
           ci_node_join_command := js_or (get ''node_join_command'') (JObj []),
           ci_need_more_nodes := js_or (get ''need_more_nodes'') (JBool False)\<rparr>)"

definition update_cluster_info :: "model_info list \<Rightarrow> jsval \<Rightarrow> cluster_info \<Rightarrow> cluster_info" where
  "update_cluster_info models data prev =
     (let next = next_cluster_info models data prev in
      if stringify (json_of_cluster next) \<noteq> stringify (json_of_cluster prev) then next else prev)"

definition node_of_js :: "jsval \<Rightarrow> js_error + node_info" where
  "node_of_js raw =
     bind_sum (get_prop raw ''node_id'') (\<lambda>i.
     bind_sum (get_prop raw ''status'') (\<lambda>st.
     bind_sum (get_prop raw ''gpu_num'') (\<lambda>n.
     bind_sum (get_prop raw ''gpu_name'') (\<lambda>g.
     bind_sum (get_prop raw ''gpu_memory'') (\<lambda>m.
       Inr \<lparr>ni_id = i, ni_status = st, ni_gpu_number = js_or n (JNum (num_of_int 1)),
            ni_gpu_name = js_or g (JStr []), ni_gpu_memory = js_or m (JNum (num_of_int 0))\<rparr>)))))"

definition same_id :: "node_info \<Rightarrow> node_info \<Rightarrow> bool" where
  "same_id a b = (ni_id a = ni_id b)"

definition online_of :: "node_info list \<Rightarrow> node_info list \<Rightarrow> node_info list" where
  "online_of next prev = filter (\<lambda>p. \<exists>n \<in> set next. same_id n p) prev"

definition offline_of :: "node_info list \<Rightarrow> node_info list \<Rightarrow> node_info list" where
  "offline_of next prev = map (\<lambda>p. p\<lparr>ni_status := JStr ''failed''\<rparr>)
     (filter (\<lambda>p. \<not> (\<exists>n \<in> set next. same_id n p)) prev)"

definition same_json :: "node_info list \<Rightarrow> node_info list \<Rightarrow> bool" where
  "same_json a b = (stringify (json_of_nodes a) = stringify (json_of_nodes b))"

text \<open>The updater of the node list.\<close>

definition merge_nodes :: "node_info list \<Rightarrow> node_info list \<Rightarrow> node_info list" where
  "merge_nodes next prev =
     (if same_json next (online_of next prev) then next @ offline_of next prev else next)"

definition update_nodes :: "jsval \<Rightarrow> node_info list \<Rightarrow> js_error + node_info list" where
  "update_nodes node_list prev =
     (case node_list of
        JArr xs \<Rightarrow>
          bind_sum (map_sum_list node_of_js xs) (\<lambda>next.
            let merged = merge_nodes next prev in
            Inr (if \<not> same_json merged prev then merged else prev))
      | _ \<Rightarrow> Inl TypeError)"

section \<open>The provider\<close>

record cluster_state =
  cl_network_type :: network_type
  cl_init_nodes_number :: int
  cl_model_name :: jsval
  cl_models :: "model_info list"
  cl_info :: cluster_info
  cl_nodes :: "node_info list"
  cl_captured :: "model_info list"
  cl_dirty :: bool
  cl_crashed :: bool

text \<open>
  \<open>cl_captured\<close> is the model list in the closure of the memoised message handler, the one of the
  first render; \<open>cl_dirty\<close> says that the effect is due, \<open>cl_crashed\<close> that an updater has thrown
  while rendering.
\<close>

definition init_cluster :: cluster_state where
  "init_cluster = \<lparr>cl_network_type = Local_network, cl_init_nodes_number = 1, cl_model_name = JStr [],
     cl_models = [], cl_info = initial_cluster_info, cl_nodes = [], cl_captured = [],
     cl_dirty = False, cl_crashed = False\<rparr>"

definition set_cluster_info :: "cluster_info \<Rightarrow> cluster_state \<Rightarrow> cluster_state" where
  "set_cluster_info i s = s\<lparr>cl_info := i, cl_dirty := (cl_dirty s \<or> i \<noteq> cl_info s)\<rparr>"

definition cluster_reset :: "cluster_state \<Rightarrow> cluster_state" where
  "cluster_reset s = (set_cluster_info initial_cluster_info s)\<lparr>cl_nodes := []\<rparr>"

definition cluster_on_message :: "jsval \<Rightarrow> cluster_state \<Rightarrow> cluster_state \<times> js_error option" where
  "cluster_on_message message s =
     (case get_prop message ''type'' of
        Inl e \<Rightarrow> (s, Some e)
      | Inr t \<Rightarrow>
          if t \<noteq> JStr ''cluster_status'' then (s, None)
          else
            (case bind_sum (get_prop message ''data'') (\<lambda>data.
                    bind_sum (get_prop data ''node_list'') (\<lambda>nodes. Inr (data, nodes))) of
               Inl e \<Rightarrow> (s, Some e)
             | Inr (data, node_list) \<Rightarrow>
                 (let s1 = set_cluster_info (update_cluster_info (cl_captured s) data (cl_info s)) s
                  in case update_nodes node_list (cl_nodes s1) of
                       Inr ns \<Rightarrow> (s1\<lparr>cl_nodes := ns\<rparr>, None)
                     | Inl e \<Rightarrow> (s1\<lparr>cl_crashed := True\<rparr>, None))))"

definition cluster_http :: "cluster_state http_options" where
  "cluster_http = \<lparr>auto_reconnect = True, auto_reconnect_interval = 2000,
     on_status_change = (\<lambda>status. Inr), on_http_message = cluster_on_message,
     on_http_error = (\<lambda>e. cluster_reset)\<rparr>"

definition cluster_stream :: "string \<Rightarrow> http_common_options" where
  "cluster_stream base = \<lparr>opt_url = base @ ''/cluster/status'', opt_method = ''GET'', opt_after_fetch = Inr\<rparr>"

text \<open>The effect on \<open>[modelInfoList, clusterInfo]\<close>, run after a render when it is due.\<close>

definition first_model_name :: "cluster_state \<Rightarrow> jsval" where
  "first_model_name s = JStr (case cl_models s of [] \<Rightarrow> [] | m # _ \<Rightarrow> mi_name m)"

definition choose_model :: "cluster_state \<Rightarrow> jsval" where
  "choose_model s =
     (let prev = cl_model_name s; cluster = ci_model_name (cl_info s) in
      if ci_status (cl_info s) = JStr ''waiting'' then js_or (js_or cluster prev) (first_model_name s)
      else if ci_status (cl_info s) \<noteq> JStr ''offline'' then js_or (js_or prev cluster) (first_model_name s)
      else prev)"

definition cluster_effect :: "cluster_state \<Rightarrow> cluster_state" where
  "cluster_effect s =
     (if cl_dirty s then s\<lparr>cl_model_name := choose_model s, cl_dirty := False\<rparr> else s)"

section \<open>Initialising the scheduler\<close>

text \<open>A call of \<open>init\<close> that passed its checks: the request, and the values its continuation closes over.\<close>

record init_call =
  ic_params :: jsval
  ic_nodes :: int
  ic_model :: jsval
  ic_info :: "model_info option"

definition init_cluster_call :: "cluster_state \<Rightarrow> js_error + init_call" where
  "init_cluster_call s =
     (if cl_init_nodes_number s < 1 then Inl (ErrorMsg ''initNodesNumber must be greater than 0'')
      else if \<not> truthy (cl_model_name s) then Inl (ErrorMsg ''modelName is required'')
      else Inr \<lparr>ic_params = init_scheduler_params (cl_model_name s) (cl_init_nodes_number s)
                  (cl_network_type s = Local_network),
                ic_nodes = cl_init_nodes_number s, ic_model = cl_model_name s,
                ic_info = find_model (cl_model_name s) (cl_models s)\<rparr>)"

definition init_done :: "init_call \<Rightarrow> cluster_state \<Rightarrow> cluster_state" where
  "init_done c s = s\<lparr>cl_info := (cl_info s)\<lparr>ci_status := JStr ''waiting'',
       ci_init_nodes_number := JNum (num_of_int (ic_nodes c)), ci_model_name := ic_model c,
       ci_model_info := ic_info c, ci_need_more_nodes := JBool False\<rparr>,
     cl_nodes := [], cl_dirty := True\<rparr>"

text \<open>The outcome of \<open>init\<close> once the response is there: the promise rejects with \<open>Some e\<close>.\<close>

definition on_init_response :: "init_call \<Rightarrow> response \<Rightarrow> cluster_state \<Rightarrow> cluster_state \<times> js_error option" where
  "on_init_response c r s = (case init_scheduler r of
     Inl e \<Rightarrow> (s, Some e) | Inr d \<Rightarrow> (init_done c s, None))"

section \<open>Steps\<close>

record cluster_sys =
  sys_http :: http_state
  sys_cluster :: cluster_state
  sys_models :: models_phase
  sys_inits :: "init_call list"

definition mount_cluster :: "string \<Rightarrow> host_type \<Rightarrow> cluster_sys" where
  "mount_cluster base host =
     (let (st, s) = http_step (cluster_stream base) cluster_http (init_http, init_cluster) (Send None) in
      \<lparr>sys_http = st, sys_cluster = s,
       sys_models = (if host = Node_host then Models_finished else Models_fetching), sys_inits = []\<rparr>)"

datatype cluster_event =
    Stream_event http_event
  | Models_response response
  | Models_wake
  | Set_network_type network_type
  | Set_init_nodes_number int
  | Set_model_name jsval
  | Init_cluster
  | Init_response nat response

definition with_cluster :: "(cluster_state \<Rightarrow> cluster_state) \<Rightarrow> cluster_sys \<Rightarrow> cluster_sys" where
  "with_cluster f s = s\<lparr>sys_cluster := cluster_effect (f (sys_cluster s))\<rparr>"

text \<open>After its only \<open>send\<close> the provider calls neither \<open>send\<close> nor \<open>abort\<close>.\<close>

fun from_network :: "http_event \<Rightarrow> bool" where
  "from_network (Send options) = False"
| "from_network Abort = False"
| "from_network ev = True"

fun cluster_step :: "string \<Rightarrow> cluster_sys \<Rightarrow> cluster_event \<Rightarrow> cluster_sys" where
  "cluster_step base s (Stream_event ev) =
     (if from_network ev then
        (let (st, c) = http_step (cluster_stream base) cluster_http (sys_http s, sys_cluster s) ev
         in with_cluster id (s\<lparr>sys_http := st, sys_cluster := c\<rparr>))
      else s)"
| "cluster_step base s (Models_response r) =
     (if sys_models s = Models_fetching then
        (case models_of_response r of
           Inr ms \<Rightarrow> with_cluster (\<lambda>c. c\<lparr>cl_models := ms, cl_dirty := True\<rparr>) (s\<lparr>sys_models := Models_finished\<rparr>)
         | Inl e \<Rightarrow> s\<lparr>sys_models := Models_sleeping\<rparr>)
      else s)"
| "cluster_step base s Models_wake =
     (if sys_models s = Models_sleeping then s\<lparr>sys_models := Models_fetching\<rparr> else s)"
| "cluster_step base s (Set_network_type t) = with_cluster (\<lambda>c. c\<lparr>cl_network_type := t\<rparr>) s"
| "cluster_step base s (Set_init_nodes_number n) = with_cluster (\<lambda>c. c\<lparr>cl_init_nodes_number := n\<rparr>) s"
| "cluster_step base s (Set_model_name v) = with_cluster (\<lambda>c. c\<lparr>cl_model_name := v\<rparr>) s"
| "cluster_step base s Init_cluster =
     (case init_cluster_call (sys_cluster s) of
        Inl e \<Rightarrow> s
      | Inr c \<Rightarrow> s\<lparr>sys_inits := sys_inits s @ [c]\<rparr>)"
| "cluster_step base s (Init_response k r) =
     (if k < length (sys_inits s) then
        with_cluster (\<lambda>c. fst (on_init_response (sys_inits s ! k) r c))
          (s\<lparr>sys_inits := take k (sys_inits s) @ drop (Suc k) (sys_inits s)\<rparr>)
      else s)"

definition cluster_run :: "string \<Rightarrow> cluster_sys \<Rightarrow> cluster_event list \<Rightarrow> cluster_sys" where
  "cluster_run base = foldl (cluster_step base)"

text \<open>What the context offers to the components.\<close>

definition selected_model_info :: "cluster_state \<Rightarrow> model_info option" where
  "selected_model_info s = find_model (cl_model_name s) (cl_models s)"

definition use_cluster :: "cluster_state option \<Rightarrow> js_error + cluster_state" where
  "use_cluster context = (case context of
     None \<Rightarrow> Inl (ErrorMsg ''useCluster must be used within a ClusterProvider'') | Some s \<Rightarrow> Inr s)"

end
