(* ===== verification/Cluster_Facts.thy ===== *)
theory Cluster_Facts
  imports Cluster
begin

text \<open>
  What the cluster provider guarantees: how the node list is merged, that repeated status messages
  change nothing, who may change the selected model, and how the scheduler is initialised.
\<close>

section \<open>Comparing by \<open>JSON.stringify\<close>\<close>

text \<open>
  A value is fit for comparison when it is \<open>undefined\<close> or printable; objects with fixed keys are then
  equal exactly when their texts are.
\<close>

definition fit :: "jsval \<Rightarrow> bool" where
  "fit v = (v = JUndef \<or> json_wf v)"

fun defined_members :: "(string \<times> jsval) list \<Rightarrow> (string \<times> jsval) list" where
  "defined_members [] = []"
| "defined_members ((k, v) # kvs) = (if v = JUndef then defined_members kvs else (k, v) # defined_members kvs)"

lemma is_undef_iff: "is_undef v \<longleftrightarrow> v = JUndef"
  by (cases v) auto

lemma stringify_defined: "stringify_members (defined_members kvs) = stringify_members kvs"
  by (induction kvs rule: defined_members.induct) (auto simp: is_undef_iff)

lemma defined_members_wf:
  "\<forall>v \<in> snd ` set kvs. fit v \<Longrightarrow> json_wf_members (defined_members kvs)"
  by (induction kvs rule: defined_members.induct) (auto simp: fit_def)

lemma defined_members_keys: "set (map fst (defined_members kvs)) \<subseteq> set (map fst kvs)"
  by (induction kvs rule: defined_members.induct) auto

lemma defined_members_distinct: "distinct (map fst kvs) \<Longrightarrow> distinct (map fst (defined_members kvs))"
proof (induction kvs rule: defined_members.induct)
  case (2 k v kvs)
  then show ?case using defined_members_keys [of kvs] by auto
qed simp

lemma lookup_fresh: "k \<notin> set (map fst kvs) \<Longrightarrow> lookup kvs k = JUndef"
  by (induction kvs k rule: lookup.induct) auto

lemma lookup_defined: "distinct (map fst kvs) \<Longrightarrow> lookup (defined_members kvs) k = lookup kvs k"
proof (induction kvs rule: defined_members.induct)
  case (2 l v kvs)
  then show ?case using lookup_fresh [of l kvs] by auto
qed simp

fun node_fields :: "node_info \<Rightarrow> jsval list" where
  "node_fields n = [ni_id n, ni_status n, ni_gpu_number n, ni_gpu_name n, ni_gpu_memory n]"

definition node_fit :: "node_info \<Rightarrow> bool" where
  "node_fit n = (\<forall>v \<in> set (node_fields n). fit v)"

definition node_members :: "node_info \<Rightarrow> (string \<times> jsval) list" where
  "node_members n = [(''id'', ni_id n), (''status'', ni_status n),
     (''gpuNumber'', ni_gpu_number n), (''gpuName'', ni_gpu_name n), (''gpuMemory'', ni_gpu_memory n)]"

lemma json_of_node_members: "json_of_node n = JObj (node_members n)"
  by (simp add: json_of_node_def node_members_def)

lemma node_members_distinct: "distinct (map fst (node_members n))"
  by (simp add: node_members_def)

lemma node_members_inj:
  assumes "defined_members (node_members a) = defined_members (node_members b)"
  shows "a = b"
proof -
  have "lookup (node_members a) k = lookup (node_members b) k" for k
    using assms lookup_defined [OF node_members_distinct, of _ k] by metis
  from this [of "''id''"] this [of "''status''"] this [of "''gpuNumber''"] this [of "''gpuName''"]
    this [of "''gpuMemory''"]
  show ?thesis by (simp add: node_members_def)
qed

lemma stringify_nodes:
  "stringify (json_of_nodes ns) = stringify (JArr (map (\<lambda>n. JObj (defined_members (node_members n))) ns))"
proof -
  have "stringify_items (map json_of_node ns)
      = stringify_items (map (\<lambda>n. JObj (defined_members (node_members n))) ns)"
    by (induction ns) (simp_all add: json_of_node_members stringify_defined)
  then show ?thesis by (simp add: json_of_nodes_def)
qed

lemma same_json_iff:
  assumes "\<forall>n \<in> set a. node_fit n" "\<forall>n \<in> set b. node_fit n"
  shows "same_json a b \<longleftrightarrow> a = b"
proof -
  let ?f = "\<lambda>n. JObj (defined_members (node_members n))"
  have wf: "json_wf (JArr (map ?f ns))" if "\<forall>n \<in> set ns. node_fit n" for ns
    using that
  proof (induction ns)
    case (Cons n ns)
    then have "json_wf_members (defined_members (node_members n))"
      by (intro defined_members_wf) (auto simp: node_fit_def node_members_def)
    with Cons defined_members_distinct [OF node_members_distinct, of n] show ?case by simp
  qed simp
  have "same_json a b \<longleftrightarrow> map ?f a = map ?f b"
    unfolding same_json_def stringify_nodes using stringify_inj [OF wf [OF assms(1)] wf [OF assms(2)]]
    by simp
  also have "\<dots> \<longleftrightarrow> a = b"
    using inj_map_eq_map [of ?f a b] node_members_inj by (simp add: inj_def)
  finally show ?thesis .
qed

section \<open>Merging the node list\<close>

lemma map_sum_list_Inr: "map_sum_list f xs = Inr ys \<Longrightarrow> list_all2 (\<lambda>x y. f x = Inr y) xs ys"
  by (induction xs arbitrary: ys) (auto simp: bind_sum_Inr_iff)

lemma json_wf_lookup: "json_wf_members kvs \<Longrightarrow> fit (lookup kvs k)"
  by (induction kvs k rule: lookup.induct) (auto simp: fit_def)

lemma fit_const: "fit JUndef" "fit (JStr x)" "fit (JNum (num_of_int i))" "fit (JBool b)" "fit (JObj [])"
  by (simp_all add: fit_def num_of_int_def)

lemma get_prop_fit: "json_wf v \<Longrightarrow> get_prop v k = Inr w \<Longrightarrow> fit w"
  by (cases v) (auto simp: json_wf_lookup fit_const split: if_splits)

lemma js_or_fit: "fit a \<Longrightarrow> fit b \<Longrightarrow> fit (js_or a b)"
  by (simp add: js_or_def)

lemma node_of_js_fit: "json_wf v \<Longrightarrow> node_of_js v = Inr n \<Longrightarrow> node_fit n"
  using get_prop_fit [of v] by (auto simp: node_of_js_def bind_sum_Inr_iff node_fit_def js_or_fit fit_const)

lemma json_wf_items_all: "json_wf_items xs \<longleftrightarrow> (\<forall>x \<in> set xs. json_wf x)"
  by (induction xs) auto

lemma nodes_fit:
  assumes "json_wf_items xs" "map_sum_list node_of_js xs = Inr ns"
  shows "\<forall>n \<in> set ns. node_fit n"
  using map_sum_list_Inr [OF assms(2)] assms(1) node_of_js_fit
  by (induction rule: list_all2_induct) auto

lemma offline_fit: "\<forall>n \<in> set prev. node_fit n \<Longrightarrow> \<forall>n \<in> set (offline_of next prev). node_fit n"
  by (auto simp: offline_of_def node_fit_def fit_const)

lemma online_fit: "\<forall>n \<in> set prev. node_fit n \<Longrightarrow> \<forall>n \<in> set (online_of next prev). node_fit n"
  by (auto simp: online_of_def)

lemma merge_fit:
  "\<forall>n \<in> set next. node_fit n \<Longrightarrow> \<forall>n \<in> set prev. node_fit n \<Longrightarrow> \<forall>n \<in> set (merge_nodes next prev). node_fit n"
  using offline_fit by (auto simp: merge_nodes_def)

lemma same_json_refl [simp]: "same_json a a"
  by (simp add: same_json_def)

lemma online_self: "online_of next next = next"
  by (auto simp: online_of_def same_id_def intro: filter_True)

lemma online_offline: "online_of next (offline_of next prev) = []"
  by (auto simp: online_of_def offline_of_def same_id_def filter_empty_conv)

lemma offline_self: "offline_of next next = []"
  by (auto simp: offline_of_def same_id_def filter_empty_conv)

lemma offline_offline: "offline_of next (offline_of next prev) = offline_of next prev"
  by (auto simp: offline_of_def same_id_def filter_map comp_def)

lemma online_append: "online_of next (a @ b) = online_of next a @ online_of next b"
  by (simp add: online_of_def)

lemma offline_append: "offline_of next (a @ b) = offline_of next a @ offline_of next b"
  by (simp add: offline_of_def)

text \<open>Receiving the same list again changes nothing.\<close>

lemma merge_again: "merge_nodes next (merge_nodes next prev) = merge_nodes next prev"
  by (auto simp: merge_nodes_def online_append offline_append online_self online_offline offline_self
      offline_offline)

lemma update_nodes_merge:
  assumes "json_wf_items xs" "map_sum_list node_of_js xs = Inr next" "\<forall>n \<in> set prev. node_fit n"
  shows "update_nodes (JArr xs) prev = Inr (merge_nodes next prev)"
proof -
  have "same_json (merge_nodes next prev) prev \<longleftrightarrow> merge_nodes next prev = prev"
    by (intro same_json_iff merge_fit nodes_fit [OF assms(1,2)] assms(3))
  then show ?thesis using assms(2) by (auto simp: update_nodes_def Let_def)
qed

section \<open>The provider as the owner of its stream\<close>

text \<open>
  What every message and every error of the stream keeps: nodes are fit for comparison, the closure
  of the handler sees the empty model list it was created with, and (if \<open>b\<close>) the cluster info has
  no model.
\<close>

definition data_inv :: "bool \<Rightarrow> cluster_state \<Rightarrow> bool" where
  "data_inv b s = ((\<forall>n \<in> set (cl_nodes s). node_fit n) \<and> cl_captured s = []
     \<and> (b \<longrightarrow> ci_model_info (cl_info s) = None))"

text \<open>The configuration, which only the user changes.\<close>

definition config_of :: "cluster_state \<Rightarrow> network_type \<times> int \<times> jsval \<times> model_info list" where
  "config_of s = (cl_network_type s, cl_init_nodes_number s, cl_model_name s, cl_models s)"

lemma set_cluster_info_sel [cluster_simps]:
  "cl_info (set_cluster_info i s) = i" "cl_nodes (set_cluster_info i s) = cl_nodes s"
  "cl_captured (set_cluster_info i s) = cl_captured s" "config_of (set_cluster_info i s) = config_of s"
  "cl_crashed (set_cluster_info i s) = cl_crashed s"
  by (simp_all add: set_cluster_info_def config_of_def)

lemma config_of_update [cluster_simps]:
  "config_of (s\<lparr>cl_nodes := ns\<rparr>) = config_of s" "config_of (s\<lparr>cl_crashed := b\<rparr>) = config_of s"
  "config_of (s\<lparr>cl_dirty := d\<rparr>) = config_of s" "config_of (s\<lparr>cl_info := i\<rparr>) = config_of s"
  by (simp_all add: config_of_def)

lemma cluster_reset_config [cluster_simps]: "config_of (cluster_reset s) = config_of s"
  by (simp add: cluster_reset_def cluster_simps)

text \<open>A message has one of three effects.\<close>

lemma cluster_on_message_cases:
  obtains (ignored) "fst (cluster_on_message m s) = s"
  | (status) data node_list where "get_prop m ''type'' = Inr (JStr ''cluster_status'')"
      "get_prop m ''data'' = Inr data" "get_prop data ''node_list'' = Inr node_list"
      "cluster_on_message m s =
        (let s1 = set_cluster_info (update_cluster_info (cl_captured s) data (cl_info s)) s
         in case update_nodes node_list (cl_nodes s1) of
              Inr ns \<Rightarrow> (s1\<lparr>cl_nodes := ns\<rparr>, None) | Inl e \<Rightarrow> (s1\<lparr>cl_crashed := True\<rparr>, None))"
proof -
  let ?d = "bind_sum (get_prop m ''data'') (\<lambda>data.
      bind_sum (get_prop data ''node_list'') (\<lambda>nodes. Inr (data, nodes)))"
  show ?thesis
  proof (cases "get_prop m ''type'' = Inr (JStr ''cluster_status'') \<and> (\<exists>x. ?d = Inr x)")
    case True
    then obtain data node_list where d: "?d = Inr (data, node_list)" by auto
    then have "get_prop m ''data'' = Inr data" "get_prop data ''node_list'' = Inr node_list"
      by (auto simp: bind_sum_Inr_iff)
    then show ?thesis using True d by (intro status) (simp_all add: cluster_on_message_def Let_def)
  next
    case False
    then have "fst (cluster_on_message m s) = s"
      by (cases "get_prop m ''type''"; cases ?d) (auto simp: cluster_on_message_def)
    then show ?thesis by (rule ignored)
  qed
qed

lemma update_nodes_fit:
  assumes "fit node_list" "\<forall>n \<in> set prev. node_fit n" "update_nodes node_list prev = Inr ns"
  shows "\<forall>n \<in> set ns. node_fit n"
proof -
  obtain xs where xs: "node_list = JArr xs" using assms(3)
    by (cases node_list) (auto simp: update_nodes_def)
  then have wf: "json_wf_items xs" using assms(1) by (simp add: fit_def)
  obtain next' where n: "map_sum_list node_of_js xs = Inr next'"
    using assms(3) xs by (auto simp: update_nodes_def bind_sum_Inr_iff)
  have "ns = merge_nodes next' prev"
    using update_nodes_merge [OF wf n assms(2)] assms(3) xs by simp
  then show ?thesis using merge_fit [OF nodes_fit [OF wf n] assms(2)] by simp
qed

text \<open>Members of a parsed message.\<close>

lemma message_member_fit:
  "json_wf m \<Longrightarrow> get_prop m a = Inr d \<Longrightarrow> get_prop d b = Inr v \<Longrightarrow> fit v"
  using get_prop_fit [of m a d] get_prop_fit [of d b v] by (auto simp: fit_def)

lemma message_list_wf:
  "json_wf m \<Longrightarrow> get_prop m a = Inr d \<Longrightarrow> get_prop d b = Inr (JArr xs) \<Longrightarrow> json_wf_items xs"
  using message_member_fit [of m a d b "JArr xs"] by (simp add: fit_def)

text \<open>Both updaters return their argument when they are applied again.\<close>

lemma update_nodes_again:
  assumes "fit node_list" "\<forall>n \<in> set prev. node_fit n" "update_nodes node_list prev = Inr ns"
  shows "update_nodes node_list ns = Inr ns"
proof -
  obtain xs where xs: "node_list = JArr xs" using assms(3)
    by (cases node_list) (auto simp: update_nodes_def)
  then have wf: "json_wf_items xs" using assms(1) by (simp add: fit_def)
  obtain next' where n: "map_sum_list node_of_js xs = Inr next'"
    using assms(3) xs by (auto simp: update_nodes_def bind_sum_Inr_iff)
  have "ns = merge_nodes next' prev"
    using update_nodes_merge [OF wf n assms(2)] assms(3) xs by simp
  then show ?thesis
    using update_nodes_merge [OF wf n merge_fit [OF nodes_fit [OF wf n] assms(2)]] xs
    by (simp add: merge_again)
qed

lemma update_info_again:
  "update_cluster_info ms d (update_cluster_info ms d i) = update_cluster_info ms d i"
  by (simp add: update_cluster_info_def next_cluster_info_def Let_def)

lemma next_info_no_model: "ci_model_info (next_cluster_info [] data prev) = None"
  by (simp add: next_cluster_info_def find_model_def Let_def)

lemma update_info_no_model:
  "ci_model_info prev = None \<Longrightarrow> ci_model_info (update_cluster_info [] data prev) = None"
  by (simp add: update_cluster_info_def next_info_no_model Let_def)

lemma message_data_inv:
  assumes "json_wf m" "data_inv b s"
  shows "data_inv b (fst (cluster_on_message m s))"
proof (cases rule: cluster_on_message_cases [of m s])
  case (status data node_list)
  have fit: "fit node_list"
    using get_prop_fit [OF assms(1) status(2)] status(3) get_prop_fit by (auto simp: fit_def)
  show ?thesis
  proof (cases "update_nodes node_list (cl_nodes s)")
    case (Inl e)
    then show ?thesis
      using assms(2) status(4) update_info_no_model by (simp add: data_inv_def cluster_simps Let_def)
  next
    case (Inr ns)
    then show ?thesis
      using assms(2) status(4) update_info_no_model update_nodes_fit [OF fit _ Inr]
      by (simp add: data_inv_def cluster_simps Let_def)
  qed
qed (use assms in simp)

lemma message_config: "config_of (fst (cluster_on_message m s)) = config_of s"
  by (cases rule: cluster_on_message_cases [of m s])
    (simp_all add: cluster_simps Let_def split: sum.split)

lemma cluster_http_sel [cluster_simps]:
  "on_http_message cluster_http = cluster_on_message" "on_status_change cluster_http st = Inr"
  "on_http_error cluster_http e = cluster_reset" "auto_reconnect cluster_http"
  by (simp_all add: cluster_http_def)

lemma cluster_stream_fetch [cluster_simps]: "opt_after_fetch (cluster_stream base) = Inr"
  by (simp add: cluster_stream_def)

interpretation cluster_data: http_owner "cluster_stream base" cluster_http "data_inv b" for base b
proof
  fix line m s
  assume "bind_sum (json_parse line) (opt_after_fetch (cluster_stream base)) = Inr m" "data_inv b s"
  then show "data_inv b (fst (on_http_message cluster_http m s))"
    using message_data_inv json_parse_wf by (auto simp: cluster_simps bind_sum_Inr_iff)
qed (auto simp: cluster_simps data_inv_def cluster_reset_def initial_cluster_info_def)

interpretation cluster_config: http_owner "cluster_stream base" cluster_http "\<lambda>s. config_of s = k"
  for base k
  by unfold_locales (auto simp: cluster_simps message_config)

section \<open>Reachable states\<close>

inductive cluster_reachable :: "string \<Rightarrow> host_type \<Rightarrow> cluster_sys \<Rightarrow> bool" for base host where
  cluster_mounted: "cluster_reachable base host (mount_cluster base host)"
| cluster_next: "cluster_reachable base host s \<Longrightarrow> cluster_reachable base host (cluster_step base s ev)"

lemma cluster_reachable_run: "cluster_reachable base host s \<Longrightarrow> cluster_reachable base host (cluster_run base s evs)"
  by (induction evs arbitrary: s) (simp_all add: cluster_run_def cluster_next)

lemma effect_sel [cluster_simps]:
  "cl_network_type (cluster_effect s) = cl_network_type s" "cl_models (cluster_effect s) = cl_models s"
  "cl_init_nodes_number (cluster_effect s) = cl_init_nodes_number s"
  "cl_info (cluster_effect s) = cl_info s" "cl_nodes (cluster_effect s) = cl_nodes s"
  "cl_captured (cluster_effect s) = cl_captured s" "cl_crashed (cluster_effect s) = cl_crashed s"
  "data_inv b (cluster_effect s) = data_inv b s"
  by (simp_all add: cluster_effect_def data_inv_def)

lemma with_cluster_sel [cluster_simps]:
  "sys_cluster (with_cluster f s) = cluster_effect (f (sys_cluster s))"
  "sys_http (with_cluster f s) = sys_http s" "sys_models (with_cluster f s) = sys_models s"
  "sys_inits (with_cluster f s) = sys_inits s"
  by (simp_all add: with_cluster_def)

lemma data_inv_update [cluster_simps]:
  "data_inv b (s\<lparr>cl_models := ms\<rparr>) = data_inv b s" "data_inv b (s\<lparr>cl_dirty := d\<rparr>) = data_inv b s"
  "data_inv b (s\<lparr>cl_network_type := t\<rparr>) = data_inv b s" "data_inv b (s\<lparr>cl_init_nodes_number := n\<rparr>) = data_inv b s"
  "data_inv b (s\<lparr>cl_model_name := v\<rparr>) = data_inv b s"
  by (simp_all add: data_inv_def)

text \<open>What a step of the stream does to the provider's data, before the effect.\<close>

definition stream_data :: "string \<Rightarrow> cluster_sys \<Rightarrow> http_event \<Rightarrow> cluster_state" where
  "stream_data base s ev = snd (http_step (cluster_stream base) cluster_http (sys_http s, sys_cluster s) ev)"

lemma stream_step:
  "from_network ev \<Longrightarrow> sys_cluster (cluster_step base s (Stream_event ev)) = cluster_effect (stream_data base s ev)"
  by (simp add: stream_data_def with_cluster_def split: prod.split)

lemma step_data_inv:
  assumes "data_inv b (sys_cluster s)" "b \<Longrightarrow> \<forall>k r. ev \<noteq> Init_response k r"
  shows "data_inv b (sys_cluster (cluster_step base s ev))"
proof (cases ev)
  case (Stream_event e)
  have "data_inv b (stream_data base s e)"
    unfolding stream_data_def using assms(1) by (intro cluster_data.step_inv) simp
  then show ?thesis
    using Stream_event stream_step [of e base s] assms(1)
    by (cases "from_network e") (simp_all add: cluster_simps)
next
  case (Init_response k r)
  then have b: "\<not> b" using assms(2) by blast
  have "data_inv b (fst (on_init_response c r t))" if "data_inv b t" for c t
    using that b by (simp add: on_init_response_def init_done_def data_inv_def split: sum.split)
  then show ?thesis using assms(1) Init_response by (simp add: cluster_simps)
qed (use assms(1) in \<open>simp_all add: cluster_simps split: sum.split\<close>)

lemma mounted_data: "data_inv True (sys_cluster (mount_cluster base host))"
proof -
  have "data_inv True (snd (http_step (cluster_stream base) cluster_http (init_http, init_cluster) (Send None)))"
    by (intro cluster_data.step_inv) (simp add: data_inv_def init_cluster_def initial_cluster_info_def)
  then show ?thesis
    by (cases "http_step (cluster_stream base) cluster_http (init_http, init_cluster) (Send None)")
      (simp add: mount_cluster_def)
qed

lemma reachable_data: "cluster_reachable base host s \<Longrightarrow> data_inv False (sys_cluster s)"
proof (induction rule: cluster_reachable.induct)
  case cluster_mounted
  then show ?case using mounted_data [of base host] by (simp add: data_inv_def)
next
  case (cluster_next s ev)
  then show ?case by (intro step_data_inv) simp_all
qed

lemma run_no_model:
  "data_inv True (sys_cluster s) \<Longrightarrow> \<forall>k r. Init_response k r \<notin> set evs
     \<Longrightarrow> data_inv True (sys_cluster (cluster_run base s evs))"
proof (induction evs arbitrary: s)
  case (Cons ev evs)
  have "data_inv True (sys_cluster (cluster_step base s ev))"
    using Cons.prems by (intro step_data_inv) auto
  with Cons show ?case by (simp add: cluster_run_def)
qed (simp add: cluster_run_def)

text \<open>The stream and the configuration.\<close>

lemma stream_config: "config_of (stream_data base s ev) = config_of (sys_cluster s)"
  unfolding stream_data_def
  by (intro cluster_config.step_inv) simp

lemma js_or_truthy: "truthy a \<Longrightarrow> js_or a b = a"
  by (simp add: js_or_def)

lemma effect_keeps:
  assumes "truthy (cl_model_name s)" "ci_status (cl_info s) \<noteq> JStr ''waiting''"
  shows "cl_model_name (cluster_effect s) = cl_model_name s"
  using assms by (simp add: cluster_effect_def choose_model_def Let_def js_or_truthy)

text \<open>Reads that end do not touch the provider's data.\<close>

lemma cancel_read_done:
  "\<forall>t \<in> set (hs_tasks st). \<exists>l. t = Read_done l \<Longrightarrow> \<forall>t \<in> set (hs_tasks (cancel r st)). \<exists>l. t = Read_done l"
  by (auto simp: cancel_def settle_reads_def split: stream.split)

lemma cleanup_read_done:
  "\<forall>t \<in> set (hs_tasks st). \<exists>l. t = Read_done l \<Longrightarrow> \<forall>t \<in> set (hs_tasks (cleanup_reader st)). \<exists>l. t = Read_done l"
  using cancel_read_done by (simp add: cleanup_reader_def split: option.split)

lemma finally_read_done:
  "\<forall>t \<in> set (hs_tasks st). \<exists>l. t = Read_done l \<Longrightarrow> \<forall>t \<in> set (hs_tasks (finally_loop l st)). \<exists>l. t = Read_done l"
  using cleanup_read_done [of "clear_timeout l (st\<lparr>hs_loops := (hs_loops st)(l := Ended_loop)\<rparr>)"]
  by (simp add: finally_loop_def clear_timeout_def)

lemma cluster_status_change: "status_change cluster_http v (st, s) = (schedule_reconnect cluster_http v st, s)"
  by (simp add: status_change_def cluster_simps)

lemma schedule_tasks: "hs_tasks (schedule_reconnect opt v st) = hs_tasks st"
  by (simp add: schedule_reconnect_def)

lemma read_done_tasks:
  "\<forall>t \<in> set (hs_tasks (fst x)). \<exists>l. t = Read_done l \<Longrightarrow> snd (run_tasks cluster_http x) = snd x"
proof (induction "pending (fst x)" arbitrary: x rule: less_induct)
  case less
  obtain st s where x: "x = (st, s)" by fastforce
  show ?case
  proof (cases "hs_tasks st")
    case Nil
    then show ?thesis using x by (simp add: run_tasks.simps [of cluster_http st s])
  next
    case (Cons t ts)
    let ?st = "st\<lparr>hs_tasks := ts\<rparr>"
    obtain l where t: "t = Read_done l" using less.prems Cons x by auto
    let ?y = "run_task cluster_http t (?st, s)"
    have "\<forall>t \<in> set (hs_tasks (cleanup_reader ?st)). \<exists>l. t = Read_done l"
      using less.prems Cons x by (intro cleanup_read_done) simp
    then have "\<forall>t \<in> set (hs_tasks (fst ?y)). \<exists>l. t = Read_done l"
      unfolding t fst_run_task fst_conv by (intro finally_read_done) (simp add: schedule_tasks)
    moreover have "pending (fst ?y) < pending (fst x)"
      using run_task_pending [of cluster_http t "(?st, s)"] Cons x by (simp add: pending_def)
    moreover have "snd ?y = s" by (simp add: t cluster_status_change)
    ultimately show ?thesis
      using less.hyps [of ?y] Cons x by (simp add: run_tasks.simps [of cluster_http st s])
  qed
qed

section \<open>Properties\<close>

text \<open>C4: A status message with a well-formed node list puts exactly the reported nodes on display, and keeps
  the nodes that are missing from it as \<open>failed\<close> just when the report for the others is unchanged;
  comparing the printed lists, as the code does, comes to the same as comparing the lists.\<close>

theorem cluster_nodes_merged:
  assumes "cluster_reachable base host s" "json_wf m"
    and "get_prop m ''type'' = Inr (JStr ''cluster_status'')" "get_prop m ''data'' = Inr data"
    and "get_prop data ''node_list'' = Inr (JArr xs)" "map_sum_list node_of_js xs = Inr reported"
  shows "let prev = cl_nodes (sys_cluster s);
             failed = map (\<lambda>p. p\<lparr>ni_status := JStr ''failed''\<rparr>)
               (filter (\<lambda>p. ni_id p \<notin> ni_id ` set reported) prev)
    in cl_nodes (fst (cluster_on_message m (sys_cluster s))) =
      (if filter (\<lambda>p. ni_id p \<in> ni_id ` set reported) prev = reported then reported @ failed else reported)"
proof -
  let ?prev = "cl_nodes (sys_cluster s)"
  have prev: "\<forall>n \<in> set ?prev. node_fit n" using reachable_data [OF assms(1)] by (simp add: data_inv_def)
  have wf: "json_wf_items xs" by (rule message_list_wf [OF assms(2,4,5)])
  have sid: "(\<exists>n \<in> set reported. same_id n p) \<longleftrightarrow> ni_id p \<in> ni_id ` set reported" for p
    unfolding same_id_def image_iff by metis
  have "cl_nodes (fst (cluster_on_message m (sys_cluster s))) = merge_nodes reported ?prev"
    using assms(3,4,5) update_nodes_merge [OF wf assms(6) prev]
    by (simp add: cluster_on_message_def cluster_simps Let_def)
  moreover have "same_json reported (online_of reported ?prev) \<longleftrightarrow> online_of reported ?prev = reported"
    using same_json_iff [OF nodes_fit [OF wf assms(6)] online_fit [OF prev, of reported]] by auto
  ultimately show ?thesis
    by (simp add: merge_nodes_def online_of_def offline_of_def sid Let_def)
qed

text \<open>A status message that reaches the updaters, on any state.\<close>

definition apply_status :: "jsval \<Rightarrow> jsval \<Rightarrow> cluster_state \<Rightarrow> cluster_state" where
  "apply_status data node_list t =
     (let s1 = set_cluster_info (update_cluster_info (cl_captured t) data (cl_info t)) t
      in case update_nodes node_list (cl_nodes s1) of
           Inr ns \<Rightarrow> s1\<lparr>cl_nodes := ns\<rparr> | Inl e \<Rightarrow> s1\<lparr>cl_crashed := True\<rparr>)"

lemma apply_status_sel:
  "cl_captured (apply_status d n t) = cl_captured t"
  "cl_info (apply_status d n t) = update_cluster_info (cl_captured t) d (cl_info t)"
  "cl_nodes (apply_status d n t) =
     (case update_nodes n (cl_nodes t) of Inr ns \<Rightarrow> ns | Inl e \<Rightarrow> cl_nodes t)"
  "cl_crashed (apply_status d n t) \<longleftrightarrow> cl_crashed t \<or> (\<exists>e. update_nodes n (cl_nodes t) = Inl e)"
  by (simp_all add: apply_status_def Let_def cluster_simps split: sum.split)

lemma apply_status_again:
  assumes "fit n" "\<forall>x \<in> set (cl_nodes t). node_fit x"
  shows "apply_status d n (apply_status d n t) = apply_status d n t"
proof -
  let ?u = "apply_status d n t"
  have "set_cluster_info (update_cluster_info (cl_captured ?u) d (cl_info ?u)) ?u = ?u"
    by (simp add: apply_status_sel update_info_again set_cluster_info_def)
  moreover have "update_nodes n (cl_nodes ?u) =
      (case update_nodes n (cl_nodes t) of Inr ns \<Rightarrow> Inr ns | Inl e \<Rightarrow> Inl e)"
    using update_nodes_again [OF assms] by (simp add: apply_status_sel split: sum.split)
  moreover have "?u\<lparr>cl_nodes := cl_nodes ?u\<rparr> = ?u" by simp
  moreover have "cl_crashed ?u \<Longrightarrow> ?u\<lparr>cl_crashed := True\<rparr> = ?u" by simp
  ultimately show ?thesis
    unfolding apply_status_def [of d n ?u] Let_def
    by (cases "update_nodes n (cl_nodes t)") (simp_all add: apply_status_sel)
qed

text \<open>C16: Receiving the same status message twice is the same as receiving it once, for the whole state of the
  provider: the second time every updater returns the value it was given, so nothing is rendered.\<close>

theorem cluster_message_idempotent:
  assumes "cluster_reachable base host s" "json_wf m"
  shows "let c = fst (cluster_on_message m (sys_cluster s)) in fst (cluster_on_message m c) = c"
proof (cases rule: cluster_on_message_cases [of m "sys_cluster s"])
  case (status data node_list)
  have msg: "fst (cluster_on_message m t) = apply_status data node_list t" for t
    using status(1-3) by (simp add: cluster_on_message_def apply_status_def Let_def split: sum.split)
  have "\<forall>x \<in> set (cl_nodes (sys_cluster s)). node_fit x"
    using reachable_data [OF assms(1)] by (simp add: data_inv_def)
  then show ?thesis
    unfolding msg Let_def by (intro apply_status_again message_member_fit [OF assms(2) status(2,3)])
qed simp

text \<open>A status report with two nodes, and its state.\<close>

definition sample_node :: "string \<Rightarrow> jsval" where
  "sample_node i = JObj [(''node_id'', JStr i), (''status'', JStr ''available''), (''gpu_num'', JNum (Num 1 0)),
     (''gpu_name'', JStr ''g''), (''gpu_memory'', JNum (Num 8 0))]"

definition sample_status :: "string list \<Rightarrow> jsval" where
  "sample_status ids = JObj [(''type'', JStr ''cluster_status''),
     (''data'', JObj [(''status'', JStr ''waiting''), (''model_name'', JStr ''m''),
       (''node_list'', JArr (map sample_node ids))])]"

definition shown_node :: "string \<Rightarrow> string \<Rightarrow> node_info" where
  "shown_node i st = \<lparr>ni_id = JStr i, ni_status = JStr st, ni_gpu_number = JNum (Num 1 0),
     ni_gpu_name = JStr ''g'', ni_gpu_memory = JNum (Num 8 0)\<rparr>"

lemma sample_nodes: "map_sum_list node_of_js (map sample_node ids) = Inr (map (\<lambda>i. shown_node i ''available'') ids)"
  by (induction ids) (simp_all add: sample_node_def node_of_js_def shown_node_def js_or_def)

lemma sample_wf: "json_wf (sample_status ids)"
proof -
  have "json_wf_items (map sample_node ids)" by (induction ids) (simp_all add: sample_node_def)
  then show ?thesis by (simp add: sample_status_def)
qed

lemma mounted_nodes: "cl_nodes (sys_cluster (mount_cluster base host)) = []"
  by (simp add: mount_cluster_def http_step_def send_def status_change_def cluster_simps Let_def
      schedule_reconnect_def run_tasks.simps init_http_def init_cluster_def)

theorem cluster_nodes_merged_witness:
  "cl_nodes (fst (cluster_on_message (sample_status [''a'', ''b'']) (sys_cluster (mount_cluster [] Cluster_host))))
     = [shown_node ''a'' ''available'', shown_node ''b'' ''available'']"
  using cluster_nodes_merged [OF cluster_mounted [of "[]" Cluster_host] sample_wf [of "[''a'', ''b'']"],
      where reported = "map (\<lambda>i. shown_node i ''available'') [''a'', ''b'']" and xs = "map sample_node [''a'', ''b'']"]
    sample_nodes [of "[''a'', ''b'']"] mounted_nodes [of "[]" Cluster_host]
  by (simp add: sample_status_def Let_def)

theorem cluster_message_idempotent_witness:
  "let c = fst (cluster_on_message (sample_status [''a'']) (sys_cluster (mount_cluster [] Cluster_host)))
   in fst (cluster_on_message (sample_status [''a'']) c) = c"
  by (rule cluster_message_idempotent [OF cluster_mounted sample_wf])

text \<open>C26: The handler of status messages was created in the first render, whose model list is empty; so as
  long as the user has not initialised the scheduler from this page, the cluster info never has a
  model, whatever models and messages arrive.\<close>

theorem cluster_model_info_stale:
  assumes "\<forall>k r. Init_response k r \<notin> set evs"
  shows "ci_model_info (cl_info (sys_cluster (cluster_run base (mount_cluster base host) evs))) = None"
  using run_no_model [OF mounted_data assms] by (simp add: data_inv_def)

definition sample_model :: model_info where
  "sample_model = \<lparr>mi_name = ''m'', mi_display_name = ''m'', mi_logo_url = [], mi_vram = JNum (Num 0 0)\<rparr>"

lemma sample_models:
  "models_of_response (Inr (stringify (JObj [(''type'', JStr ''model_list''),
     (''data'', JArr [JObj [(''name'', JStr ''m'')]])]))) = Inr [sample_model]"
proof -
  have "get_logo_url ''m'' = []" by code_simp
  then show ?thesis
    unfolding models_of_response_def get_model_list_def
    by (subst typed_data_ok) (simp_all add: model_of_js_def js_or_def sample_model_def num_of_int_def)
qed

theorem cluster_model_info_stale_witness:
  "let evs = [Models_response (Inr (stringify (JObj [(''type'', JStr ''model_list''),
         (''data'', JArr [JObj [(''name'', JStr ''m'')]])]))),
       Stream_event (http_ok 0), Stream_event (Http_chunk 0 (stringify (sample_status []) @ [newline]))]
   in ci_model_info (cl_info (sys_cluster (cluster_run [] (mount_cluster [] Cluster_host) evs))) = None"
  unfolding Let_def by (rule cluster_model_info_stale) simp

text \<open>C23: The model the user has chosen, the network type and the number of nodes are the user's: no event but
  the setters changes the last two, and the chosen model is only replaced while the cluster is
  waiting with a model of its own.\<close>

theorem cluster_choice_kept:
  assumes "truthy (cl_model_name (sys_cluster s))" "\<forall>v. ev \<noteq> Set_model_name v"
    and "ci_status (cl_info (sys_cluster (cluster_step base s ev))) \<noteq> JStr ''waiting''"
  shows "cl_model_name (sys_cluster (cluster_step base s ev)) = cl_model_name (sys_cluster s)
    \<and> ((\<forall>t. ev \<noteq> Set_network_type t) \<longrightarrow>
        cl_network_type (sys_cluster (cluster_step base s ev)) = cl_network_type (sys_cluster s))
    \<and> ((\<forall>n. ev \<noteq> Set_init_nodes_number n) \<longrightarrow>
        cl_init_nodes_number (sys_cluster (cluster_step base s ev)) = cl_init_nodes_number (sys_cluster s))"
proof (cases ev)
  case (Stream_event e)
  show ?thesis
  proof (cases "from_network e")
    case True
    then show ?thesis
      using assms Stream_event stream_step [OF True, of base s] stream_config [of base s e] effect_keeps
      by (simp add: cluster_simps config_of_def)
  qed (use Stream_event in simp)
next
  case (Models_response r)
  then show ?thesis using assms effect_keeps by (auto simp: cluster_simps split: sum.split)
next
  case (Init_response k r)
  have "config_of (fst (on_init_response c r t)) = config_of t" for c t
    by (simp add: on_init_response_def init_done_def config_of_def split: sum.split)
  then show ?thesis using assms Init_response effect_keeps
    by (auto simp: cluster_simps config_of_def)
qed (use assms effect_keeps in \<open>auto simp: cluster_simps split: sum.split\<close>)

definition sample_chosen :: cluster_sys where
  "sample_chosen = cluster_step [] (mount_cluster [] Cluster_host) (Set_model_name (JStr ''m''))"

lemma mounted_state:
  "sys_cluster (mount_cluster base host) = init_cluster" "sys_inits (mount_cluster base host) = []"
  "sys_models (mount_cluster base host) = (if host = Node_host then Models_finished else Models_fetching)"
  by (simp_all add: mount_cluster_def http_step_def send_def status_change_def cluster_simps Let_def
      schedule_reconnect_def run_tasks.simps init_http_def)

lemma sample_chosen_state:
  "sys_cluster sample_chosen = init_cluster\<lparr>cl_model_name := JStr ''m''\<rparr>" "sys_inits sample_chosen = []"
  by (simp_all add: sample_chosen_def mounted_state cluster_simps cluster_effect_def init_cluster_def)

theorem cluster_choice_kept_witness:
  "cl_model_name (sys_cluster (cluster_step [] sample_chosen (Set_init_nodes_number 3))) = JStr ''m''"
  using cluster_choice_kept [of sample_chosen "Set_init_nodes_number 3" "[]"]
  by (simp add: sample_chosen_state cluster_simps init_cluster_def initial_cluster_info_def)

text \<open>C21: The model list is asked for again after every failure, and the first good answer ends the loop: its
  models are shown and later answers are ignored.\<close>

theorem cluster_models_retried:
  assumes "sys_models s = Models_fetching" "\<forall>b \<in> set bad. \<exists>e. models_of_response b = Inl e"
    and "models_of_response r = Inr ms"
  shows "let s' = cluster_run base s (concat (map (\<lambda>b. [Models_response b, Models_wake]) bad) @ [Models_response r])
    in cl_models (sys_cluster s') = ms \<and> sys_models s' = Models_finished
      \<and> (\<forall>r'. cluster_step base s' (Models_response r') = s')"
proof -
  have retry: "cluster_run base s (concat (map (\<lambda>b. [Models_response b, Models_wake]) bad)) = s"
    using assms(1,2)
  proof (induction bad)
    case (Cons b bad)
    then obtain e where "models_of_response b = Inl e" by auto
    then have "cluster_step base (cluster_step base s (Models_response b)) Models_wake = s"
      using Cons.prems(1) by simp
    with Cons show ?case by (simp add: cluster_run_def)
  qed (simp add: cluster_run_def)
  have "cluster_run base s (evs @ [ev]) = cluster_step base (cluster_run base s evs) ev" for evs ev
    by (simp add: cluster_run_def)
  with retry assms(1,3) show ?thesis by (simp add: Let_def cluster_simps)
qed

theorem cluster_models_retried_witness:
  "let s' = cluster_run [] (mount_cluster [] Cluster_host)
      [Models_response (Inl TypeError), Models_wake,
       Models_response (Inr (stringify (JObj [(''type'', JStr ''model_list''),
         (''data'', JArr [JObj [(''name'', JStr ''m'')]])])))]
   in cl_models (sys_cluster s') = [sample_model] \<and> sys_models s' = Models_finished"
proof -
  have e: "models_of_response (Inl TypeError) = Inl TypeError"
    by (simp add: models_of_response_def get_model_list_def typed_data_def)
  have f: "sys_models (mount_cluster [] Cluster_host) = Models_fetching" by (simp add: mounted_state)
  have "\<forall>b \<in> set [Inl TypeError]. \<exists>e. models_of_response b = Inl e" using e by simp
  from cluster_models_retried [OF f this sample_models, of "[]"] show ?thesis by (simp add: Let_def)
qed

text \<open>Between events there are no tasks, and the effect has run.\<close>

lemma run_tasks_empty: "hs_tasks (fst (run_tasks opt x)) = []"
proof (induction "pending (fst x)" arbitrary: x rule: less_induct)
  case less
  obtain st s where x: "x = (st, s)" by fastforce
  show ?case
  proof (cases "hs_tasks st")
    case Nil
    then show ?thesis using x by (simp add: run_tasks.simps [of opt st s])
  next
    case (Cons t ts)
    have "pending (fst (run_task opt t (st\<lparr>hs_tasks := ts\<rparr>, s))) < pending (fst x)"
      using run_task_pending [of opt t "(st\<lparr>hs_tasks := ts\<rparr>, s)"] Cons x by (simp add: pending_def)
    from less.hyps [OF this] show ?thesis using Cons x by (simp add: run_tasks.simps [of opt st s])
  qed
qed

lemma effect_clean [cluster_simps]: "\<not> cl_dirty (cluster_effect s)"
  by (simp add: cluster_effect_def)

definition settled :: "cluster_sys \<Rightarrow> bool" where
  "settled s = (hs_tasks (sys_http s) = [] \<and> \<not> cl_dirty (sys_cluster s))"

lemma settled_step: "settled s \<Longrightarrow> settled (cluster_step base s ev)"
proof (cases ev)
  case (Stream_event e)
  assume "settled s"
  obtain st c where h: "http_step (cluster_stream base) cluster_http (sys_http s, sys_cluster s) e = (st, c)"
    by fastforce
  then have "hs_tasks st = []"
    using run_tasks_empty [of cluster_http "handle_event (cluster_stream base) cluster_http e
      (sys_http s, sys_cluster s)"] by (simp add: http_step_def)
  with h \<open>settled s\<close> Stream_event show ?thesis by (simp add: settled_def cluster_simps)
qed (auto simp: settled_def cluster_simps split: sum.split)

lemma reachable_settled: "cluster_reachable base host s \<Longrightarrow> settled s"
proof (induction rule: cluster_reachable.induct)
  case cluster_mounted
  have "hs_tasks (sys_http (mount_cluster base host)) = []"
    using run_tasks_empty [of cluster_http]
    by (simp add: mount_cluster_def http_step_def split: prod.split) (metis fst_conv)
  then show ?case by (simp add: settled_def mounted_state init_cluster_def)
qed (rule settled_step)

text \<open>Calls of \<open>init\<close> keep their place until one is answered.\<close>

lemma inits_run:
  assumes "\<forall>k r. Init_response k r \<notin> set evs" "k < length (sys_inits s)"
  shows "k < length (sys_inits (cluster_run base s evs)) \<and> sys_inits (cluster_run base s evs) ! k = sys_inits s ! k"
  using assms
proof (induction evs arbitrary: s)
  case (Cons ev evs)
  have "k < length (sys_inits (cluster_step base s ev)) \<and> sys_inits (cluster_step base s ev) ! k = sys_inits s ! k"
    using Cons.prems by (cases ev) (auto simp: cluster_simps nth_append split: sum.split prod.split)
  then show ?case using Cons.IH [of "cluster_step base s ev"] Cons.prems(1) by (simp add: cluster_run_def)
qed (simp add: cluster_run_def)

lemma reachable_run_cluster:
  "cluster_reachable base host s \<Longrightarrow> cluster_reachable base host (cluster_run base s evs)"
  by (induction evs arbitrary: s) (simp_all add: cluster_run_def cluster_next)

text \<open>C22: \<open>init\<close> refuses fewer than one node and a missing model.  Otherwise it sends one request with the
  values of that moment; whatever happens before it is answered, an answer of the type \<open>scheduler_init\<close> then
  shows the cluster as waiting with exactly those values and no nodes, and brings the choice of the model back to
  theirs.  Only the type counts: an answer that carries an \<open>error\<close> instead of \<open>data\<close>, as the backend sends it
  when the start fails, is shown as a start like any other.  An answer of another type and a failed request
  leave all that the provider holds as it was.\<close>

theorem cluster_init_flow:
  assumes "cluster_reachable base host s" "\<forall>k r. Init_response k r \<notin> set evs" "json_wf reply"
    and "\<not> cl_crashed (sys_cluster (cluster_run base (cluster_step base s Init_cluster) evs))"
  shows "let c = sys_cluster s; k = length (sys_inits s);
      t = cluster_run base (cluster_step base s Init_cluster) evs;
      u = cluster_step base t (Init_response k (Inr (stringify reply))) in
    if cl_init_nodes_number c < 1 \<or> \<not> truthy (cl_model_name c) then cluster_step base s Init_cluster = s
    else
      ic_params (sys_inits t ! k) =
        init_scheduler_params (cl_model_name c) (cl_init_nodes_number c) (cl_network_type c = Local_network)
      \<and> (if get_prop reply ''type'' = Inr (JStr ''scheduler_init'')
         then ci_status (cl_info (sys_cluster u)) = JStr ''waiting''
           \<and> ci_model_name (cl_info (sys_cluster u)) = cl_model_name c
           \<and> ci_init_nodes_number (cl_info (sys_cluster u)) = JNum (num_of_int (cl_init_nodes_number c))
           \<and> ci_model_info (cl_info (sys_cluster u)) = selected_model_info c
           \<and> cl_nodes (sys_cluster u) = [] \<and> cl_model_name (sys_cluster u) = cl_model_name c
         else sys_cluster u = sys_cluster t)
      \<and> (\<forall>e. sys_cluster (cluster_step base t (Init_response k (Inl e))) = sys_cluster t)"
proof (cases "init_cluster_call (sys_cluster s)")
  case (Inl e)
  then have "cluster_step base s Init_cluster = s" by simp
  moreover have "cl_init_nodes_number (sys_cluster s) < 1 \<or> \<not> truthy (cl_model_name (sys_cluster s))"
    using Inl by (auto simp: init_cluster_call_def split: if_splits)
  ultimately show ?thesis by (simp only: Let_def if_True)
next
  case (Inr c)
  let ?s1 = "cluster_step base s Init_cluster" and ?k = "length (sys_inits s)"
  let ?t = "cluster_run base ?s1 evs"
  have s1: "sys_inits ?s1 = sys_inits s @ [c]" using Inr by simp
  have k: "?k < length (sys_inits ?t)" "sys_inits ?t ! ?k = c"
    using inits_run [OF assms(2), of ?k ?s1 base] s1 by simp_all
  have clean: "\<not> cl_dirty (sys_cluster ?t)"
    using reachable_settled [OF reachable_run_cluster [OF cluster_next [OF assms(1), of Init_cluster], of evs]]
    unfolding settled_def by (rule conjunct2)
  have answer: "sys_cluster (cluster_step base ?t (Init_response ?k r)) =
      (case init_scheduler r of Inl e \<Rightarrow> sys_cluster ?t | Inr d \<Rightarrow> cluster_effect (init_done c (sys_cluster ?t)))" for r
    using k clean by (simp add: cluster_simps on_init_response_def cluster_effect_def split: sum.split)
  have ok: "\<not> (cl_init_nodes_number (sys_cluster s) < 1 \<or> \<not> truthy (cl_model_name (sys_cluster s)))"
    and c: "c = \<lparr>ic_params = init_scheduler_params (cl_model_name (sys_cluster s)) (cl_init_nodes_number (sys_cluster s))
          (cl_network_type (sys_cluster s) = Local_network),
        ic_nodes = cl_init_nodes_number (sys_cluster s), ic_model = cl_model_name (sys_cluster s),
        ic_info = selected_model_info (sys_cluster s)\<rparr>"
    using Inr by (auto simp: init_cluster_call_def selected_model_info_def split: if_splits)
  have failed: "init_scheduler (Inl e) = Inl e" for e by (simp add: init_scheduler_def typed_data_def)
  have shown: "cl_info (cluster_effect (init_done c x)) = (cl_info x)\<lparr>ci_status := JStr ''waiting'',
        ci_init_nodes_number := JNum (num_of_int (ic_nodes c)), ci_model_name := ic_model c,
        ci_model_info := ic_info c, ci_need_more_nodes := JBool False\<rparr>"
      "cl_nodes (cluster_effect (init_done c x)) = []" "cl_model_name (cluster_effect (init_done c x)) = ic_model c" for x
    using ok c by (simp_all add: init_done_def cluster_effect_def choose_model_def js_or_truthy)
  have fails: "sys_cluster (cluster_step base ?t (Init_response ?k (Inl e))) = sys_cluster ?t" for e
    unfolding answer failed by simp
  have params: "ic_params (sys_inits ?t ! ?k) = init_scheduler_params (cl_model_name (sys_cluster s))
      (cl_init_nodes_number (sys_cluster s)) (cl_network_type (sys_cluster s) = Local_network)"
    unfolding k(2) c by simp
  have accepts: "(\<exists>d. init_scheduler (Inr (stringify reply)) = Inr d) \<longleftrightarrow>
      get_prop reply ''type'' = Inr (JStr ''scheduler_init'')"
    unfolding init_scheduler_def by (rule typed_data_accepts [OF assms(3)])
  show ?thesis
  proof (cases "get_prop reply ''type'' = Inr (JStr ''scheduler_init'')")
    case True
    then obtain d where "init_scheduler (Inr (stringify reply)) = Inr d"
      using accepts by blast
    then have u: "sys_cluster (cluster_step base ?t (Init_response ?k (Inr (stringify reply)))) =
        cluster_effect (init_done c (sys_cluster ?t))" unfolding answer by simp
    show ?thesis
      unfolding Let_def if_not_P [OF ok] if_P [OF True] u shown fails params by (simp add: c)
  next
    case False
    then obtain e where "init_scheduler (Inr (stringify reply)) = Inl e"
      using accepts by (cases "init_scheduler (Inr (stringify reply))") blast+
    then have "sys_cluster (cluster_step base ?t (Init_response ?k (Inr (stringify reply)))) = sys_cluster ?t"
      unfolding answer by simp
    then show ?thesis unfolding Let_def if_not_P [OF ok] if_not_P [OF False] fails params by blast
  qed
qed

text \<open>The backend's answer to a start that failed, after the user has chosen another model.\<close>

definition failed_start :: jsval where
  "failed_start = JObj [(''type'', JStr ''scheduler_init''), (''error'', JStr ''no GPU'')]"

theorem cluster_init_flow_witness:
  "let t = cluster_step [] (cluster_step [] sample_chosen Init_cluster) (Set_model_name (JStr ''n''));
       u = cluster_step [] t (Init_response 0 (Inr (stringify failed_start)))
   in cl_model_name (sys_cluster t) = JStr ''n'' \<and> ci_status (cl_info (sys_cluster u)) = JStr ''waiting''
     \<and> cl_model_name (sys_cluster u) = JStr ''m''"
proof -
  let ?evs = "[Set_model_name (JStr ''n'')]"
  have reach: "cluster_reachable [] Cluster_host sample_chosen"
    unfolding sample_chosen_def by (intro cluster_next cluster_mounted)
  have reply: "json_wf failed_start" "get_prop failed_start ''type'' = Inr (JStr ''scheduler_init'')" by code_simp+
  have t: "sys_cluster (cluster_run [] (cluster_step [] sample_chosen Init_cluster) ?evs) =
      init_cluster\<lparr>cl_model_name := JStr ''n''\<rparr>"
    by (simp add: cluster_run_def sample_chosen_state init_cluster_call_def cluster_simps init_cluster_def cluster_effect_def)
  have "\<not> cl_crashed (sys_cluster (cluster_run [] (cluster_step [] sample_chosen Init_cluster) ?evs))"
    unfolding t by (simp add: init_cluster_def)
  from cluster_init_flow [OF reach _ reply(1) this] show ?thesis
    using t reply(2)
    by (simp add: Let_def sample_chosen_state init_cluster_def cluster_run_def del: stringify.simps cluster_step.simps)
qed

lemma refused_response:
  assumes "hs_tasks st = []" "status \<noteq> 200 \<or> ctype \<noteq> Some ''application/x-ndjson'' \<or> \<not> has_body"
  shows "(\<forall>t \<in> set (hs_tasks (fst (on_http_response cluster_http k status ctype has_body (st, s)))).
      \<exists>l. t = Read_done l) \<and> snd (on_http_response cluster_http k status ctype has_body (st, s)) = s"
proof -
  have t: "\<forall>t \<in> set (hs_tasks (finally_loop k (schedule_reconnect cluster_http v (st')))). \<exists>l. t = Read_done l"
    if "hs_tasks st' = []" for v st'
    using that by (intro finally_read_done) (simp add: schedule_tasks)
  show ?thesis
    using assms t [of "clear_timeout k st"] t [of "(clear_timeout k st)\<lparr>hs_reader := None\<rparr>"]
    by (auto simp: on_http_response_def Let_def cluster_status_change clear_timeout_def)
qed

text \<open>C27: Losing the stream keeps what is shown: a response with the wrong status or type and a stream that ends
  leave the provider's data as it is.\<close>

theorem cluster_survives_end:
  assumes "cluster_reachable base host s"
    and "case ev of Http_end k \<Rightarrow> True
      | Http_response k status ctype b \<Rightarrow> status \<noteq> 200 \<or> ctype \<noteq> Some ''application/x-ndjson'' \<or> \<not> b
      | _ \<Rightarrow> False"
  shows "sys_cluster (cluster_step base s (Stream_event ev)) = sys_cluster s"
proof -
  let ?x = "handle_event (cluster_stream base) cluster_http ev (sys_http s, sys_cluster s)"
  have st: "hs_tasks (sys_http s) = []" "\<not> cl_dirty (sys_cluster s)"
    using reachable_settled [OF assms(1)] by (simp_all add: settled_def)
  have net: "from_network ev" using assms(2) by (cases ev) simp_all
  have "(\<forall>t \<in> set (hs_tasks (fst ?x)). \<exists>l. t = Read_done l) \<and> snd ?x = sys_cluster s"
  proof (cases ev)
    case (Http_response k status ctype b)
    then show ?thesis using refused_response [OF st(1)] assms(2) st(1) by simp
  next
    case (Http_end k)
    then show ?thesis using cancel_read_done [of "sys_http s" k] st(1) by simp
  qed (use assms(2) in simp_all)
  then show ?thesis
    using stream_step [OF net, of base s] read_done_tasks [of ?x] st(2)
    by (simp add: stream_data_def http_step_def cluster_effect_def)
qed

theorem cluster_survives_end_witness:
  "sys_cluster (cluster_step [] (mount_cluster [] Cluster_host) (Stream_event (Http_response 0 500 None True)))
     = sys_cluster (mount_cluster [] Cluster_host)"
  by (rule cluster_survives_end [OF cluster_mounted]) simp

end
