(* ===== verification/View.thy ===== *)
theory View
  imports Js_Value
begin

text \<open>
  Rendered elements, the vocabulary of the component theories.  A component returns the elements
  that its JSX creates: an element has a tag, its props and its children, and a prop is a value, an
  event handler, further elements or an object of props.  Handlers are named by the component's own type of actions, the
  type parameter.  Children and entries that JavaScript leaves out (\<open>false\<close>, \<open>undefined\<close>, \<open>null\<close>)
  are left out of the lists.  A tag of a component of the repository stands for the element before
  that component is rendered.
\<close>

section \<open>Elements\<close>

datatype 'a view =
    VText string
  | VElem string "(string \<times> 'a attr) list" "'a view list"
and 'a attr =
    PVal jsval
  | PAct 'a
  | PView "'a view list"
  | PObj "(string \<times> 'a attr) list"

type_synonym style = "(string \<times> jsval) list"

text \<open>Entries of a style and of a list of props, by the kind of their value.\<close>

abbreviation int_v :: "int \<Rightarrow> jsval" where "int_v i \<equiv> JNum (Num i 0)"
abbreviation dec_v :: "int \<Rightarrow> nat \<Rightarrow> jsval" where "dec_v m k \<equiv> JNum (Num m k)"
abbreviation str_s :: "string \<Rightarrow> string \<Rightarrow> string \<times> jsval" where "str_s k v \<equiv> (k, JStr v)"
abbreviation int_s :: "string \<Rightarrow> int \<Rightarrow> string \<times> jsval" where "int_s k i \<equiv> (k, int_v i)"
abbreviation dec_s :: "string \<Rightarrow> int \<Rightarrow> nat \<Rightarrow> string \<times> jsval" where "dec_s k m d \<equiv> (k, dec_v m d)"
abbreviation obj_s :: "string \<Rightarrow> style \<Rightarrow> string \<times> jsval" where "obj_s k st \<equiv> (k, JObj st)"
abbreviation val_p :: "string \<Rightarrow> jsval \<Rightarrow> string \<times> 'a attr" where "val_p k v \<equiv> (k, PVal v)"
abbreviation str_p :: "string \<Rightarrow> string \<Rightarrow> string \<times> 'a attr" where "str_p k v \<equiv> (k, PVal (JStr v))"
abbreviation int_p :: "string \<Rightarrow> int \<Rightarrow> string \<times> 'a attr" where "int_p k i \<equiv> (k, PVal (int_v i))"
abbreviation dec_p :: "string \<Rightarrow> int \<Rightarrow> nat \<Rightarrow> string \<times> 'a attr" where
  "dec_p k m d \<equiv> (k, PVal (dec_v m d))"
abbreviation bool_p :: "string \<Rightarrow> bool \<Rightarrow> string \<times> 'a attr" where "bool_p k b \<equiv> (k, PVal (JBool b))"
abbreviation obj_p :: "string \<Rightarrow> style \<Rightarrow> string \<times> 'a attr" where "obj_p k st \<equiv> (k, PVal (JObj st))"
abbreviation act_p :: "string \<Rightarrow> 'a \<Rightarrow> string \<times> 'a attr" where "act_p k a \<equiv> (k, PAct a)"
abbreviation view_p :: "string \<Rightarrow> 'a view list \<Rightarrow> string \<times> 'a attr" where "view_p k vs \<equiv> (k, PView vs)"

text \<open>\<open>condition && entry\<close> among children, props and style entries.\<close>

definition only :: "bool \<Rightarrow> 'b list \<Rightarrow> 'b list" where
  "only b xs = (if b then xs else [])"

lemma only_simps [simp]: "only True xs = xs" "only False xs = []"
  by (simp_all add: only_def)

lemma set_only [simp]: "set (only b xs) = (if b then set xs else {})"
  by (simp add: only_def)

text \<open>\<open>{...base, ...more}\<close>: an entry set again keeps its place and takes the new value.\<close>

definition override :: "style \<Rightarrow> style \<Rightarrow> style" where
  "override base more = fold (\<lambda>(k, v). set_member k v) more base"

lemma lookup_set_member: "lookup (set_member l v kvs) k = (if k = l then v else lookup kvs k)"
  by (induction l v kvs rule: set_member.induct) auto

lemma lookup_map_of: "lookup kvs k = (case map_of kvs k of Some v \<Rightarrow> v | None \<Rightarrow> JUndef)"
  by (induction kvs) auto

lemma lookup_absent:
  assumes "k \<notin> fst ` set kvs" shows "lookup kvs k = JUndef"
proof -
  have "map_of kvs k = None" using assms map_of_eq_None_iff[of kvs k] by blast
  then show ?thesis by (simp only: lookup_map_of option.case)
qed

lemma lookup_append:
  "lookup (xs @ ys) k = (if k \<in> fst ` set xs then lookup xs k else lookup ys k)"
proof (cases "map_of xs k")
  case None
  then have "k \<notin> fst ` set xs" using map_of_eq_None_iff[of xs k] by blast
  with None show ?thesis by (simp only: lookup_map_of map_of_append map_add_def) simp
next
  case (Some v)
  then have "k \<in> fst ` set xs" by (metis domI dom_map_of_conv_image_fst)
  with Some show ?thesis by (simp only: lookup_map_of map_of_append map_add_def) simp
qed

lemma lookup_override:
  "lookup (override base more) k =
     (if k \<in> fst ` set more then lookup (rev more) k else lookup base k)"
proof (induction more arbitrary: base rule: rev_induct)
  case (snoc kv more)
  obtain l v where "kv = (l, v)" by (cases kv)
  with snoc show ?case by (cases "k = l") (simp_all add: override_def lookup_set_member)
qed (simp add: override_def)

lemma lookup_rev: "distinct (map fst kvs) \<Longrightarrow> lookup (rev kvs) k = lookup kvs k"
proof (induction kvs)
  case (Cons kv kvs)
  show ?case using Cons lookup_absent[of k kvs]
    by (cases kv) (auto simp: lookup_append image_iff)
qed simp

text \<open>\<open>Infinity\<close>, which a decimal cannot be, stands in animations as its printed form.\<close>

definition infinity_v :: jsval where
  "infinity_v = JStr ''Infinity''"

section \<open>Reading a view\<close>

fun tag_of :: "'a view \<Rightarrow> string" where
  "tag_of (VText s) = ''#text''"
| "tag_of (VElem t ps cs) = t"

fun children_of :: "'a view \<Rightarrow> 'a view list" where
  "children_of (VText s) = []"
| "children_of (VElem t ps cs) = cs"

fun props_of :: "'a view \<Rightarrow> (string \<times> 'a attr) list" where
  "props_of (VText s) = []"
| "props_of (VElem t ps cs) = ps"

definition prop_of :: "string \<Rightarrow> 'a view \<Rightarrow> 'a attr option" where
  "prop_of k v = map_of (rev (props_of v)) k"

text \<open>All elements of a view, those in props included; and all handlers with their event names.\<close>

fun elements :: "'a view \<Rightarrow> 'a view list"
  and elements_list :: "'a view list \<Rightarrow> 'a view list"
  and elements_attr :: "'a attr \<Rightarrow> 'a view list"
  and elements_props :: "(string \<times> 'a attr) list \<Rightarrow> 'a view list" where
  "elements (VText s) = [VText s]"
| "elements (VElem t ps cs) = VElem t ps cs # elements_props ps @ elements_list cs"
| "elements_list [] = []"
| "elements_list (v # vs) = elements v @ elements_list vs"
| "elements_attr (PVal v) = []"
| "elements_attr (PAct a) = []"
| "elements_attr (PView vs) = elements_list vs"
| "elements_attr (PObj ps) = elements_props ps"
| "elements_props [] = []"
| "elements_props ((k, p) # ps) = elements_attr p @ elements_props ps"

definition own_handlers :: "(string \<times> 'a attr) list \<Rightarrow> (string \<times> 'a) list" where
  "own_handlers ps = concat (map (\<lambda>(k, p). case p of PAct a \<Rightarrow> [(k, a)] | _ \<Rightarrow> []) ps)"

definition handlers :: "'a view \<Rightarrow> (string \<times> 'a) list" where
  "handlers v = concat (map (\<lambda>e. own_handlers (props_of e)) (elements v))"

definition texts :: "'a view \<Rightarrow> string list" where
  "texts v = concat (map (\<lambda>e. case e of VText s \<Rightarrow> [s] | _ \<Rightarrow> []) (elements v))"

definition tags :: "'a view \<Rightarrow> string list" where
  "tags v = map tag_of (elements v)"

lemma elements_list_append: "elements_list (vs @ ws) = elements_list vs @ elements_list ws"
  by (induction vs) auto

lemma elements_list_concat: "elements_list vs = concat (map elements vs)"
  by (induction vs) auto

text \<open>The handlers of an element: its own, those of the elements in its props, those of its children.\<close>

definition prop_handlers :: "(string \<times> 'a attr) list \<Rightarrow> (string \<times> 'a) list" where
  "prop_handlers ps = concat (map (\<lambda>e. own_handlers (props_of e)) (elements_props ps))"

lemma handlers_simps [view_simps]:
  "handlers (VText s) = []"
  "handlers (VElem t ps cs) = own_handlers ps @ prop_handlers ps @ concat (map handlers cs)"
  by (induction cs) (simp_all add: handlers_def prop_handlers_def own_handlers_def elements_list_concat)

lemma own_handlers_simps [view_simps]:
  "own_handlers [] = []"
  "own_handlers ((k, PAct a) # ps) = (k, a) # own_handlers ps"
  "own_handlers ((k, PVal v) # ps) = own_handlers ps"
  "own_handlers ((k, PView vs) # ps) = own_handlers ps"
  "own_handlers ((k, PObj qs) # ps) = own_handlers ps"
  by (simp_all add: own_handlers_def)

lemma prop_handlers_simps [view_simps]:
  "prop_handlers [] = []"
  "prop_handlers ((k, PAct a) # ps) = prop_handlers ps"
  "prop_handlers ((k, PVal v) # ps) = prop_handlers ps"
  "prop_handlers ((k, PView vs) # ps) = concat (map handlers vs) @ prop_handlers ps"
  "prop_handlers ((k, PObj qs) # ps) = prop_handlers qs @ prop_handlers ps"
  by (simp_all add: prop_handlers_def handlers_def elements_list_concat map_concat o_def)
     (induction vs; simp add: handlers_def)

section \<open>Comparison\<close>

text \<open>
  \<open>v > i\<close>: \<open>null\<close> counts as zero, \<open>undefined\<close> compares as \<open>NaN\<close>.  The fields that the views
  compare are typed as numbers; texts, arrays and objects in their place are not converted.
\<close>

fun js_gt :: "jsval \<Rightarrow> int \<Rightarrow> bool" where
  "js_gt (JNum n) i = num_gt n i"
| "js_gt (JBool b) i = ((if b then 1 else 0) > i)"
| "js_gt JNull i = (0 > i)"
| "js_gt v i = False"

end
