(* ===== verification/Theme.thy ===== *)
theory Theme
  imports View
begin

text \<open>
  The theme of \<open>themes/index.tsx\<close>: the palette of \<open>palette.ts\<close>, the text variants of
  \<open>typography.ts\<close>, the shadows of \<open>shadows.ts\<close> and the spacing function, as the options given to
  \<open>createTheme\<close>.  What Material UI adds to them (contrast colours, the variants that are not set,
  its own components) is not modelled; the entries the source sets are kept by it.
\<close>

section \<open>Spacing\<close>

text \<open>\<open>`${(factor * 8) / HTML_FONT_SIZE}rem`\<close>; a sixteenth is \<open>625 / 10 ^ 4\<close>.\<close>

definition html_font_size :: int where
  "html_font_size = 16"

fun divide_16 :: "number \<Rightarrow> number" where
  "divide_16 (Num m k) = normalise (m * 625) (k + 4)"

fun spacing_of :: "number \<Rightarrow> string" where
  "spacing_of (Num m k) = print_number (divide_16 (Num (m * 8) k)) @ ''rem''"

abbreviation spacing :: "int \<Rightarrow> jsval" where "spacing i \<equiv> JStr (spacing_of (Num i 0))"

section \<open>Palette\<close>

definition white :: jsval where "white = JStr ''#ffffff''"

definition black :: jsval where "black = JStr ''#000000''"

definition brand_scale :: style where
  "brand_scale =
     [str_s ''500'' ''#05aa6c'', str_s ''100'' ''#cdeee4'', str_s ''50'' ''#dff0e7'']"

definition grey_scale :: style where
  "grey_scale =
     [str_s ''50'' ''#FAFAFA'', str_s ''100'' ''#F7F7F7'', str_s ''200'' ''#F1F1F1'',
      str_s ''250'' ''#e4e4e4'', str_s ''300'' ''#D6D6D6'', str_s ''400'' ''#BBBBBB'',
      str_s ''500'' ''#A0A0A0'', str_s ''600'' ''#858585'', str_s ''700'' ''#6A6969'',
      str_s ''800'' ''#4F4E4E'', str_s ''900'' ''#343333'', str_s ''1000'' ''#191818'']"

definition red_scale :: style where
  "red_scale =
     [str_s ''100'' ''#f5e5dd'', str_s ''200'' ''#efbcb3'', str_s ''400'' ''#f06a64'',
      str_s ''500'' ''#d92d20'']"

definition orange_scale :: style where
  "orange_scale =
     [str_s ''100'' ''#f5e9cf'', str_s ''200'' ''#e99f55'', str_s ''500'' ''#ec7804'']"

definition green_scale :: style where
  "green_scale =
     [str_s ''100'' ''#e0f0e2'', str_s ''200'' ''#b0dbc3'', str_s ''500'' ''#079455'']"

definition shade :: "style \<Rightarrow> string \<Rightarrow> jsval" where
  "shade c k = lookup c k"

definition palette_primary :: style where
  "palette_primary =
     [(''main'', shade grey_scale ''900''),
      (''darker'', shade grey_scale ''1000''),
      (''dark'', shade grey_scale ''1000''),
      (''light'', shade grey_scale ''800''),
      (''lighter'', shade grey_scale ''700''),
      (''contrastText'', shade grey_scale ''100''),
      (''chip'', shade grey_scale ''100''),
      (''chipText'', shade grey_scale ''800'')]"

definition palette_secondary :: style where
  "palette_secondary =
     [(''main'', shade grey_scale ''100''),
      (''darker'', shade grey_scale ''250''),
      (''dark'', shade grey_scale ''200''),
      (''light'', shade grey_scale ''200''),
      (''lighter'', shade grey_scale ''300''),
      (''contrastText'', shade grey_scale ''900''),
      (''chip'', shade brand_scale ''100''),
      (''chipText'', shade brand_scale ''500'')]"

definition palette_brand :: style where
  "palette_brand =
     [(''main'', shade brand_scale ''500''),
      (''darker'', shade brand_scale ''500''),
      (''dark'', shade brand_scale ''500''),
      (''light'', shade brand_scale ''500''),
      (''lighter'', shade brand_scale ''50''),
      (''contrastText'', shade grey_scale ''100''),
      (''chip'', shade brand_scale ''100''),
      (''chipText'', shade brand_scale ''500'')]"

definition palette_info :: style where
  "palette_info =
     [(''main'', white),
      (''dark'', shade grey_scale ''500''),
      (''darker'', shade grey_scale ''250''),
      (''light'', shade grey_scale ''100''),
      (''lighter'', shade grey_scale ''100''),
      (''contrastText'', shade grey_scale ''800''),
      (''chip'', shade grey_scale ''200''),
      (''chipText'', shade grey_scale ''800'')]"

definition palette_error :: style where
  "palette_error =
     [(''main'', shade red_scale ''500''),
      (''dark'', shade red_scale ''500''),
      (''darker'', shade red_scale ''500''),
      (''light'', shade red_scale ''400''),
      (''lighter'', shade red_scale ''100''),
      (''contrastText'', shade grey_scale ''100''),
      (''chip'', shade red_scale ''100''),
      (''chipText'', shade red_scale ''500'')]"

definition palette_warning :: style where
  "palette_warning =
     [(''main'', shade orange_scale ''500''),
      (''dark'', shade orange_scale ''500''),
      (''darker'', shade orange_scale ''500''),
      (''light'', shade orange_scale ''500''),
      (''lighter'', shade orange_scale ''100''),
      (''contrastText'', shade grey_scale ''100''),
      (''chip'', shade orange_scale ''100''),
      (''chipText'', shade orange_scale ''500'')]"

definition palette_success :: style where
  "palette_success =
     [(''main'', shade green_scale ''500''),
      (''dark'', shade green_scale ''500''),
      (''darker'', shade green_scale ''500''),
      (''light'', shade green_scale ''500''),
      (''lighter'', shade green_scale ''100''),
      (''contrastText'', shade grey_scale ''100''),
      (''chip'', shade red_scale ''100''),
      (''chipText'', shade brand_scale ''500'')]"

definition palette_text :: style where
  "palette_text =
     [(''primary'', shade grey_scale ''900''),
      (''secondary'', shade grey_scale ''700''),
      (''disabled'', shade grey_scale ''500'')]"

definition palette_background :: style where
  "palette_background =
     [(''default'', white),
      (''paper'', white),
      (''area'', shade grey_scale ''200'')]"

definition palette :: jsval where
  "palette = JObj
     [str_s ''mode'' ''light'',
      obj_s ''common'' [(''white'', white), (''black'', black)],
      obj_s ''grey'' grey_scale,
      obj_s ''primary'' palette_primary,
      obj_s ''secondary'' palette_secondary,
      obj_s ''brand'' palette_brand,
      obj_s ''info'' palette_info,
      obj_s ''error'' palette_error,
      obj_s ''warning'' palette_warning,
      obj_s ''success'' palette_success,
      obj_s ''text'' palette_text,
      (''divider'', shade grey_scale ''250''),
      obj_s ''background'' palette_background]"

text \<open>\<open>palette[group]\<close>, destructured afterwards: a \<open>TypeError\<close> where there is no such group.\<close>

definition palette_entry :: "jsval \<Rightarrow> string \<Rightarrow> js_error + jsval" where
  "palette_entry name k = bind_sum (get_prop palette (js_to_string name)) (\<lambda>g. get_prop g k)"

definition color_of :: "string \<Rightarrow> string \<Rightarrow> jsval" where
  "color_of name k = (case palette_entry (JStr name) k of Inr v \<Rightarrow> v | Inl e \<Rightarrow> JUndef)"

lemmas palette_defs = palette_def palette_entry_def color_of_def shade_def white_def black_def
  brand_scale_def grey_scale_def red_scale_def orange_scale_def green_scale_def
  palette_primary_def palette_secondary_def palette_brand_def palette_info_def
  palette_error_def palette_warning_def palette_success_def palette_text_def palette_background_def

section \<open>Typography\<close>

definition html_font_family :: string where
  "html_font_family = join '',''
     [''Inter'', ''-apple-system'', ''BlinkMacSystemFont'',
      [CHR 0x22] @ ''Segoe UI'' @ [CHR 0x22], ''Roboto'', [CHR 0x22] @ ''Helvetica Neue'' @ [CHR 0x22],
      ''Arial'', ''sans-serif'', [CHR 0x22] @ ''Apple Color Emoji'' @ [CHR 0x22],
      [CHR 0x22] @ ''Segoe UI Emoji'' @ [CHR 0x22], [CHR 0x22] @ ''Segoe UI Symbol'' @ [CHR 0x22]]"

definition text_h1 :: style where
  "text_h1 =
     [str_s ''fontSize'' ''1.75rem'', str_s ''fontStyle'' ''normal'',
      int_s ''fontWeight'' 700, dec_s ''lineHeight'' 15 1]"

definition text_h2 :: style where
  "text_h2 =
     [str_s ''fontSize'' ''1.25rem'', str_s ''fontStyle'' ''normal'',
      int_s ''fontWeight'' 700, dec_s ''lineHeight'' 15 1]"

definition text_h3 :: style where
  "text_h3 =
     [str_s ''fontSize'' ''1rem'', str_s ''fontStyle'' ''normal'',
      int_s ''fontWeight'' 700, dec_s ''lineHeight'' 15 1]"

definition text_subtitle1 :: style where
  "text_subtitle1 =
     [str_s ''fontSize'' ''0.875rem'', str_s ''fontStyle'' ''normal'',
      int_s ''fontWeight'' 700, dec_s ''lineHeight'' 15714285714285714 16]"

definition text_subtitle2 :: style where
  "text_subtitle2 =
     [str_s ''fontSize'' ''0.8125rem'', str_s ''fontStyle'' ''normal'',
      int_s ''fontWeight'' 700, dec_s ''lineHeight'' 15384615384615385 16]"

definition text_body1 :: style where
  "text_body1 =
     [str_s ''fontSize'' ''0.875rem'', str_s ''fontStyle'' ''normal'',
      int_s ''fontWeight'' 500, dec_s ''lineHeight'' 15714285714285714 16]"

definition text_body2 :: style where
  "text_body2 =
     [str_s ''fontSize'' ''0.75rem'', str_s ''fontStyle'' ''normal'',
      int_s ''fontWeight'' 500, dec_s ''lineHeight'' 15 1]"

definition typography :: jsval where
  "typography = JObj
     [str_s ''fontFamily'' html_font_family,
      obj_s ''h1'' text_h1,
      obj_s ''h2'' text_h2,
      obj_s ''h3'' text_h3,
      (''h4'', JUndef), (''h5'', JUndef), (''h6'', JUndef),
      obj_s ''subtitle1'' text_subtitle1,
      obj_s ''subtitle2'' text_subtitle2,
      obj_s ''body1'' text_body1,
      obj_s ''body2'' text_body2,
      int_s ''fontSize'' 12,
      int_s ''fontWeightLight'' 400, int_s ''fontWeightRegular'' 400, int_s ''fontWeightMedium'' 500,
      int_s ''fontWeightBold'' 700,
      int_s ''htmlFontSize'' html_font_size]"

text \<open>A number of \<open>typography\<close>, such as the font weights.\<close>

definition typography_value :: "string \<Rightarrow> jsval" where
  "typography_value k = (case get_prop typography k of Inr v \<Rightarrow> v | Inl e \<Rightarrow> JUndef)"

section \<open>Shadows\<close>

definition overlays :: style where
  "overlays =
     [str_s ''shadowXSmall'' ''0px 1px 2px 0px rgba(16, 24, 40, 0.05)'',
      str_s ''shadowSmall'' ''0px 1px 2px 0px rgba(49, 49, 48, 0.05)'',
      str_s ''shadowMiddle'' ''0px 8px 8px -4px rgba(52, 51, 51, 0.03), 0px 20px 24px -4px rgba(52, 51, 51, 0.08)'',
      str_s ''shadowInput'' ''none'',
      str_s ''shadowInputActive'' ''0px 0px 0px 4px rgba(49, 49, 48, 0.05), 0px 1px 2px 0px rgba(49, 49, 48, 0.05)'',
      str_s ''shadowInputError'' ''0px 0px 0px 4px rgba(221, 82, 76, 0.12), 0px 1px 2px 0px rgba(221, 82, 76, 0.05)'',
      str_s ''buttonShadeDefault'' ''0px 1px 2px 0px rgba(49, 49, 48, 0.05)'',
      str_s ''buttonShadeActiveLight'' ''0px 0px 0px 4px rgba(49, 49, 48, 0.05), 0px 1px 2px 0px rgba(49, 49, 48, 0.05)'',
      str_s ''buttonShadeActiveDark'' ''0px 0px 0px 4px rgba(49, 49, 48, 0.24), 0px 1px 2px 0px rgba(49, 49, 48, 0.32)'',
      str_s ''buttonShadeBrand'' ''0 1px 2px 0 rgba(7, 139, 89, 0.10), 0 0 0 4px rgba(7, 139, 89, 0.10)'',
      str_s ''buttonShadeError'' ''0px 0px 0px 4px rgba(221, 82, 76, 0.12), 0px 1px 2px 0px rgba(221, 82, 76, 0.05)'',
      str_s ''cardHover'' ''0px 4px 16px 0px rgba(160, 160, 160, 0.25)'']"

section \<open>The theme and its provider\<close>

text \<open>
  The options given to \<open>createTheme\<close>; the spacing function stands beside them.
\<close>

definition theme_options :: style where
  "theme_options =
     [(''palette'', palette), (''typography'', typography), obj_s ''overlays'' overlays]"

definition theme_provider_view :: "'a view list \<Rightarrow> 'a view" where
  "theme_provider_view children =
     VElem ''ThemeProvider'' [obj_p ''theme'' [obj_s ''$$material'' theme_options]]
       [VElem ''SnackbarProvider'' []
          [VElem ''LocalizationProvider''
             [str_p ''dateAdapter'' ''AdapterDayjs'', obj_p ''localeText'' [str_s ''okButtonLabel'' ''Apply'']]
             children]]"

end
