(* ===== verification/Node_List.thy ===== *)
theory Node_List
  imports Chat Cluster Theme
begin

text \<open>
  \<open>components/inputs/node-list.tsx\<close>: the list of the cluster's nodes, with placeholders for the
  nodes that have not joined and, in the menu, dashes between the entries.
\<close>

section \<open>Styles\<close>

datatype node_list_variant = List_variant | Menu_variant

fun variant_name :: "node_list_variant \<Rightarrow> string" where
  "variant_name List_variant = ''list''"
| "variant_name Menu_variant = ''menu''"

definition node_list_root_style :: style where
  "node_list_root_style =
     [str_s ''position'' ''relative'', int_s ''flex'' 1, (''gap'', JStr (spacing_of (Num 15 1))),
      str_s ''overflowX'' ''hidden'', str_s ''overflowY'' ''auto'']"

definition list_style :: "node_list_variant \<Rightarrow> style" where
  "list_style variant =
     [(''gap'', JStr (spacing_of (if variant = List_variant then Num 15 1 else Num 0 0)))]"

definition list_item_style :: style where
  "list_item_style =
     [str_s ''flex'' ''none'', (''gap'', spacing 1), str_s ''backgroundColor'' ''transparent'',
      (''padding'', spacing 2), str_s ''overflow'' ''visible'']"

definition list_item_icon_style :: style where
  "list_item_icon_style =
     [str_s ''color'' ''inherit'', str_s ''fontSize'' ''1.5rem'', str_s ''width'' ''1em'',
      str_s ''height'' ''1em'', str_s ''display'' ''inline-flex'', str_s ''alignItems'' ''center'',
      str_s ''justifyContent'' ''center'']"

definition list_item_text_style :: style where
  "list_item_text_style =
     [str_s ''position'' ''relative'', str_s ''display'' ''block'', str_s ''height'' ''100%'']"

definition list_item_status_style :: "node_list_variant \<Rightarrow> style" where
  "list_item_status_style variant =
     [str_s ''fontSize'' (if variant = List_variant then ''1.5rem'' else ''1em''),
      str_s ''width'' ''1em'', str_s ''height'' ''1em'', str_s ''display'' ''inline-flex'',
      str_s ''alignItems'' ''center'', str_s ''justifyContent'' ''center'',
      str_s ''transformOrigin'' ''center'']"

definition dash_root_style :: style where
  "dash_root_style =
     [str_s ''position'' ''relative'', str_s ''width'' ''1.5rem'', str_s ''height'' ''3.25rem'',
      str_s ''overflow'' ''hidden'']"

section \<open>The dash\<close>

definition dash_view :: "bool \<Rightarrow> 'a view" where
  "dash_view animate =
     (let width = 2; height = 256 in
      VElem ''DashRoot'' []
        [VElem ''svg''
           [obj_p ''style'' [str_s ''position'' ''absolute'', int_s ''top'' 0, str_s ''left'' ''50%'',
                             str_s ''transform'' ''translateX(-50%)''],
            int_p ''width'' width, int_p ''height'' height,
            str_p ''viewBox'' (''0 0 2 '' @ print_number (num_of_int height)),
            str_p ''fill'' ''none'']
           [VElem ''line''
              [str_p ''x1'' ''1'', str_p ''y1'' ''0'', str_p ''x2'' ''1'', int_p ''y2'' height,
               str_p ''stroke'' ''#9B9B9B'', str_p ''strokeWidth'' ''2'',
               str_p ''strokeDasharray'' ''4'']
              (only animate
                [VElem ''animate''
                   [str_p ''attributeName'' ''stroke-dashoffset'', int_p ''from'' height,
                    str_p ''to'' ''0'',
                    str_p ''dur'' (print_number (num_of_int (height div 32)) @ ''s''),
                    str_p ''repeatCount'' ''indefinite''] []])]])"

section \<open>One node\<close>

text \<open>
  The maps over the statuses.  A status that is none of the three has no entry, and reading the
  colour of \<open>undefined\<close> throws.
\<close>

definition status_color_map :: style where
  "status_color_map =
     [str_s ''waiting'' ''info'', str_s ''available'' ''success'', str_s ''failed'' ''error'']"

definition status_icon_map :: "(string \<times> string) list" where
  "status_icon_map =
     [(''waiting'', ''IconLoader''), (''available'', ''IconCheck''), (''failed'', ''IconX'')]"

definition known_status :: "jsval \<Rightarrow> bool" where
  "known_status v = (v \<in> {JStr ''waiting'', JStr ''available'', JStr ''failed''})"

definition status_main_color :: "jsval \<Rightarrow> js_error + jsval" where
  "status_main_color status =
     (if status = JStr ''waiting'' then Inr (shade grey_scale ''800'')
      else palette_entry (lookup status_color_map (js_to_string status)) ''main'')"

definition node_title :: "node_info \<Rightarrow> string" where
  "node_title n =
     (let parts =
        [js_or (js_and (ni_gpu_number n)
                  (js_and (JBool (js_gt (ni_gpu_number n) 1))
                     (JStr (js_to_string (ni_gpu_number n) @ ''x'')))) (JStr []),
         ni_gpu_name n,
         js_or (js_and (ni_gpu_memory n) (JStr (js_to_string (ni_gpu_memory n) @ ''GB''))) (JStr [])]
      in join '' '' (item_strings (filter truthy parts)))"

definition node_status_view :: "node_list_variant \<Rightarrow> jsval \<Rightarrow> jsval \<Rightarrow> 'a view" where
  "node_status_view variant status main =
     VElem ''ListItemStatus''
       ([obj_p ''sx'' [(''color'', main)]]
        @ only (status = JStr ''waiting'')
            [obj_p ''animate'' [int_s ''rotate'' 360],
             obj_p ''transition'' [(''repeat'', infinity_v), str_s ''ease'' ''linear'',
                                   int_s ''duration'' 2]]
        @ [str_p ''variant'' (variant_name variant), val_p ''data-debug-status'' status])
       (only (variant = List_variant)
          [VElem (case map_of status_icon_map (js_to_string status) of Some i \<Rightarrow> i | None \<Rightarrow> [])
             [int_p ''size'' 18] []]
        @ only (variant = Menu_variant) [VElem ''IconCircleFilled'' [int_p ''size'' 10] []])"

definition node_view :: "node_list_variant \<Rightarrow> node_info option \<Rightarrow> js_error + 'a view" where
  "node_view variant node =
     (let status = (case node of Some n \<Rightarrow> ni_status n | None \<Rightarrow> JStr ''waiting'');
          menu = (variant = Menu_variant) in
      bind_sum (status_main_color status) (\<lambda>main. Inr
        (VElem ''ListItem''
          [str_p ''component'' (if variant = List_variant then ''Paper'' else ''Box''),
           str_p ''variant'' ''outlined'',
           obj_p ''sx'' [(''opacity'', if status = JStr ''failed'' then dec_v 2 1 else JUndef),
                         (''padding'', if menu then int_v 0 else JUndef),
                         (''height'', if menu then JStr ''2.5rem'' else JUndef)]]
          ([VElem ''ListItemIcon'' [] [VElem ''IconDevices2'' [] []],
            VElem ''ListItemText'' []
              [VElem ''Stack''
                 [val_p ''sx''
                    (if menu then JObj [str_s ''position'' ''absolute'', str_s ''top'' ''50%'',
                                        int_s ''left'' 0, int_s ''right'' 0,
                                        str_s ''transform'' ''translateY(-50%)'']
                     else JUndef)]
                 (case node of
                    Some n \<Rightarrow> [VElem ''Typography''
                                 [str_p ''variant'' ''body1'', obj_p ''sx'' [int_s ''fontWeight'' 500]]
                                 [VText (node_title n)]]
                  | None \<Rightarrow> [VElem ''Skeleton'' [str_p ''height'' ''1lh''] []])]]
           @ only (node \<noteq> None) [node_status_view variant status main]))))"

section \<open>The list\<close>




text \<open>
  \<open>Array.from({length: initNodesNumber - nodesNumber})\<close>, drawn while more nodes are expected than
  are listed.
\<close>

definition placeholders :: "cluster_info \<Rightarrow> nat \<Rightarrow> nat" where
  "placeholders info n =
     (if ci_status info \<noteq> JStr ''idle'' \<and> js_gt (ci_init_nodes_number info) (int n)
      then (case ci_init_nodes_number info of JNum m \<Rightarrow> nat (num_floor m - int n) | JBool b \<Rightarrow> 1 - n
            | _ \<Rightarrow> 0)
      else 0)"


text \<open>
  What can throw while a node list is drawn, in whichever variant: the colour of a node whose status has
  none, and \<open>Array.from\<close> for more placeholders than an array can have.
\<close>

definition node_drawable :: "node_info \<Rightarrow> bool" where
  "node_drawable n = (case status_main_color (ni_status n) of Inl e \<Rightarrow> False | Inr c \<Rightarrow> True)"

definition nodes_drawable :: "cluster_state \<Rightarrow> bool" where
  "nodes_drawable s =
     (list_all node_drawable (cl_nodes s) \<and> placeholders (cl_info s) (length (cl_nodes s)) < 2 ^ 32)"

section \<open>Properties\<close>









lemma status_main_color_ok:
  "(\<exists>c. status_main_color v = Inr c) \<longleftrightarrow>
     js_to_string v \<in> {''waiting'', ''available'', ''failed''}"
  by (cases "v = JStr ''waiting''")
     (auto simp: status_main_color_def palette_entry_def palette_def status_color_map_def)

lemma node_drawable_view: "node_drawable n \<longleftrightarrow> (\<exists>v. node_view variant (Some n) = Inr v)"
  by (auto simp: node_drawable_def node_view_def Let_def bind_sum_Inr_iff split: sum.split)

text \<open>C38: A node is drawn unless its status is none of the three names; then reading the status
  colour throws while rendering.  After a status message whose nodes carry known statuses every
  listed node is drawn, the ones kept as failed included.\<close>

theorem merged_nodes_drawn:
  assumes "map_sum_list node_of_js xs = Inr new"
    and "list_all (\<lambda>n. known_status (ni_status n)) (new @ prev)"
    and "update_nodes (JArr xs) prev = Inr ns"
  shows "list_all (\<lambda>n. \<exists>v. node_view variant (Some n) = Inr v) ns"
proof -
  have known: "known_status v \<Longrightarrow> \<exists>c. status_main_color v = Inr c" for v
    by (auto simp: status_main_color_ok known_status_def)
  have "list_all (\<lambda>n. known_status (ni_status n)) ns"
    using assms
    by (auto simp: update_nodes_def merge_nodes_def offline_of_def Let_def list_all_iff
                   known_status_def split: if_splits)
  then show ?thesis
    using known by (fastforce simp: node_view_def Let_def list_all_iff bind_sum_Inr_iff)
qed

definition listed_node :: jsval where
  "listed_node = JObj [str_s ''node_id'' ''a'', str_s ''status'' ''available'']"

theorem merged_nodes_drawn_witness:
  "\<exists>ns. update_nodes (JArr [listed_node]) [] = Inr ns \<and> ns \<noteq> [] \<and>
     list_all (\<lambda>n. \<exists>v. node_view List_variant (Some n) = Inr (v :: unit view)) ns"
proof -
  let ?n = "\<lparr>ni_id = JStr ''a'', ni_status = JStr ''available'', ni_gpu_number = int_v 1,
     ni_gpu_name = JStr [], ni_gpu_memory = int_v 0\<rparr>"
  have new: "map_sum_list node_of_js [listed_node] = Inr [?n]"
    "list_all (\<lambda>n. known_status (ni_status n)) ([?n] @ [])" by code_simp+
  have "update_nodes (JArr [listed_node]) [] = Inr [?n]" by code_simp
  then show ?thesis
    using merged_nodes_drawn[OF new, where ns = "[?n]" and variant = List_variant] by auto
qed

end
