(* ===== verification/Doubles.thy ===== *)
theory Doubles
  imports Json_Roundtrip "HOL-Library.Log_Nat"
begin

text \<open>
  The integers among JavaScript's numbers: a double has 53 significant bits, an integer between two
  doubles is rounded to the nearer one and a tie to the even one, and beyond the largest double
  there is \<open>Infinity\<close>.  \<open>String\<close> prints the shortest digits that read back as the same double, with
  an exponent from \<open>10 ^ 21\<close> on.  Fractions stay decimals.
\<close>

section \<open>Rounding\<close>

definition half_even :: "nat \<Rightarrow> nat \<Rightarrow> nat" where
  "half_even n d =
     (let q = n div d; r = n mod d in if 2 * r < d \<or> (2 * r = d \<and> even q) then q else Suc q)"

text \<open>The number of bits below the first 53.\<close>

definition spare_bits :: "nat \<Rightarrow> nat" where
  "spare_bits n = floorlog 2 n - 53"

definition round_nat :: "nat \<Rightarrow> nat" where
  "round_nat n = half_even n (2 ^ spare_bits n) * 2 ^ spare_bits n"

definition overflow_bound :: nat where
  "overflow_bound = 2 ^ 1024 - 2 ^ 970"

definition is_double :: "nat \<Rightarrow> bool" where
  "is_double n = (round_nat n = n \<and> n < overflow_bound)"

datatype double = Fin number | Inf | Neg_inf | NaN

fun to_double :: "number \<Rightarrow> double" where
  "to_double (Num m 0) =
     (if nat \<bar>m\<bar> < overflow_bound then Fin (num_of_int (sgn m * int (round_nat (nat \<bar>m\<bar>))))
      else if 0 < m then Inf else Neg_inf)"
| "to_double (Num m (Suc k)) = Fin (Num m (Suc k))"

section \<open>Texts\<close>

text \<open>
  The shortest decimal \<open>m * 10 ^ j\<close> that is rounded to \<open>n\<close>, of two the nearer one; the search goes
  down from the given \<open>j\<close>.
\<close>

fun shortest :: "nat \<Rightarrow> nat \<Rightarrow> nat \<times> nat" where
  "shortest n 0 = (n, 0)"
| "shortest n (Suc j) =
     (let u = 10 ^ Suc j; lo = n div u; hi = Suc lo;
          reads = (\<lambda>c. 0 < c \<and> c * u < overflow_bound \<and> round_nat (c * u) = n)
      in if reads lo \<and> (\<not> reads hi \<or> 2 * (n mod u) < u \<or> (2 * (n mod u) = u \<and> even lo)) then (lo, Suc j)
         else if reads hi then (hi, Suc j)
         else shortest n j)"

definition exponent_text :: "nat \<Rightarrow> nat \<Rightarrow> string" where
  "exponent_text m j =
     (let ds = nat_digits m; e = length ds - 1 + j
      in hd ds # (if tl ds = [] then [] else CHR ''.'' # tl ds) @ ''e+'' @ nat_digits e)"

definition nat_text :: "nat \<Rightarrow> string" where
  "nat_text n =
     (let (m, j) = shortest n (length (nat_digits n))
      in if length (nat_digits m) + j \<le> 21 then nat_digits (m * 10 ^ j) else exponent_text m j)"

fun text_of_double :: "double \<Rightarrow> string" where
  "text_of_double (Fin (Num m 0)) = (if m < 0 then ''-'' else []) @ nat_text (nat \<bar>m\<bar>)"
| "text_of_double (Fin (Num m (Suc k))) = print_number (Num m (Suc k))"
| "text_of_double Inf = ''Infinity''"
| "text_of_double Neg_inf = ''-Infinity''"
| "text_of_double NaN = ''NaN''"

section \<open>Doubles are fixed\<close>

lemma floorlog_two: "0 < n \<Longrightarrow> 2 ^ (floorlog 2 n - 1) \<le> n" "0 < n \<Longrightarrow> n < 2 ^ floorlog 2 n"
  using floorlog_bounds [of n 2] by simp_all

lemma floorlog_less: "n < 2 ^ k \<Longrightarrow> floorlog 2 n \<le> k"
  using floorlog_leI [of n 2 k] by (cases "n = 0") (simp_all add: floorlog_def)

lemma spare_zero: "n < 2 ^ 53 \<Longrightarrow> spare_bits n = 0"
  using floorlog_less [of n 53] by (simp add: spare_bits_def)

lemma round_nat_small: "n < 2 ^ 53 \<Longrightarrow> round_nat n = n"
  by (simp add: round_nat_def spare_zero half_even_def)

lemma round_nat_0 [simp]: "round_nat 0 = 0"
  by (simp add: round_nat_small)

lemma bound_pos [simp]: "0 < overflow_bound"
  by (simp add: overflow_bound_def)

lemma half_even_dvd: "d dvd n \<Longrightarrow> 0 < d \<Longrightarrow> half_even n d * d = n"
  by (auto simp: half_even_def)

lemma spare_bounds:
  assumes "0 < spare_bits n"
  shows "2 ^ (52 + spare_bits n) \<le> n" "n < 2 ^ (53 + spare_bits n)"
proof -
  have L: "floorlog 2 n = 53 + spare_bits n" using assms by (simp add: spare_bits_def)
  then have "0 < n" by (cases "n = 0") (simp_all add: floorlog_def)
  from floorlog_two [OF this] L show "2 ^ (52 + spare_bits n) \<le> n" "n < 2 ^ (53 + spare_bits n)" by simp_all
qed

lemma half_even_bounds:
  assumes "0 < spare_bits n"
  shows "2 ^ 52 \<le> half_even n (2 ^ spare_bits n)" "half_even n (2 ^ spare_bits n) \<le> 2 ^ 53"
proof -
  let ?d = "2 ^ spare_bits n :: nat"
  have "2 ^ 52 * ?d \<le> n" "n < 2 ^ 53 * ?d" using spare_bounds [OF assms] by (simp_all only: power_add)
  then have "2 ^ 52 \<le> n div ?d" "n div ?d < 2 ^ 53"
    by (simp_all only: less_eq_div_iff_mult_less_eq less_mult_imp_div_less zero_less_power pos2)
  then show "2 ^ 52 \<le> half_even n ?d" "half_even n ?d \<le> 2 ^ 53"
    unfolding half_even_def Let_def by (simp_all only: Suc_le_eq split: if_split) auto
qed

text \<open>At most 53 bits and zeros: such a number is its own rounding.\<close>

lemma spare_dvd:
  assumes "n = q * 2 ^ k" "q \<le> 2 ^ 53"
  shows "2 ^ spare_bits n dvd n"
proof (cases "spare_bits n \<le> k")
  case True
  then show ?thesis using assms(1) by (simp add: le_imp_power_dvd)
next
  case False
  then have "0 < spare_bits n" "k + 53 \<le> 52 + spare_bits n" by simp_all
  from spare_bounds(1) [OF this(1)] have low: "2 ^ (52 + spare_bits n) \<le> n" .
  have "n \<le> 2 ^ 53 * 2 ^ k" using assms by (simp only: mult_le_mono1)
  also have "\<dots> = 2 ^ (k + 53)" by (simp only: power_add mult.commute)
  also have "\<dots> \<le> 2 ^ (52 + spare_bits n)" using \<open>k + 53 \<le> _\<close> by (intro power_increasing) simp_all
  finally have "n = 2 ^ (52 + spare_bits n)" using low by (rule order_antisym)
  then show ?thesis by (metis le_add2 le_imp_power_dvd)
qed

lemma round_nat_fixed: "n = q * 2 ^ k \<Longrightarrow> q \<le> 2 ^ 53 \<Longrightarrow> round_nat n = n"
  unfolding round_nat_def by (intro half_even_dvd spare_dvd [of n q k]) simp_all

lemma half_even_le: "half_even n (2 ^ spare_bits n) \<le> 2 ^ 53"
proof (cases "spare_bits n = 0")
  case True
  then have "floorlog 2 n \<le> 53" by (simp add: spare_bits_def)
  moreover have "n < 2 ^ floorlog 2 n" by (cases "n = 0") (simp_all add: floorlog_two)
  ultimately have "n < 2 ^ 53" by (meson less_le_trans one_le_numeral power_increasing)
  then show ?thesis by (simp add: True half_even_def)
qed (use half_even_bounds(2) in blast)

lemma round_nat_form: "\<exists>q k. round_nat n = q * 2 ^ k \<and> q \<le> 2 ^ 53"
  unfolding round_nat_def using half_even_le by blast

lemma round_nat_idem [simp]: "round_nat (round_nat n) = round_nat n"
  using round_nat_form [of n] round_nat_fixed by metis

lemma round_nat_pos: "1 \<le> n \<Longrightarrow> 1 \<le> round_nat n"
proof (cases "spare_bits n = 0")
  case True
  assume "1 \<le> n"
  then show ?thesis using True by (simp add: round_nat_def half_even_def)
next
  case False
  then have "2 ^ 52 \<le> half_even n (2 ^ spare_bits n)" using half_even_bounds(1) by blast
  then have "half_even n (2 ^ spare_bits n) \<noteq> 0" by (metis not_le zero_less_numeral zero_less_power)
  then show ?thesis by (simp add: round_nat_def)
qed

text \<open>Below the bound rounding stays below it, and one more than a double is below it.\<close>

lemma spare_bits_le: "n < 2 ^ k \<Longrightarrow> spare_bits n \<le> k - 53"
  using floorlog_less [of n k] by (simp add: spare_bits_def)

lemma half_even_below:
  assumes "n < q * (2 * t) + t" shows "half_even n (2 * t) \<le> q"
proof (cases "n div (2 * t) < q")
  case True
  then show ?thesis by (simp add: half_even_def Let_def)
next
  case False
  let ?m = "n div (2 * t)"
  have "t \<noteq> 0" using assms False by (cases "t = 0") simp_all
  have n: "n = ?m * (2 * t) + n mod (2 * t)" by (rule div_mult_mod_eq [symmetric])
  have "q * (2 * t) \<le> ?m * (2 * t)" using False by (intro mult_le_mono1) simp
  then have r: "n mod (2 * t) < t" using assms n by linarith
  have "?m * (2 * t) < Suc q * (2 * t)" using assms n by simp
  then have "?m < Suc q" by (simp only: mult_less_cancel2)
  then have "?m = q" using False by simp
  then show ?thesis using r by (simp add: half_even_def Let_def)
qed

text \<open>The largest double is \<open>2 ^ 1024 - 2 ^ 971\<close>.\<close>

definition largest :: nat where
  "largest = (2 ^ 53 - 1) * 2 ^ 971"

lemma bound_largest: "overflow_bound = (2 ^ 53 - 1) * (2 * 2 ^ 970) + 2 ^ 970" "largest + 1 < overflow_bound"
    "overflow_bound < 2 ^ 1024" "2 ^ 1023 \<le> largest" "largest = (2 ^ 53 - 1) * (2 * 2 ^ 970)"
  by (simp_all add: overflow_bound_def largest_def)

lemma round_below:
  assumes "n < overflow_bound" shows "round_nat n \<le> largest"
proof (cases "spare_bits n \<le> 970")
  case True
  have "round_nat n \<le> 2 ^ 53 * 2 ^ 970"
    unfolding round_nat_def using True by (intro mult_le_mono half_even_le power_increasing) simp_all
  also have "\<dots> = 2 ^ 1023" by (simp only: power_add [symmetric]) simp
  finally show ?thesis using bound_largest(4) by (rule order_trans)
next
  case False
  have "n < 2 ^ 1024" using assms bound_largest(3) by (rule less_trans)
  then have s: "spare_bits n = Suc 970" using False spare_bits_le [of n 1024] by simp
  have "half_even n (2 * 2 ^ 970) \<le> 2 ^ 53 - 1"
    using assms unfolding bound_largest(1) by (rule half_even_below)
  then show ?thesis unfolding round_nat_def s power_Suc bound_largest(5) by (rule mult_le_mono1)
qed

lemma is_double_round: "n < overflow_bound \<Longrightarrow> is_double (round_nat n)"
  using round_below [of n] bound_largest(2) by (simp add: is_double_def)

lemma is_double_Suc: "is_double n \<Longrightarrow> n + 1 < overflow_bound"
  using round_below [of n] bound_largest(2) by (simp add: is_double_def)

lemma is_double_small: "n < 2 ^ 53 \<Longrightarrow> is_double n"
  by (simp add: is_double_def round_nat_small overflow_bound_def)

section \<open>Reading a printed double\<close>

lemma shortest_reads:
  assumes "shortest n j = (m, i)" "is_double n"
  shows "round_nat (m * 10 ^ i) = n \<and> m * 10 ^ i < overflow_bound"
  using assms(1)
proof (induction j)
  case 0
  then show ?case using assms(2) by (simp add: is_double_def)
next
  case (Suc j)
  then show ?case by (auto simp: Let_def simp del: power_Suc split: if_splits)
qed

lemma nat_digits_hd: "is_digit (hd (nat_digits n))" "\<forall>c \<in> set (tl (nat_digits n)). is_digit c"
  using nat_digits_all [of n] by (auto simp: list.set_sel dest: list.set_sel(2) [OF nat_digits_ne])

lemma normalise_power: "normalise (m * 10 ^ k) k = Num m 0"
  by (induction k) (simp_all add: mult.left_commute [of m])

end
