(* ===== verification/Number_Input.thy ===== *)
theory Number_Input
  imports Doubles Theme
begin

text \<open>
  \<open>components/inputs/number-input.tsx\<close>: a number field with buttons, meant to be kept at one or more.
  The texts of the field are converted by \<open>parseInt\<close> when typed and by \<open>Number\<close> when stepped, both to
  doubles.  \<open>Number\<close> is modelled on decimal literals, the texts that a field of type \<open>number\<close> admits;
  such a field has the empty text instead of one that is no finite number.
\<close>

section \<open>Texts and numbers\<close>

definition text_sign :: "string \<Rightarrow> int \<times> string" where
  "text_sign t = (case t of
     c # r \<Rightarrow> if c = CHR ''-'' then (-1, r) else if c = CHR ''+'' then (1, r) else (1, t)
   | [] \<Rightarrow> (1, t))"

definition is_hex :: "char \<Rightarrow> bool" where
  "is_hex c = (hex_value c \<noteq> None)"

fun value_of_hex :: "nat \<Rightarrow> string \<Rightarrow> nat" where
  "value_of_hex a [] = a"
| "value_of_hex a (c # cs) =
     value_of_hex (16 * a + (case hex_value c of Some d \<Rightarrow> d | None \<Rightarrow> 0)) cs"

text \<open>\<open>parseInt(s)\<close>: leading spaces, a sign, and digits, hexadecimal ones after \<open>0x\<close>.\<close>

definition parse_int :: "string \<Rightarrow> int option" where
  "parse_int s =
     (let (sg, t) = text_sign (dropWhile is_space s) in
      if prefix ''0x'' t \<or> prefix ''0X'' t then
        (let hs = takeWhile is_hex (drop 2 t)
         in if hs = [] then None else Some (sg * int (value_of_hex 0 hs)))
      else
        (let ds = takeWhile is_digit t
         in if ds = [] then None else Some (sg * int (value_of_digits 0 ds))))"

definition text_fraction :: "string \<Rightarrow> string \<times> string" where
  "text_fraction v = (case v of
     c # r \<Rightarrow> if c = CHR ''.'' then (takeWhile is_digit r, dropWhile is_digit r) else ([], v)
   | [] \<Rightarrow> ([], v))"

definition number_of_text :: "string \<Rightarrow> number option" where
  "number_of_text s =
     (let t = trim s in
      if t = [] then Some (num_of_int 0)
      else
        (let (sg, u) = text_sign t;
             ds = takeWhile is_digit u;
             (fs, w) = text_fraction (dropWhile is_digit u)
         in if ds = [] \<and> fs = [] then None
            else
              (case parse_exponent w of
                 None \<Rightarrow> None
               | Some (e, rest) \<Rightarrow>
                   if rest = [] then Some (scale (sg * int (value_of_digits 0 (ds @ fs))) (length fs) e)
                   else None)))"

definition double_of_text :: "string \<Rightarrow> double" where
  "double_of_text s = (case number_of_text s of None \<Rightarrow> NaN | Some x \<Rightarrow> to_double x)"

text \<open>What the field holds after a printed number has been assigned to its \<open>value\<close>.\<close>

definition sanitised :: "string \<Rightarrow> string" where
  "sanitised t = (if t \<in> {''Infinity'', ''-Infinity'', ''NaN''} then [] else t)"

section \<open>Handlers\<close>

fun double_add :: "double \<Rightarrow> int \<Rightarrow> double" where
  "double_add (Fin (Num m k)) i = to_double (Num (m + i * 10 ^ k) k)"
| "double_add x i = x"

text \<open>\<open>Math.max(1, x)\<close>\<close>

fun max_one :: "double \<Rightarrow> double" where
  "max_one (Fin x) = (if num_gt x 1 then Fin x else Fin (num_of_int 1))"
| "max_one Inf = Inf"
| "max_one Neg_inf = Fin (num_of_int 1)"
| "max_one NaN = NaN"

text \<open>\<open>x || 1\<close>\<close>

fun or_one :: "double \<Rightarrow> double" where
  "or_one (Fin x) = (if num_is_zero x then Fin (num_of_int 1) else Fin x)"
| "or_one NaN = Fin (num_of_int 1)"
| "or_one x = x"

datatype number_event = Typed string | Minus | Plus

text \<open>\<open>`${Math.max(1, parseInt(text) || 1)}`\<close>\<close>

definition typed_value :: "string \<Rightarrow> string" where
  "typed_value t =
     text_of_double (max_one (or_one
       (case parse_int t of None \<Rightarrow> NaN | Some i \<Rightarrow> to_double (num_of_int i))))"

definition stepped_value :: "int \<Rightarrow> string \<Rightarrow> string" where
  "stepped_value d t = text_of_double (max_one (double_add (double_of_text t) d))"

text \<open>
  The new text of the field and the value that \<open>onChange\<close> finds in its event, where there is one.  A
  typed text is replaced in the field itself, so the handler reads what the field made of it; the
  buttons make an event of their own, and do nothing while the field is not mounted.
\<close>

definition number_input_step ::
    "bool \<Rightarrow> string option \<Rightarrow> number_event \<Rightarrow> string option \<times> string option" where
  "number_input_step has_on_change input ev =
     (let result = (\<lambda>v w. (Some (sanitised v), if has_on_change then Some w else None)) in
      case ev of
        Typed t \<Rightarrow> result (typed_value t) (sanitised (typed_value t))
      | Minus \<Rightarrow>
          (case input of None \<Rightarrow> (None, None)
           | Some t \<Rightarrow> result (stepped_value (-1) t) (stepped_value (-1) t))
      | Plus \<Rightarrow>
          (case input of None \<Rightarrow> (None, None)
           | Some t \<Rightarrow> result (stepped_value 1 t) (stepped_value 1 t)))"

section \<open>View\<close>

definition number_slot_props :: "style option \<Rightarrow> style" where
  "number_slot_props given =
     (let input = (case given of None \<Rightarrow> JUndef | Some g \<Rightarrow> lookup g ''input'');
          entries = (\<lambda>v. case v of JObj kvs \<Rightarrow> kvs | _ \<Rightarrow> []);
          sx = (case input of JObj kvs \<Rightarrow> lookup kvs ''sx'' | _ \<Rightarrow> JUndef)
      in override
           [obj_s ''input''
              (override
                 [int_s ''step'' 1, obj_s ''sx'' (override [str_s ''textAlign'' ''center''] (entries sx)),
                  int_s ''min'' 1]
                 (entries input))]
           (case given of None \<Rightarrow> [] | Some g \<Rightarrow> g))"

datatype number_handler = On_change | On_minus | On_plus

definition number_input_view ::
    "(string \<times> number_handler attr) list \<Rightarrow> style option \<Rightarrow> number_handler view" where
  "number_input_view rest given =
     VElem ''OutlinedInput''
       (rest @
        [str_p ''type'' ''number'',
         obj_p ''sx'' [obj_s ''& input'' [str_s ''textAlign'' ''center'', str_s ''width'' ''2.5rem'']],
         act_p ''onChange'' On_change,
         view_p ''startAdornment''
           [VElem ''InputAdornment'' [str_p ''position'' ''start'']
              [VElem ''IconButton'' [act_p ''onClick'' On_minus] [VElem ''IconMinus'' [] []]]],
         view_p ''endAdornment''
           [VElem ''InputAdornment'' [str_p ''position'' ''end'']
              [VElem ''IconButton'' [act_p ''onClick'' On_plus] [VElem ''IconPlus'' [] []]]],
         obj_p ''slotProps'' (number_slot_props given)]) []"

section \<open>The controlled field\<close>

text \<open>
  The field of a page that passes \<open>value={v}\<close> and \<open>onChange={(e) => setV(Number(e.target.value))}\<close>:
  before every event the field shows the printed value.
\<close>

definition field_step :: "double \<Rightarrow> number_event \<Rightarrow> double" where
  "field_step v ev =
     (case snd (number_input_step True (Some (sanitised (text_of_double v))) ev) of
        Some t \<Rightarrow> double_of_text t
      | None \<Rightarrow> v)"

section \<open>Properties\<close>

lemma print_number_ne: "print_number x \<noteq> []"
  using print_number_head[of x] by auto

lemma trim_no_space: "\<forall>c \<in> set s. \<not> is_space c \<Longrightarrow> trim s = s"
  unfolding trim_def by (metis dropWhile_eq_self_iff hd_in_set rev_is_Nil_conv rev_rev_ident set_rev)

lemma trim_print_number [simp]: "trim (print_number x) = print_number x"
proof (rule trim_no_space, rule ballI)
  fix c assume "c \<in> set (print_number x)"
  from print_number_chars[OF this] show "\<not> is_space c"
    by (auto simp: is_space_def is_digit_def digit_value_def)
qed

text \<open>On a trimmed text that is a number of JSON, \<open>Number\<close> agrees with \<open>JSON.parse\<close>.\<close>

lemma text_fraction_parse: "parse_fraction u = Some (fs, w) \<Longrightarrow> text_fraction u = (fs, w)"
  by (auto simp: parse_fraction_def text_fraction_def split: list.splits if_splits)

lemma text_sign_parse:
  assumes "t \<noteq> []" "hd t \<noteq> CHR ''+''"
  shows "text_sign t = parse_sign t"
  using assms by (cases t) (auto simp: text_sign_def parse_sign_def)

lemma number_of_text_parse:
  assumes parse: "parse_number t = Some (x, [])" and t: "trim t = t" "t \<noteq> []" "hd t \<noteq> CHR ''+''"
  shows "number_of_text t = Some x"
proof -
  obtain sg u where s: "parse_sign t = (sg, u)" by (cases "parse_sign t")
  let ?ds = "takeWhile is_digit u"
  from parse s obtain fs w e where p: "?ds \<noteq> []" "parse_fraction (dropWhile is_digit u) = Some (fs, w)"
    "parse_exponent w = Some (e, [])" "x = scale (sg * int (value_of_digits 0 (?ds @ fs))) (length fs) e"
    by (auto simp: parse_number_def Let_def split: if_splits option.splits prod.splits)
  show ?thesis
    using p s t text_fraction_parse[OF p(2)] text_sign_parse[OF t(2,3)]
    by (simp add: number_of_text_def)
qed

lemma number_of_text_print:
  assumes "normal_number x"
  shows "number_of_text (print_number x) = Some x"
proof (rule number_of_text_parse)
  show "parse_number (print_number x) = Some (x, [])"
    using parse_print_number[OF assms, of "[]"] by (simp add: number_end_def)
  show "hd (print_number x) \<noteq> CHR ''+''"
    using print_number_chars[of "hd (print_number x)" x] print_number_ne[of x]
    by (auto simp: is_digit_def digit_value_def)
qed (simp_all add: print_number_ne)

lemma number_of_digits: "number_of_text (nat_digits v) = Some (num_of_int (int v))"
  using number_of_text_print [of "num_of_int (int v)"] by (simp add: num_of_int_def)

lemma trim_printed: "\<forall>c \<in> set t. is_digit c \<or> c \<in> {CHR ''.'', CHR ''e'', CHR ''+''} \<Longrightarrow> trim t = t"
  by (rule trim_no_space) (auto simp: is_space_def is_digit_def digit_value_def)

lemma exponent_text_set: "\<forall>c \<in> set (exponent_text m j). is_digit c \<or> c \<in> {CHR ''.'', CHR ''e'', CHR ''+''}"
  using nat_digits_hd [of m] nat_digits_all by (auto simp: exponent_text_def Let_def)

lemma digits_whole: "takeWhile is_digit (nat_digits n) = nat_digits n" "dropWhile is_digit (nat_digits n) = []"
  by (simp_all add: takeWhile_eq_all_conv dropWhile_eq_Nil_conv nat_digits_all)

lemma takeWhile_all: "\<forall>c \<in> set ds. P c \<Longrightarrow> \<not> P x \<Longrightarrow> takeWhile P (ds @ x # r) = ds \<and> dropWhile P (ds @ x # r) = x # r"
  by (induction ds) auto

lemma number_of_exponent_text: "number_of_text (exponent_text m j) = Some (num_of_int (int (m * 10 ^ j)))"
proof -
  obtain d ds where m: "nat_digits m = d # ds" by (cases "nat_digits m") simp_all
  have d: "is_digit d" "\<forall>c \<in> set ds. is_digit c" "value_of_digits 0 (d # ds) = m"
    using nat_digits_hd [of m] value_of_nat_digits [of m] m by simp_all
  let ?e = "length ds + j"
  define w where "w = ''e+'' @ nat_digits ?e"
  define rest where "rest = (if ds = [] then [] else CHR ''.'' # ds) @ w"
  have t: "exponent_text m j = d # rest" by (simp add: exponent_text_def m rest_def w_def)
  have w: "parse_exponent w = Some (int ?e, [])"
    by (simp add: w_def parse_exponent_def Let_def digits_whole)
  have span: "takeWhile is_digit (d # rest) = [d]" "dropWhile is_digit (d # rest) = rest"
    using d(1) by (cases "ds = []"; simp add: rest_def w_def)+
  have fraction: "text_fraction rest = (ds, w)"
    using takeWhile_all [OF d(2), of "CHR ''e''"] by (cases "ds = []") (simp_all add: text_fraction_def rest_def w_def)
  have sign: "text_sign (d # rest) = (1, d # rest)"
    using d(1) by (auto simp: text_sign_def is_digit_def digit_value_def)
  have "scale (int m) (length ds) (int ?e) = num_of_int (int (m * 10 ^ j))"
    using normalise_power [of "int m * 10 ^ j" "length ds"]
    by (simp add: scale_def num_of_int_def nat_add_distrib power_add mult.assoc mult.commute [of "10 ^ j"])
  then show ?thesis
    using trim_printed [OF exponent_text_set, of m j] d(3)
    by (simp add: t number_of_text_def Let_def sign span fraction w del: takeWhile.simps dropWhile.simps value_of_digits.simps)
qed

text \<open>A double that \<open>String\<close> prints is read back by \<open>Number\<close>.\<close>

lemma to_double_nat:
  "to_double (num_of_int (int v)) = (if v < overflow_bound then Fin (num_of_int (int (round_nat v))) else Inf)"
proof (cases "v = 0")
  case True
  then show ?thesis by (simp add: num_of_int_def round_nat_small overflow_bound_def)
next
  case False
  then show ?thesis by (simp add: num_of_int_def)
qed

lemma double_of_nat_text:
  assumes "is_double n" shows "double_of_text (nat_text n) = Fin (num_of_int (int n))"
proof -
  obtain m j where s: "shortest n (length (nat_digits n)) = (m, j)" by fastforce
  have "number_of_text (nat_text n) = Some (num_of_int (int (m * 10 ^ j)))"
    by (simp add: nat_text_def s number_of_digits number_of_exponent_text del: of_nat_mult of_nat_power)
  then show ?thesis
    using shortest_reads [OF s assms] by (simp add: double_of_text_def to_double_nat del: of_nat_mult of_nat_power)
qed

lemma nat_text_chars: "\<forall>c \<in> set (nat_text n). is_digit c \<or> c \<in> {CHR ''.'', CHR ''e'', CHR ''+''}"
proof -
  have "\<forall>c \<in> set (nat_digits k). is_digit c \<or> c \<in> {CHR ''.'', CHR ''e'', CHR ''+''}" for k
    using nat_digits_all [of k] by blast
  moreover obtain m j where "shortest n (length (nat_digits n)) = (m, j)" by fastforce
  ultimately show ?thesis using exponent_text_set [of m j] by (simp add: nat_text_def)
qed

lemma sanitised_nat_text: "sanitised (nat_text n) = nat_text n"
proof -
  have "CHR ''N'' \<notin> set (nat_text n)" "CHR ''I'' \<notin> set (nat_text n)"
    using nat_text_chars [of n] by (auto simp: is_digit_def digit_value_def)
  then show ?thesis by (auto simp: sanitised_def)
qed

lemma text_of_nat: "text_of_double (Fin (num_of_int (int n))) = nat_text n"
  by (simp add: num_of_int_def)

text \<open>What each event makes of the number in the field, in terms of natural numbers.\<close>

fun next_value :: "nat \<Rightarrow> number_event \<Rightarrow> nat" where
  "next_value n (Typed t) =
     (case parse_int t of
        None \<Rightarrow> 1
      | Some i \<Rightarrow> if i < int overflow_bound then max 1 (round_nat (nat i)) else 0)"
| "next_value n Minus = max 1 (round_nat (n - 1))"
| "next_value n Plus = round_nat (n + 1)"

lemma max_int:
  assumes "i < int overflow_bound"
  shows "max_one (to_double (num_of_int i)) = Fin (num_of_int (int (max 1 (round_nat (nat i)))))"
proof (cases "0 \<le> i")
  case True
  then obtain v where "i = int v" by (metis nonneg_int_cases)
  then show ?thesis using assms by (auto simp: to_double_nat num_of_int_def max_def)
next
  case False
  then show ?thesis by (auto simp: num_of_int_def)
qed

lemma max_or_int:
  "max_one (or_one (to_double (num_of_int i))) =
     (if i < int overflow_bound then Fin (num_of_int (int (max 1 (round_nat (nat i))))) else Inf)"
proof (cases "i < int overflow_bound")
  case True
  have "max_one (or_one x) = max_one x" if "x \<noteq> NaN" for x
    using that by (cases x) (auto simp: num_of_int_def elim!: num_is_zero.elims)
  moreover have "to_double (num_of_int i) \<noteq> NaN" by (simp add: num_of_int_def)
  ultimately show ?thesis using max_int [OF True] True by simp
next
  case False
  then have "0 < i" "\<not> nat i < overflow_bound" using bound_pos by linarith+
  then show ?thesis using False by (simp add: num_of_int_def)
qed

lemma double_max: "i < int overflow_bound \<Longrightarrow> is_double (max 1 (round_nat (nat i)))"
proof -
  assume "i < int overflow_bound"
  then have "nat i < overflow_bound" using bound_pos by linarith
  then show ?thesis using is_double_round [of "nat i"] is_double_small [of 1] by (auto simp: max_def)
qed

lemma typed_value_text:
  "double_of_text (sanitised (typed_value t)) = Fin (num_of_int (int (next_value n (Typed t))))"
proof (cases "parse_int t")
  case None
  have "typed_value t = nat_text 1" using text_of_nat [of 1] None by (simp add: typed_value_def num_of_int_def)
  then show ?thesis using None by (simp add: sanitised_nat_text double_of_nat_text is_double_small)
next
  case (Some i)
  show ?thesis
  proof (cases "i < int overflow_bound")
    case True
    then have "typed_value t = nat_text (max 1 (round_nat (nat i)))"
      using Some by (simp add: typed_value_def max_or_int text_of_nat del: of_nat_max)
    then show ?thesis using Some True double_max by (simp add: sanitised_nat_text double_of_nat_text)
  next
    case False
    then have "sanitised (typed_value t) = []" using Some by (simp add: typed_value_def max_or_int sanitised_def)
    then show ?thesis using Some False by (simp add: double_of_text_def number_of_text_def trim_def num_of_int_def round_nat_small overflow_bound_def)
  qed
qed

lemma field_step_nat:
  assumes "is_double n"
  shows "field_step (Fin (num_of_int (int n))) ev = Fin (num_of_int (int (next_value n ev)))"
    and "is_double (next_value n ev)"
proof -
  have step: "double_of_text (stepped_value d (nat_text n)) = Fin (num_of_int (int (max 1 (round_nat (nat (int n + d))))))"
    if "int n + d < int overflow_bound" for d
  proof -
    have "stepped_value d (nat_text n) = nat_text (max 1 (round_nat (nat (int n + d))))"
      using max_int [OF that] by (simp add: stepped_value_def double_of_nat_text [OF assms] num_of_int_def text_of_nat del: of_nat_max)
    then show ?thesis using double_max [OF that] by (simp add: double_of_nat_text)
  qed
  have up: "n + 1 < overflow_bound" by (rule is_double_Suc [OF assms])
  have plus: "max 1 (round_nat (n + 1)) = round_nat (n + 1)" using round_nat_pos [of "n + 1"] by simp
  have nat: "nat (int n - 1) = n - 1" "nat (int n + 1) = n + 1" by simp_all
  show "is_double (next_value n ev)"
    using double_max [of "int n - 1"] double_max [of "int n + 1"] up is_double_small [of 1] is_double_small [of 0] plus nat double_max
    by (cases ev) (auto split: option.split)
  show "field_step (Fin (num_of_int (int n))) ev = Fin (num_of_int (int (next_value n ev)))"
    using step [of "-1"] step [of 1] up plus nat typed_value_text
    by (cases ev) (simp_all add: field_step_def number_input_step_def text_of_nat sanitised_nat_text Let_def)
qed

text \<open>C35: The controlled field always holds a finite double without fraction, whatever is typed and
  however the buttons are used: a typed text counts as its integer prefix, rounded to a double and raised
  to one, and the buttons go one up and one down, rounded, not below one; below \<open>2 ^ 53\<close> nothing
  is rounded.  The bound of one is kept with one exception: just after a typed text whose integer is beyond the
  largest double the field holds zero, since \<open>Infinity\<close> is no text for it.\<close>

theorem field_values:
  assumes "is_double k" "1 \<le> k"
  shows "foldl field_step (Fin (num_of_int (int k))) evs = Fin (num_of_int (int (foldl next_value k evs)))
    \<and> is_double (foldl next_value k evs)
    \<and> (\<forall>n < 2 ^ 53. round_nat n = n)
    \<and> (1 \<le> foldl next_value k evs
       \<or> (\<exists>pre t i. evs = pre @ [Typed t] \<and> parse_int t = Some i \<and> 2 ^ 1024 - 2 ^ 970 \<le> i))"
proof (induction evs rule: rev_induct)
  case Nil
  then show ?case using assms round_nat_small by simp
next
  case (snoc ev evs)
  let ?n = "foldl next_value k evs"
  have n: "is_double ?n" using snoc by simp
  have "1 \<le> next_value ?n ev \<or> (\<exists>t i. ev = Typed t \<and> parse_int t = Some i \<and> 2 ^ 1024 - 2 ^ 970 \<le> i)"
    using round_nat_pos [of "?n + 1"]
    by (cases ev) (auto simp: overflow_bound_def split: option.split)
  then show ?case using snoc field_step_nat [OF n] round_nat_small by auto
qed

definition far_text :: string where
  "far_text = CHR ''2'' # replicate 308 (CHR ''0'')"

lemma zero_digits:
  "value_of_digits a (replicate n (CHR ''0'')) = a * 10 ^ n"
  "takeWhile is_digit (replicate n (CHR ''0'')) = replicate n (CHR ''0'')"
  by (induction n arbitrary: a) (simp_all add: digit_value_def)

lemma far_text_value: "parse_int far_text = Some (2 * 10 ^ 308)"
proof -
  have "is_digit (CHR ''2'')" "digit_value (CHR ''2'') = Some 2" "\<not> is_space (CHR ''2'')" by code_simp+
  then show ?thesis
    by (simp add: parse_int_def far_text_def text_sign_def zero_digits)
qed

theorem field_values_witness:
  "foldl field_step (Fin (num_of_int 1)) [Plus, Typed ''-7'', Minus, Plus, Typed ''12.9x'', Plus] = Fin (num_of_int 13)
   \<and> foldl field_step (Fin (num_of_int 1)) [Typed ''9007199254740993'', Plus] = Fin (num_of_int 9007199254740992)
   \<and> foldl field_step (Fin (num_of_int 1)) [Typed far_text] = Fin (num_of_int 0)"
proof -
  have one: "is_double 1" "(1 :: nat) \<le> 1" by (simp_all add: is_double_small)
  have small: "parse_int ''-7'' = Some (-7)" "parse_int ''12.9x'' = Some 12" by code_simp+
  have "parse_int ''9007199254740993'' = Some 9007199254740993"
    by (simp add: parse_int_def text_sign_def is_space_def is_digit_def digit_value_def)
  moreover have "floorlog 2 (9007199254740993 :: nat) = 54" by (simp add: compute_floorlog)
  ultimately have "foldl next_value 1 [Typed ''9007199254740993'', Plus] = 9007199254740992"
    by (simp add: overflow_bound_def round_nat_def spare_bits_def half_even_def round_nat_small)
  moreover have "parse_int far_text = Some (2 * 10 ^ 308)" by (rule far_text_value)
  then have "foldl next_value 1 [Typed far_text] = 0" by (simp add: overflow_bound_def)
  moreover have "foldl next_value 1 [Plus, Typed ''-7'', Minus, Plus, Typed ''12.9x'', Plus] = 13"
    by (simp add: small round_nat_small overflow_bound_def)
  ultimately show ?thesis
    using field_values [OF one, of "[Plus, Typed ''-7'', Minus, Plus, Typed ''12.9x'', Plus]"]
      field_values [OF one, of "[Typed ''9007199254740993'', Plus]"] field_values [OF one, of "[Typed far_text]"]
    by (simp del: foldl.simps)
qed

text \<open>Where the owner of the field passes props for its \<open>input\<close> slot, as the setup page does, the
  limits \<open>min: 1\<close> and \<open>step: 1\<close> that the component prepares are lost: the slot gets the given
  props alone.\<close>

theorem number_slot_limits_lost:
  assumes "distinct (map fst given)" "lookup given ''input'' = JObj kvs"
  shows "lookup (number_slot_props (Some given)) ''input'' = JObj kvs"
proof -
  have "''input'' \<in> fst ` set given" using assms(2) lookup_absent by fastforce
  then show ?thesis
    using assms by (simp add: number_slot_props_def Let_def lookup_override lookup_rev)
qed

theorem number_slot_limits_lost_witness:
  "lookup (number_slot_props (Some [obj_s ''root'' [], obj_s ''input'' [obj_s ''sx'' []]])) ''input''
     = JObj [obj_s ''sx'' []]"
  using number_slot_limits_lost[of "[obj_s ''root'' [], obj_s ''input'' [obj_s ''sx'' []]]"] by simp

end
