(* ===== verification/Router.thy ===== *)
theory Router
  imports React_Hooks Theme
begin

text \<open>
  The routers of \<open>router/main.tsx\<close> and \<open>router/chat.tsx\<close> and the frame of \<open>App.tsx\<close>.  The effect of
  a router runs after a render in which one of its dependencies changed; its clean-up cancels the
  timer that the previous run has set.  Matching a path against the table is left to the routing
  library.
\<close>

section \<open>Redirections\<close>

definition PATH_SETUP :: string where "PATH_SETUP = ''/setup''"
definition PATH_JOIN :: string where "PATH_JOIN = ''/join''"
definition PATH_CHAT :: string where "PATH_CHAT = ''/chat''"

definition main_redirect :: "string \<Rightarrow> jsval \<Rightarrow> string option" where
  "main_redirect pathname status =
     (if pathname = ''/'' then Some PATH_SETUP
      else if status = JStr ''idle'' \<and> prefix PATH_CHAT pathname then Some PATH_SETUP
      else if status = JStr ''available'' \<and> \<not> prefix PATH_CHAT pathname then Some PATH_CHAT
      else None)"

definition chat_redirect :: "string \<Rightarrow> jsval \<Rightarrow> string option" where
  "chat_redirect pathname status = (if \<not> prefix PATH_CHAT pathname then Some PATH_CHAT else None)"

text \<open>A router: its redirection and whether the status is a dependency of its effect.\<close>

record router =
  rt_redirect :: "string \<Rightarrow> jsval \<Rightarrow> string option"
  rt_on_status :: bool

definition main_router :: router where
  "main_router = \<lparr>rt_redirect = main_redirect, rt_on_status = True\<rparr>"

definition chat_router :: router where
  "chat_router = \<lparr>rt_redirect = chat_redirect, rt_on_status = False\<rparr>"

record router_state =
  rs_pathname :: string
  rs_status :: jsval
  rs_timer :: "string option"

definition router_effect :: "router \<Rightarrow> router_state \<Rightarrow> router_state" where
  "router_effect r s = s\<lparr>rs_timer := rt_redirect r (rs_pathname s) (rs_status s)\<rparr>"

definition mount_router :: "router \<Rightarrow> string \<Rightarrow> jsval \<Rightarrow> router_state" where
  "mount_router r pathname status =
     router_effect r \<lparr>rs_pathname = pathname, rs_status = status, rs_timer = None\<rparr>"

datatype router_event = Navigate string | Status jsval | Timer_fires

definition navigate_to :: "router \<Rightarrow> string \<Rightarrow> router_state \<Rightarrow> router_state" where
  "navigate_to r path s =
     (if path = rs_pathname s then s else router_effect r (s\<lparr>rs_pathname := path\<rparr>))"

fun router_step :: "router \<Rightarrow> router_state \<Rightarrow> router_event \<Rightarrow> router_state" where
  "router_step r s (Navigate path) = navigate_to r path s"
| "router_step r s (Status v) =
     (if v = rs_status s then s
      else if rt_on_status r then router_effect r (s\<lparr>rs_status := v\<rparr>)
      else s\<lparr>rs_status := v\<rparr>)"
| "router_step r s Timer_fires =
     (case rs_timer s of
        None \<Rightarrow> s
      | Some path \<Rightarrow> navigate_to r path (s\<lparr>rs_timer := None\<rparr>))"

definition router_run :: "router \<Rightarrow> string \<Rightarrow> jsval \<Rightarrow> router_event list \<Rightarrow> router_state" where
  "router_run r pathname status = foldl (router_step r) (mount_router r pathname status)"

section \<open>Tables of routes\<close>

definition page_route :: "string \<Rightarrow> string \<Rightarrow> string \<times> 'a view" where
  "page_route path page =
     (path, VElem ''Suspense'' [view_p ''fallback'' [VElem ''div'' [] [VText ''Loading...'']]]
              [VElem page [] []])"

definition not_found_route :: "string \<times> 'a view" where
  "not_found_route = (''*'', VElem ''div'' [] [VText ''404 - Page Not Found''])"

definition main_routes :: "(string \<times> 'a view) list" where
  "main_routes =
     [page_route PATH_SETUP ''PageSetup'', page_route PATH_JOIN ''PageJoin'',
      page_route PATH_CHAT ''PageChat'', not_found_route]"

definition chat_routes :: "(string \<times> 'a view) list" where
  "chat_routes = [page_route PATH_CHAT ''PageChat'', not_found_route]"

section \<open>The application\<close>

definition app_root_style :: style where
  "app_root_style = override text_body2
     [(''color'', color_of ''text'' ''primary''),
      (''backgroundColor'', color_of ''background'' ''default''),
      str_s ''width'' ''100%'', str_s ''height'' ''100%'', str_s ''display'' ''flex'',
      str_s ''flexFlow'' ''column nowrap'', str_s ''justifyContent'' ''center'',
      str_s ''alignItems'' ''center'']"

fun host_type_name :: "host_type \<Rightarrow> string" where
  "host_type_name Cluster_host = ''cluster''"
| "host_type_name Node_host = ''node''"

definition providers :: "host_type \<Rightarrow> 'a view list \<Rightarrow> 'a view" where
  "providers host children =
     VElem ''StrictMode'' []
       [VElem ''HashRouter'' []
          [VElem ''ThemeProvider'' []
             [VElem ''CssBaseline'' [] [],
              VElem ''AppRoot'' []
                [VElem ''HostProvider'' [str_p ''type'' (host_type_name host)]
                   [VElem ''ClusterProvider'' [] [VElem ''ChatProvider'' [] children]]]]]]"

definition main_app :: "'a view" where
  "main_app = providers Cluster_host [VElem ''MainRouter'' [] []]"

definition chat_app :: "'a view" where
  "chat_app = providers Node_host [VElem ''ChatRouter'' [] []]"

section \<open>Properties\<close>

text \<open>
  What both routers promise: a redirection leads away from the path, after two of them there is none,
  and only the router that looks at the status redirects by it.
\<close>

definition timer_current :: "router \<Rightarrow> router_state \<Rightarrow> bool" where
  "timer_current r s = (rs_timer s = rt_redirect r (rs_pathname s) (rs_status s))"

locale redirecting =
  fixes r :: router
  assumes leaves: "rt_redirect r p v = Some q \<Longrightarrow> q \<noteq> p"
    and stops: "rt_redirect r p v = Some q \<Longrightarrow> rt_redirect r q v = Some t \<Longrightarrow> rt_redirect r t v = None"
    and watches: "\<not> rt_on_status r \<Longrightarrow> rt_redirect r p v = rt_redirect r p w"
begin

lemma current_effect [simp]: "timer_current r (router_effect r s)"
  by (simp add: timer_current_def router_effect_def)

lemma fires:
  assumes "timer_current r s" "rs_timer s = Some q"
  shows "router_step r s Timer_fires = router_effect r (s\<lparr>rs_timer := None, rs_pathname := q\<rparr>)"
proof -
  have "q \<noteq> rs_pathname s" using assms leaves by (simp add: timer_current_def)
  then show ?thesis using assms(2) by (simp add: navigate_to_def)
qed

lemma current_step:
  assumes "timer_current r s" shows "timer_current r (router_step r s ev)"
proof (cases ev)
  case Timer_fires
  with assms show ?thesis by (cases "rs_timer s") (simp, simp only: fires [OF assms] current_effect)
next
  case (Status v)
  with assms watches [of "rs_pathname s" v "rs_status s"] show ?thesis
    by (auto simp: timer_current_def router_effect_def)
qed (use assms in \<open>simp add: navigate_to_def\<close>)

lemma current_run: "timer_current r (router_run r p v evs)"
proof -
  have "timer_current r s \<Longrightarrow> timer_current r (foldl (router_step r) s evs)" for s
    by (induction evs arbitrary: s) (auto intro: current_step)
  then show ?thesis by (simp add: router_run_def mount_router_def)
qed

lemma settles:
  assumes cur: "timer_current r s"
  defines "u \<equiv> router_step r (router_step r s Timer_fires) Timer_fires"
  shows "rs_timer u = None \<and> rs_status u = rs_status s \<and> timer_current r u"
proof (cases "rs_timer s")
  case None
  with cur show ?thesis by (simp add: u_def)
next
  case (Some q)
  let ?t = "router_step r s Timer_fires"
  have q: "rs_pathname ?t = q" "rs_status ?t = rs_status s" "rs_timer ?t = rt_redirect r q (rs_status s)"
    unfolding fires [OF cur Some] by (simp_all add: router_effect_def)
  have t: "timer_current r ?t" using cur by (rule current_step)
  show ?thesis
  proof (cases "rs_timer ?t")
    case None
    with q t show ?thesis by (simp add: u_def)
  next
    case (Some q')
    have "rt_redirect r (rs_pathname s) (rs_status s) = Some q"
      using cur \<open>rs_timer s = Some q\<close> by (simp add: timer_current_def)
    then have "rt_redirect r q' (rs_status s) = None" using stops [OF _ trans [OF q(3) [symmetric] Some]] by blast
    then show ?thesis unfolding u_def fires [OF t Some] using q(2)
      by (simp add: router_effect_def timer_current_def del: router_step.simps)
  qed
qed

lemma run_settles:
  "rs_timer (router_run r p v (evs @ [Timer_fires, Timer_fires])) = None
   \<and> rs_status (router_run r p v (evs @ [Timer_fires, Timer_fires])) = rs_status (router_run r p v evs)
   \<and> timer_current r (router_run r p v (evs @ [Timer_fires, Timer_fires]))"
proof -
  have "router_run r p v (evs @ [Timer_fires, Timer_fires])
      = router_step r (router_step r (router_run r p v evs) Timer_fires) Timer_fires"
    unfolding router_run_def foldl_append by simp
  with settles [OF current_run] show ?thesis by metis
qed

end

interpretation main_redirecting: redirecting main_router
  by unfold_locales
    (auto simp: main_router_def main_redirect_def PATH_CHAT_def PATH_SETUP_def split: if_splits)

interpretation chat_redirecting: redirecting chat_router
  by unfold_locales (auto simp: chat_router_def chat_redirect_def split: if_splits)

text \<open>The places that fit a status.\<close>

definition location_fits :: "router_state \<Rightarrow> bool" where
  "location_fits s = (rs_timer s = None \<and> rs_pathname s \<noteq> ''/''
     \<and> (rs_status s = JStr ''idle'' \<longrightarrow> \<not> prefix PATH_CHAT (rs_pathname s))
     \<and> (rs_status s = JStr ''available'' \<longrightarrow> prefix PATH_CHAT (rs_pathname s)))"

lemma main_timer:
  "timer_current main_router s \<Longrightarrow> rs_timer s = main_redirect (rs_pathname s) (rs_status s)"
  by (simp add: timer_current_def main_router_def)

lemma location_fits_iff:
  "timer_current main_router s \<Longrightarrow> location_fits s \<longleftrightarrow> rs_timer s = None"
  by (auto simp: location_fits_def timer_current_def main_router_def main_redirect_def split: if_splits)

lemma chat_location_iff:
  "timer_current chat_router s \<Longrightarrow> rs_timer s = None \<longleftrightarrow> prefix PATH_CHAT (rs_pathname s)"
  by (auto simp: timer_current_def chat_router_def chat_redirect_def)

text \<open>C30: However the user navigates and the status changes, the pending redirection is always the one
  for the present path and status, and once path and status stay, at most two expiring timers
  lead to a place that fits: the chat when the cluster is available, no chat when it is idle,
  and never the empty path; the router of the chat application always comes to the chat.  There is
  no loop of redirections.\<close>

theorem router_settles:
  "rs_timer (router_run main_router p v evs)
     = main_redirect (rs_pathname (router_run main_router p v evs)) (rs_status (router_run main_router p v evs))
   \<and> location_fits (router_run main_router p v (evs @ [Timer_fires, Timer_fires]))
   \<and> rs_status (router_run main_router p v (evs @ [Timer_fires, Timer_fires]))
       = rs_status (router_run main_router p v evs)
   \<and> prefix PATH_CHAT (rs_pathname (router_run chat_router p v (evs @ [Timer_fires, Timer_fires])))"
  using main_redirecting.run_settles [of p v evs] chat_redirecting.run_settles [of p v evs]
    main_timer [OF main_redirecting.current_run] location_fits_iff chat_location_iff by blast

end
