(* ===== verification/Pages.thy ===== *)
theory Pages
  imports Cluster Number_Input
begin

text \<open>
  The pages \<open>pages/setup.tsx\<close>, \<open>pages/join.tsx\<close> and \<open>pages/chat.tsx\<close>.  A page reads the cluster
  state; the setup page starts the scheduler and leaves for the join page.
\<close>

section \<open>Shared parts\<close>

text \<open>The right single quotation mark, as the bytes of its UTF-8 form.\<close>

definition apostrophe :: string where
  "apostrophe = [CHR 0xE2, CHR 0x80, CHR 0x99]"

text \<open>\<open>!!modelInfo && modelInfo.vram > 0\<close>\<close>

definition needs_vram :: "model_info option \<Rightarrow> bool" where
  "needs_vram m = (case m of None \<Rightarrow> False | Some i \<Rightarrow> js_gt (mi_vram i) 0)"

definition vram_texts :: "model_info \<Rightarrow> 'a view list" where
  "vram_texts m =
     [VText (''You'' @ apostrophe @ ''ll need a ''),
      VElem ''strong'' []
        [VText (''minimum of '' @ js_to_string (mi_vram m) @ '' GB of total VRAM'')],
      VText '' to host this model.'']"

definition vram_alert :: "'a view list \<Rightarrow> 'a view" where
  "vram_alert parts =
     VElem ''Alert'' [str_p ''key'' ''vram-warning'', str_p ''severity'' ''warning'',
                      str_p ''variant'' ''standard'']
       [VElem ''Typography'' [str_p ''variant'' ''inherit''] parts]"

definition body_text :: "string \<Rightarrow> 'a view" where
  "body_text t = VElem ''Typography'' [str_p ''variant'' ''body1''] [VText t]"

definition hint_text :: "'a view list \<Rightarrow> 'a view" where
  "hint_text ts =
     VElem ''Typography'' [str_p ''variant'' ''body2'', str_p ''color'' ''text.secondary'',
                           str_p ''fontWeight'' ''regular''] ts"

section \<open>Setup\<close>

definition should_init :: "cluster_state \<Rightarrow> bool" where
  "should_init s =
     (ci_status (cl_info s) = JStr ''idle'' \<or> ci_status (cl_info s) = JStr ''failed''
      \<or> ci_init_nodes_number (cl_info s) \<noteq> JNum (num_of_int (cl_init_nodes_number s))
      \<or> ci_model_name (cl_info s) \<noteq> cl_model_name s)"

text \<open>
  The page: whether the button is loading, the call of \<open>init\<close> it waits for, and the paths it has
  navigated to.  A loading button of Material UI is disabled.
\<close>

record setup_page =
  sp_loading :: bool
  sp_init :: "init_call option"
  sp_visited :: "string list"

definition init_setup_page :: setup_page where
  "init_setup_page = \<lparr>sp_loading = False, sp_init = None, sp_visited = []\<rparr>"

datatype setup_event = Continue | Scheduler_answer response

text \<open>
  A call of \<open>init\<close> that fails its checks rejects at once: \<open>catch\<close> prints the error and \<open>finally\<close>
  ends the loading.
\<close>

fun setup_step :: "setup_page \<times> cluster_state \<Rightarrow> setup_event \<Rightarrow> setup_page \<times> cluster_state" where
  "setup_step (p, s) Continue =
     (if sp_loading p then (p, s)
      else if should_init s then
        (case init_cluster_call s of
           Inl e \<Rightarrow> (p, s)
         | Inr c \<Rightarrow> (p\<lparr>sp_loading := True, sp_init := Some c\<rparr>, s))
      else (p\<lparr>sp_visited := sp_visited p @ [''/join'']\<rparr>, s))"
| "setup_step (p, s) (Scheduler_answer r) =
     (case sp_init p of
        None \<Rightarrow> (p, s)
      | Some c \<Rightarrow>
          (let p' = p\<lparr>sp_loading := False, sp_init := None\<rparr> in
           case on_init_response c r s of
             (s', None) \<Rightarrow> (p'\<lparr>sp_visited := sp_visited p @ [''/join'']\<rparr>, cluster_effect s')
           | (s', Some e) \<Rightarrow> (p', cluster_effect s')))"

text \<open>\<open>onChange\<close> of the toggle buttons: a value that is none (the pressed button again) is ignored.\<close>

definition network_choice :: "string \<Rightarrow> network_type option" where
  "network_choice value =
     (if value = ''local'' then Some Local_network
      else if value = ''remote'' then Some Remote_network else None)"

fun network_name :: "network_type \<Rightarrow> string" where
  "network_name Local_network = ''local''"
| "network_name Remote_network = ''remote''"

datatype setup_handler = Set_nodes | Set_network | On_continue

definition setup_row :: "'a view list \<Rightarrow> 'a view" where
  "setup_row = VElem ''Stack''
     [str_p ''direction'' ''row'', str_p ''justifyContent'' ''space-between'',
      str_p ''alignItems'' ''center'', int_p ''gap'' 2]"

definition number_field_slots :: style where
  "number_field_slots =
     [obj_s ''root''
        [obj_s ''sx''
           [str_s ''bgcolor'' ''transparent'',
            obj_s ''&:hover'' [str_s ''bgcolor'' ''transparent''],
            obj_s ''&:focus-within'' [str_s ''bgcolor'' ''transparent'']]],
      obj_s ''input''
        [obj_s ''sx''
           [str_s ''bgcolor'' ''transparent !important'',
            obj_s ''&:focus'' [str_s ''outline'' ''none'']]]]"

definition network_toggle :: "network_type \<Rightarrow> setup_handler view" where
  "network_toggle n =
     VElem ''ToggleButtonGroup''
       [obj_p ''sx'' [str_s ''width'' ''10rem'', str_s ''textTransform'' ''none''],
        bool_p ''exclusive'' True, str_p ''value'' (network_name n), act_p ''onChange'' Set_network]
       [VElem ''ToggleButton''
          [str_p ''value'' ''local'', obj_p ''sx'' [str_s ''textTransform'' ''none'']] [VText ''Local''],
        VElem ''ToggleButton''
          [str_p ''value'' ''remote'', obj_p ''sx'' [str_s ''textTransform'' ''none'']] [VText ''Remote'']]"

definition setup_view :: "setup_page \<Rightarrow> cluster_state \<Rightarrow> setup_handler view" where
  "setup_view p s =
     VElem ''MainLayout'' []
       [VElem ''Typography'' [str_p ''variant'' ''h1''] [VText ''Build Your Own AI Cluster''],
        VElem ''Stack'' [dec_p ''gap'' 25 1]
          [VElem ''Stack'' [dec_p ''gap'' 5 1]
             [body_text ''Step 1 - Specify the initial number of nodes'',
              hint_text
                [VText (''Parallax runs and hosts model distributedly on your everyday hardware. Select the number ''
                   @ ''of nodes you would like to add to your cluster with their connection types.''),
                 VText '' '']],
           setup_row
             [VElem ''Typography'' [str_p ''color'' ''text.secondary''] [VText ''Node Number''],
              VElem ''NumberInput''
                [obj_p ''sx'' [str_s ''width'' ''10rem'', str_s ''boxShadow'' ''none'',
                               str_s ''bgcolor'' ''transparent''],
                 obj_p ''slotProps'' number_field_slots,
                 int_p ''value'' (cl_init_nodes_number s), act_p ''onChange'' Set_nodes] []],
           setup_row
             [VElem ''Typography'' [str_p ''color'' ''text.secondary'']
                [VText ''Are your nodes within the same local network?''],
              network_toggle (cl_network_type s)]],
        VElem ''Stack'' [dec_p ''gap'' 25 1]
          ([VElem ''Stack'' [dec_p ''gap'' 5 1]
              [body_text ''Step 2 - Select the model you would like to host'',
               hint_text
                 [VText (''Currently we support a handful of state-of-the-art open source models. Do keep in mind ''
                    @ ''that larger models require more nodes to host, so If this is your first time trying ''
                    @ ''Parallax, we suggest you to start with smaller models.'')]],
            VElem ''ModelSelect'' [] []]
           @ (case selected_model_info s of
                None \<Rightarrow> []
              | Some m \<Rightarrow> only (needs_vram (Some m)) [vram_alert (vram_texts m)])),
        VElem ''Stack'' [str_p ''direction'' ''row'', str_p ''justifyContent'' ''flex-end'',
                         str_p ''alignItems'' ''center'', int_p ''gap'' 2]
          [VElem ''Button'' [bool_p ''loading'' (sp_loading p), act_p ''onClick'' On_continue]
             [VText ''Continue'']]]"

section \<open>Join\<close>

text \<open>\<open>n >= v\<close>\<close>

fun js_nat_ge :: "nat \<Rightarrow> jsval \<Rightarrow> bool" where
  "js_nat_ge n (JNum x) = (\<not> num_gt x (int n))"
| "js_nat_ge n (JBool b) = (b \<longrightarrow> n \<ge> 1)"
| "js_nat_ge n JNull = True"
| "js_nat_ge n v = False"

definition join_is_error :: "cluster_state \<Rightarrow> bool" where
  "join_is_error s =
     (js_gt (ci_init_nodes_number (cl_info s)) 0
      \<and> js_nat_ge (length (cl_nodes s)) (ci_init_nodes_number (cl_info s))
      \<and> list_all (\<lambda>n. ni_status n = JStr ''available'') (cl_nodes s)
      \<and> ci_status (cl_info s) = JStr ''waiting'')"

definition join_alert :: "bool \<Rightarrow> 'a view" where
  "join_alert is_error =
     (if is_error then
        VElem ''Alert'' [str_p ''key'' ''error'', str_p ''severity'' ''error'', str_p ''variant'' ''standard'']
          [VText (''Your selected model requires more nodes. Please go back to the previous step to add ''
             @ ''more nodes, or choose a smaller model.'')]
      else
        VElem ''Alert'' [str_p ''key'' ''info'', str_p ''severity'' ''info'', str_p ''variant'' ''standard'']
          [VText (''If your nodes cannot connect properly, retry the above join command to restart the ''
             @ ''server.'')])"

definition join_stack_style :: style where
  "join_stack_style = [str_s ''overflowY'' ''auto'']"

definition join_view :: "cluster_state \<Rightarrow> 'a view" where
  "join_view s =
     VElem ''MainLayout''
       [view_p ''contentStart''
          [VElem ''Button''
             [str_p ''component'' ''RouterLink'', str_p ''to'' ''/setup'', str_p ''size'' ''medium'',
              str_p ''color'' ''secondary'', view_p ''startIcon'' [VElem ''IconArrowLeft'' [] []]]
             [VText ''Back'']]]
       [VElem ''Typography'' [str_p ''variant'' ''h1''] [VText ''Get Your Nodes Running''],
        VElem ''Stack'' [int_p ''gap'' 6, obj_p ''sx'' [str_s ''overflow'' ''hidden'']]
          [VElem ''Stack'' [int_p ''gap'' 2]
             [VElem ''Stack'' [int_p ''gap'' 1] [body_text ''Step 1 - Run join command on all nodes''],
              VElem ''JoinCommand'' [] []],
           VElem ''Stack'' [int_p ''gap'' 2, int_p ''flex'' 1]
             ([VElem ''Stack'' [int_p ''gap'' 1]
                 [body_text ''Step 2 - Check your node status'',
                  hint_text
                    [VText (''After you successfully start your nodes, you should see them start to show up below ''
                       @ ''with their status. Once all nodes are connected, you will automatically be directed to ''
                       @ ''the chat interface.'')]],
               join_alert (join_is_error s)]
              @ (case selected_model_info s of
                   None \<Rightarrow> []
                 | Some m \<Rightarrow> only (needs_vram (Some m) \<and> truthy (ci_need_more_nodes (cl_info s)))
                     [vram_alert (VText ''Your selected model requires more nodes.'' # vram_texts m)])
              @ [VElem ''NodeList'' [str_p ''key'' ''node-list''] []])]]"

section \<open>Chat\<close>

definition chat_page_view :: "'a view" where
  "chat_page_view = VElem ''DrawerLayout'' [] [VElem ''ChatMessages'' [] [], VElem ''ChatInput'' [] []]"

section \<open>Properties\<close>

lemma init_done_matches:
  assumes "init_cluster_call s = Inr c"
  shows "\<not> should_init (cluster_effect (init_done c s))"
  using assms
  by (auto simp: init_cluster_call_def should_init_def init_done_def cluster_effect_def
        choose_model_def js_or_def split: if_splits)

text \<open>Pressing Continue with a model chosen and at least one node leads to the join page exactly
  once when the scheduler accepts; what the cluster is then known to run is what was configured,
  so that pressing Continue again does not start the scheduler again.  If the scheduler refuses,
  the page stays, its button is free again and nothing has changed.\<close>

theorem setup_continue:
  assumes "1 \<le> cl_init_nodes_number s" "truthy (cl_model_name s)" "\<not> cl_dirty s"
    and "foldl setup_step (init_setup_page, s) [Continue, Scheduler_answer r] = (p', s')"
  shows "case init_scheduler r of
      Inr d \<Rightarrow> sp_visited p' = [''/join''] \<and> \<not> should_init s' \<and>
        setup_step (p', s') Continue = (p'\<lparr>sp_visited := [''/join'', ''/join'']\<rparr>, s')
    | Inl e \<Rightarrow> s' = s \<and> (should_init s \<longrightarrow> p' = init_setup_page)"
proof -
  obtain c where c: "init_cluster_call s = Inr c"
    using assms(1,2) by (simp add: init_cluster_call_def)
  have effect: "cluster_effect s = s" using assms(3) by (simp add: cluster_effect_def)
  show ?thesis
  proof (cases "should_init s")
    case True
    then show ?thesis
      using assms(4) c effect init_done_matches[OF c]
      by (auto simp: init_setup_page_def on_init_response_def split: sum.splits)
  next
    case False
    then show ?thesis using assms(4) by (auto simp: init_setup_page_def split: sum.splits)
  qed
qed

definition configured :: cluster_state where
  "configured = init_cluster\<lparr>cl_model_name := JStr ''m''\<rparr>"

definition accepted :: response where
  "accepted = Inr (stringify (JObj [str_s ''type'' ''scheduler_init'', obj_s ''data'' []]))"

theorem setup_continue_witness:
  "let (p, s) = foldl setup_step (init_setup_page, configured) [Continue, Scheduler_answer accepted]
   in sp_visited p = [''/join''] \<and> \<not> should_init s"
proof -
  obtain p s where run:
    "foldl setup_step (init_setup_page, configured) [Continue, Scheduler_answer accepted] = (p, s)"
    by fastforce
  have c: "1 \<le> cl_init_nodes_number configured" "truthy (cl_model_name configured)" "\<not> cl_dirty configured"
    by (simp_all add: configured_def init_cluster_def)
  have "init_scheduler accepted = Inr (JObj [])"
    by (simp add: accepted_def init_scheduler_def typed_data_ok[of "JObj []", simplified])
  then show ?thesis using setup_continue[OF c run] run by simp
qed

end
