(* ===== verification/Chat_Input.thy ===== *)
theory Chat_Input
  imports Chat_History Theme
begin

text \<open>
  \<open>components/inputs/chat-input.tsx\<close> and \<open>dot-pulse.tsx\<close>: the input field of the chat with its two
  buttons.  The handlers turn events of the page into actions of the chat provider; a disabled
  button has no clicks.
\<close>

section \<open>The pulse\<close>

datatype dot_pulse_size = Small | Medium | Large

fun size_name :: "dot_pulse_size \<Rightarrow> string" where
  "size_name Small = ''small''"
| "size_name Medium = ''medium''"
| "size_name Large = ''large''"

fun pulse_size_map :: "dot_pulse_size \<Rightarrow> number" where
  "pulse_size_map Small = Num 1 0"
| "pulse_size_map Medium = Num 125 2"
| "pulse_size_map Large = Num 225 2"

definition dot_pulse_root_style :: "dot_pulse_size \<Rightarrow> style" where
  "dot_pulse_root_style sz =
     (let len = print_number (pulse_size_map sz) @ ''rem'' in
      [str_s ''position'' ''relative'', str_s ''width'' len, str_s ''height'' len,
       str_s ''display'' ''inline-flex'', str_s ''flexFlow'' ''row nowrap'',
       str_s ''justifyContent'' ''center'', str_s ''alignItems'' ''center''])"

definition dot_style :: style where
  "dot_style =
     [int_s ''flex'' 1, int_s ''aspectRatio'' 1, str_s ''borderRadius'' ''50%'',
      str_s ''backgroundColor'' ''currentColor'']"

definition pulse_variants :: style where
  "pulse_variants =
     [obj_s ''pulse''
        [(''scale'', JArr [int_v 0, dec_v 6 1, int_v 0, int_v 0]),
         (''keyTimes'', JArr [int_v 0, dec_v 3 1, dec_v 6 1, int_v 1]),
         obj_s ''transition'' [int_s ''duration'' 2, (''repeat'', infinity_v), str_s ''ease'' ''linear'']]]"

definition pulse_transition :: style where
  "pulse_transition = [dec_s ''staggerChildren'' 25 2, int_s ''staggerDirection'' 1]"

definition dot_pulse_view :: "dot_pulse_size \<Rightarrow> 'a view" where
  "dot_pulse_view sz =
     VElem ''DotPulseRoot''
       [str_p ''size'' (size_name sz), str_p ''animate'' ''pulse'', obj_p ''transition'' pulse_transition]
       (map (\<lambda>key. VElem ''Dot'' [int_p ''key'' key, obj_p ''variants'' pulse_variants] []) [1, 2, 3])"

section \<open>Handlers\<close>

datatype input_event =
    Change string
  | Composition_start
  | Composition_end
  | Key_down string bool number
  | Main_click number
  | Clear_click

text \<open>\<open>compositionRef\<close> and the chat; \<open>generate\<close> is given the time that it reads.\<close>

definition on_key_down :: "bool \<Rightarrow> string \<Rightarrow> bool \<Rightarrow> number \<Rightarrow> chat_event option" where
  "on_key_down composing key shift now =
     (if key = ''Enter'' \<and> \<not> shift \<and> \<not> composing then Some (Generate now None) else None)"

definition on_main_button :: "chat_status \<Rightarrow> number \<Rightarrow> chat_event option" where
  "on_main_button status now =
     (if status = Chat_opened \<or> status = Chat_generating then Some Stop
      else if status = Chat_closed \<or> status = Chat_error then Some (Generate now None)
      else None)"

definition main_disabled :: "jsval \<Rightarrow> chat_status \<Rightarrow> bool" where
  "main_disabled cluster status = (cluster \<noteq> JStr ''available'' \<or> status = Chat_opened)"

definition clear_disabled :: "chat_status \<Rightarrow> bool" where
  "clear_disabled status = (status = Chat_opened \<or> status = Chat_generating)"

fun input_action :: "bool \<Rightarrow> chat_sys \<Rightarrow> input_event \<Rightarrow> chat_event option" where
  "input_action composing s (Change t) = Some (Set_input t)"
| "input_action composing s Composition_start = None"
| "input_action composing s Composition_end = None"
| "input_action composing s (Key_down key shift now) = on_key_down composing key shift now"
| "input_action composing s (Main_click now) =
     (if main_disabled (cluster_status s) (chat_status (shown s)) then None
      else on_main_button (chat_status (shown s)) now)"
| "input_action composing s Clear_click =
     (if clear_disabled (chat_status (shown s)) then None else Some Clear)"

fun input_step :: "bool \<times> chat_sys \<Rightarrow> input_event \<Rightarrow> bool \<times> chat_sys" where
  "input_step (composing, s) ev =
     ((case ev of Composition_start \<Rightarrow> True | Composition_end \<Rightarrow> False | _ \<Rightarrow> composing),
      (case input_action composing s ev of None \<Rightarrow> s | Some a \<Rightarrow> chat_step s a))"

section \<open>View\<close>

datatype input_handler =
  On_change | On_composition_start | On_composition_end | On_key_down | On_clear | On_main

fun status_name :: "chat_status \<Rightarrow> string" where
  "status_name Chat_closed = ''closed''"
| "status_name Chat_opened = ''opened''"
| "status_name Chat_generating = ''generating''"
| "status_name Chat_error = ''error''"

definition main_icon :: "chat_status \<Rightarrow> 'a view" where
  "main_icon status =
     (if status = Chat_opened then VElem ''DotPulse'' [str_p ''size'' ''medium''] []
      else if status = Chat_generating then VElem ''IconSquareFilled'' [str_p ''size'' ''1.25rem''] []
      else VElem ''IconArrowUp'' [str_p ''size'' ''1.25rem''] [])"

definition clear_button :: "chat_status \<Rightarrow> input_handler view" where
  "clear_button status =
     VElem ''Button''
       [str_p ''variant'' ''text'', obj_p ''sx'' [str_s ''color'' ''text.secondary''],
        view_p ''startIcon'' [VElem ''IconArrowBackUp'' [] []],
        bool_p ''disabled'' (clear_disabled status), act_p ''onClick'' On_clear]
       [VText ''Clear'']"

definition main_button :: "jsval \<Rightarrow> chat_status \<Rightarrow> input_handler view" where
  "main_button cluster status =
     VElem ''Button''
       [str_p ''size'' ''small'', str_p ''color'' ''primary'',
        bool_p ''disabled'' (main_disabled cluster status), act_p ''onClick'' On_main]
       [main_icon status]"

definition input_slot_style :: style where
  "input_slot_style =
     [str_s ''border'' ''1px solid'', str_s ''borderColor'' ''grey.300'', int_s ''borderRadius'' 2,
      str_s ''fontSize'' ''0.95rem'', str_s ''boxShadow'' ''2px 2px 4px rgba(0,0,0,0.05)'',
      str_s ''flexDirection'' ''column'',
      obj_s ''& textarea''
        [str_s ''fontSize'' ''0.875rem'', str_s ''scrollbarWidth'' ''none'',
         str_s ''msOverflowStyle'' ''none'',
         obj_s ''&::-webkit-scrollbar'' [str_s ''display'' ''none'']]]"

definition chat_input_view :: "chat_sys \<Rightarrow> input_handler view" where
  "chat_input_view s =
     (let status = chat_status (shown s) in
      VElem ''Stack'' [str_p ''data-status'' (status_name status)]
        [VElem ''TextField''
           [str_p ''value'' (chat_input (shown s)), act_p ''onChange'' On_change,
            bool_p ''multiline'' True, int_p ''maxRows'' 4, str_p ''placeholder'' ''Ask anything'',
            bool_p ''fullWidth'' True, act_p ''onCompositionStart'' On_composition_start,
            act_p ''onCompositionEnd'' On_composition_end, act_p ''onKeyDown'' On_key_down,
            (''slotProps'', PObj
              [(''input'', PObj
                 [obj_p ''sx'' input_slot_style,
                  view_p ''endAdornment''
                    [VElem ''Stack''
                       [str_p ''direction'' ''row'',
                        obj_p ''sx'' [str_s ''alignSelf'' ''flex-end'', str_s ''alignItems'' ''center'',
                                      int_s ''gap'' 2]]
                       [clear_button status, main_button (cluster_status s) status]]])])] []])"

section \<open>Properties\<close>

lemma shown_live:
  assumes "chat_reachable s" "shown s = cur s"
  shows "chat_busy (shown s) \<longleftrightarrow> (\<exists>c. live (sse s) c)"
  using chat_reachable_inv[OF assms(1)] sse_ok_busy[of chat_busy "sse s" "cur s"] assms(2)
  by (simp add: chat_inv_def)

text \<open>C32: What the main button shows is the truth and is what a click on it does: after a render it
  shows an arrow exactly when no request is live, and an enabled click on the arrow generates;
  otherwise it shows the stop square, whose enabled click stops, or the pulse, which cannot be
  clicked.  The clear button is enabled exactly when no request is live.\<close>

theorem main_button_truth:
  assumes "chat_reachable s" "shown s = cur s"
  shows "(tag_of (main_icon (chat_status (shown s))) = ''IconArrowUp'' \<longleftrightarrow> (\<forall>c. \<not> live (sse s) c))
    \<and> (clear_disabled (chat_status (shown s)) \<longleftrightarrow> (\<exists>c. live (sse s) c))
    \<and> (case input_action composing s (Main_click now) of
         Some Stop \<Rightarrow> tag_of (main_icon (chat_status (shown s))) = ''IconSquareFilled''
       | Some (Generate t m) \<Rightarrow> tag_of (main_icon (chat_status (shown s))) = ''IconArrowUp'' \<and> m = None
       | Some a \<Rightarrow> False
       | None \<Rightarrow> prop_of ''disabled'' (main_button (cluster_status s) (chat_status (shown s)))
                   = Some (PVal (JBool True)))"
proof -
  have tag: "tag_of (main_icon v) = ''IconArrowUp'' \<longleftrightarrow> \<not> (v = Chat_opened \<or> v = Chat_generating)" for v
    by (cases v) (simp_all add: main_icon_def)
  show ?thesis
    using shown_live[OF assms]
    by (cases "chat_status (shown s)")
       (auto simp: tag chat_busy_def clear_disabled_def main_disabled_def on_main_button_def
          main_button_def prop_of_def main_icon_def)
qed

theorem main_button_truth_witness:
  "tag_of (main_icon (chat_status (shown init_chat_sys))) = ''IconArrowUp''
   \<and> (\<forall>c. \<not> live (sse init_chat_sys) c)"
  using main_button_truth[OF chat_start, of False "num_of_int 0"]
  by (simp add: init_chat_sys_def init_chat_def main_icon_def init_sse_def live_def)

section \<open>Asking for a reply\<close>

text \<open>Whether text is being composed after a run that starts outside of a composition.\<close>

definition composing_after :: "input_event list \<Rightarrow> bool" where
  "composing_after evs =
     (case filter (\<lambda>ev. ev \<in> {Composition_start, Composition_end}) evs of
        [] \<Rightarrow> False | es \<Rightarrow> last es = Composition_start)"

text \<open>Which event asks for a reply, and when.\<close>

fun asks :: "bool \<Rightarrow> chat_status \<Rightarrow> input_event \<Rightarrow> number option" where
  "asks composing status (Key_down key shift now) =
     (if key = ''Enter'' \<and> \<not> shift \<and> \<not> composing then Some now else None)"
| "asks composing status (Main_click now) =
     (if tag_of (main_icon status :: input_handler view) = ''IconArrowUp'' then Some now else None)"
| "asks composing status ev = None"

definition ready_to_send :: "chat_sys \<Rightarrow> bool" where
  "ready_to_send s = (cluster_status s = JStr ''available'' \<and> truthy (cluster_model s)
     \<and> \<not> chat_busy (shown s) \<and> trim (chat_input (shown s)) \<noteq> [])"

lemma composing_run: "fst (foldl input_step (composing, s) evs) \<longleftrightarrow>
    (case filter (\<lambda>ev. ev \<in> {Composition_start, Composition_end}) evs of
       [] \<Rightarrow> composing | es \<Rightarrow> last es = Composition_start)"
  by (induction evs arbitrary: composing s) (auto split: list.split input_event.split)

lemma input_reachable: "chat_reachable s \<Longrightarrow> chat_reachable (snd (foldl input_step (composing, s) evs))"
proof (induction evs arbitrary: composing s)
  case (Cons ev evs)
  then show ?case by (auto split: option.split intro: chat_next)
qed simp

lemma asks_generate:
  "asks composing (chat_status (shown s)) ev = Some now \<Longrightarrow> ready_to_send s \<Longrightarrow>
     input_action composing s ev = Some (Generate now None)"
  by (cases ev; cases "chat_status (shown s)") (auto simp: on_key_down_def ready_to_send_def main_icon_def main_disabled_def on_main_button_def
      chat_busy_def split: if_splits)

lemma generates_asks:
  "input_action composing s ev = Some (Generate now m) \<Longrightarrow>
     m = None \<and> asks composing (chat_status (shown s)) ev = Some now"
  by (cases ev) (auto simp: on_key_down_def main_icon_def on_main_button_def split: if_splits)

lemma not_ready: "\<not> ready_to_send s \<Longrightarrow> generate now None s = s"
  by (auto simp: ready_to_send_def generate_def chat_busy_def Let_def)

text \<open>C33: What leaves the input field.  After any run of it that starts outside of a composition, an event
  sends a request exactly when it asks for a reply - Enter without the shift key while no text is being
  composed, or a click on the main button while that shows the arrow - and the cluster shown is available and has
  a model, no reply is shown as running and there is something other than spaces to send; the request then
  carries the messages shown and the trimmed text, and the field is emptied.  Nothing else sends anything.\<close>

theorem input_sends:
  assumes "chat_reachable s" "foldl input_step (False, s) evs = (composing, t)" "\<not> chat_crashed (shown t)"
  shows "let t' = snd (input_step (composing, t) ev) in
    case asks (composing_after evs) (chat_status (shown t)) ev of
      Some now \<Rightarrow>
        if ready_to_send t
        then requests t' = requests t @ [(cluster_model t,
               map to_request (chat_messages (shown t) @ [user_message now (trim (chat_input (shown t)))]))]
             \<and> chat_input (shown t') = []
        else requests t' = requests t
    | None \<Rightarrow> requests t' = requests t"
proof -
  have reach: "chat_reachable t" using input_reachable [OF assms(1), of False evs] assms(2) by simp
  have comp: "composing_after evs = composing"
    using composing_run [of False s evs] assms(2) by (simp add: composing_after_def)
  note run = step_generate [OF reach assms(3)]
  show ?thesis
  proof (cases "\<exists>now. asks composing (chat_status (shown t)) ev = Some now \<and> ready_to_send t")
    case True
    then obtain now where now: "asks composing (chat_status (shown t)) ev = Some now" "ready_to_send t" by blast
    then show ?thesis
      using asks_generate [OF now] generate_new [of t] run
      by (simp add: comp Let_def ready_to_send_def render_def start_generation_sel del: chat_step.simps)
  next
    case False
    have "requests (chat_step t a) = requests t" if a: "input_action composing t ev = Some a" for a
    proof (cases "\<exists>now m. a = Generate now m")
      case True
      then obtain now m where "a = Generate now m" by blast
      moreover from this have "m = None" "\<not> ready_to_send t" using generates_asks [of composing t ev] a False by auto
      ultimately show ?thesis using not_ready run by (simp add: render_def del: chat_step.simps)
    qed (use request_cases [OF reach, of a] in blast)
    then show ?thesis
      using False by (auto simp: comp Let_def split: option.split simp del: chat_step.simps)
  qed
qed

theorem input_sends_witness:
  "let (composing, t) = foldl input_step (False, chat_run init_chat_sys [Cluster (JStr ''available'') (JStr ''m'')])
         [Composition_start, Change '' ni '', Key_down ''Enter'' False (Num 1 0), Composition_end] in
    requests t = [] \<and>
    requests (snd (input_step (composing, t) (Key_down ''Enter'' False (Num 5 0))))
      = [(JStr ''m'', [to_request (user_message (Num 5 0) ''ni'')])]"
proof -
  let ?s = "chat_run init_chat_sys [Cluster (JStr ''available'') (JStr ''m'')]"
  let ?evs = "[Composition_start, Change '' ni '', Key_down ''Enter'' False (Num 1 0), Composition_end]"
  obtain composing t where run: "foldl input_step (False, ?s) ?evs = (composing, t)" by fastforce
  then have t: "t = snd (foldl input_step (False, ?s) ?evs)" by simp
  have facts: "\<not> chat_crashed (shown t)" "ready_to_send t" "requests t = []" "cluster_model t = JStr ''m''"
    "chat_messages (shown t) = []" "trim (chat_input (shown t)) = ''ni''"
    unfolding t by code_simp+
  have "asks (composing_after ?evs) (chat_status (shown t)) (Key_down ''Enter'' False (Num 5 0)) = Some (Num 5 0)"
    by (simp add: composing_after_def)
  moreover have "chat_reachable ?s" by (intro reachable_run chat_start)
  ultimately show ?thesis
    unfolding run using input_sends [OF _ run facts(1), of "Key_down ''Enter'' False (Num 5 0)"] facts
    by (simp add: Let_def del: input_step.simps)
qed

end
