(* ===== verification/Chat_Messages.thy ===== *)
theory Chat_Messages
  imports Complex_Main Chat_Input
begin

text \<open>
  \<open>components/inputs/chat-messages.tsx\<close>: the scrolling list of messages and one message with its
  buttons.  The scroll container reports its positions in pixels, which are rational numbers.
\<close>

section \<open>Scrolling\<close>

text \<open>
  The refs of the component and what it has scheduled: scrolls waiting for an animation frame, the
  timers of \<open>scrollToBottom\<close>, and the timer of the effect, which its clean-up cancels.
\<close>

record scroll_state =
  sc_mounted :: bool
  sc_is_bottom :: bool
  sc_user_up :: bool
  sc_auto :: bool
  sc_prev_top :: rat
  sc_frames :: nat
  sc_timers :: nat
  sc_effect_timer :: bool

definition init_scroll :: scroll_state where
  "init_scroll = \<lparr>sc_mounted = True, sc_is_bottom = True, sc_user_up = False, sc_auto = False,
     sc_prev_top = 0, sc_frames = 0, sc_timers = 0, sc_effect_timer = False\<rparr>"

definition scroll_to_bottom :: "scroll_state \<Rightarrow> scroll_state" where
  "scroll_to_bottom s =
     (if \<not> sc_mounted s then s
      else s\<lparr>sc_user_up := False, sc_auto := True, sc_frames := Suc (sc_frames s),
             sc_timers := Suc (sc_timers s)\<rparr>)"

definition messages_effect :: "scroll_state \<Rightarrow> scroll_state" where
  "messages_effect s =
     (if sc_user_up s then s\<lparr>sc_effect_timer := False\<rparr>
      else (scroll_to_bottom (s\<lparr>sc_auto := True\<rparr>))\<lparr>sc_effect_timer := True\<rparr>)"

definition on_scroll :: "rat \<Rightarrow> rat \<Rightarrow> rat \<Rightarrow> scroll_state \<Rightarrow> scroll_state" where
  "on_scroll scroll_top height client s =
     (if \<not> sc_mounted s then s
      else
        (let gap = height - scroll_top - client;
             up = (if \<not> sc_auto s \<and> scroll_top < sc_prev_top s - 2 then True else sc_user_up s)
         in s\<lparr>sc_is_bottom := (gap < 10), sc_prev_top := scroll_top,
              sc_user_up := (if gap < 10 then False else up)\<rparr>))"

definition on_wheel :: "rat \<Rightarrow> scroll_state \<Rightarrow> scroll_state" where
  "on_wheel delta s = (if delta < 0 then s\<lparr>sc_user_up := True\<rparr> else s)"

definition on_touch_move :: "scroll_state \<Rightarrow> scroll_state" where
  "on_touch_move s = s\<lparr>sc_user_up := True\<rparr>"

datatype scroll_event =
    Messages_changed
  | Scrolled rat rat rat
  | Wheel rat
  | Touch_move
  | Bottom_click
  | Frame
  | Bottom_timer
  | Effect_timer

fun scroll_step :: "scroll_state \<Rightarrow> scroll_event \<Rightarrow> scroll_state" where
  "scroll_step s Messages_changed = messages_effect s"
| "scroll_step s (Scrolled scroll_top height client) = on_scroll scroll_top height client s"
| "scroll_step s (Wheel d) = on_wheel d s"
| "scroll_step s Touch_move = on_touch_move s"
| "scroll_step s Bottom_click = scroll_to_bottom s"
| "scroll_step s Frame = s\<lparr>sc_frames := sc_frames s - 1\<rparr>"
| "scroll_step s Bottom_timer =
     (if sc_timers s > 0 then s\<lparr>sc_timers := sc_timers s - 1, sc_auto := False\<rparr> else s)"
| "scroll_step s Effect_timer =
     (if sc_effect_timer s then s\<lparr>sc_effect_timer := False, sc_auto := False\<rparr> else s)"

section \<open>The list\<close>

datatype messages_handler = On_scroll | On_wheel | On_touch_move | Scroll_to_bottom

fun role_value :: "role \<Rightarrow> jsval" where
  "role_value Role_user = JStr ''user''"
| "role_value Role_assistant = JStr ''assistant''"
| "role_value (Role_other v) = v"

fun message_status_name :: "message_status \<Rightarrow> string" where
  "message_status_name Msg_waiting = ''waiting''"
| "message_status_name Msg_thinking = ''thinking''"
| "message_status_name Msg_generating = ''generating''"
| "message_status_name Msg_done = ''done''"
| "message_status_name Msg_error = ''error''"

definition message_value :: "chat_message \<Rightarrow> jsval" where
  "message_value m =
     (let opt = (\<lambda>k v. case v of None \<Rightarrow> [] | Some t \<Rightarrow> [str_s k t]) in
      JObj ([(''id'', msg_id m), (''role'', role_value (msg_role m)),
             str_s ''status'' (message_status_name (msg_status m)), str_s ''content'' (msg_content m)]
            @ opt ''raw'' (msg_raw m) @ opt ''thinking'' (msg_thinking m)
            @ [(''createdAt'', msg_created m)]))"

definition scroll_button_view :: "bool \<Rightarrow> messages_handler view" where
  "scroll_button_view is_bottom =
     VElem ''IconButton''
       [str_p ''key'' ''scroll-to-bottom'', act_p ''onClick'' Scroll_to_bottom, str_p ''size'' ''small'',
        str_p ''aria-label'' ''Scroll to bottom'',
        obj_p ''sx''
          [str_s ''position'' ''absolute'', int_s ''right'' 12, int_s ''bottom'' 8,
           int_s ''width'' 28, int_s ''height'' 28, str_s ''bgcolor'' ''white'',
           str_s ''border'' ''1px solid'', str_s ''borderColor'' ''grey.300'',
           obj_s ''&:hover'' [str_s ''bgcolor'' ''grey.100''],
           int_s ''opacity'' (if is_bottom then 0 else 1),
           str_s ''pointerEvents'' (if is_bottom then ''none'' else ''auto''),
           str_s ''transition'' ''opacity .15s ease'']]
       [VElem ''IconArrowDown'' [] []]"

definition stream_style :: style where
  "stream_style =
     [str_s ''width'' ''100%'', str_s ''height'' ''100%'', str_s ''overflowX'' ''hidden'',
      str_s ''overflowY'' ''scroll'', obj_s ''&::-webkit-scrollbar'' [str_s ''display'' ''none''],
      str_s ''scrollbarWidth'' ''none'', str_s ''msOverflowStyle'' ''none'',
      str_s ''display'' ''flex'', int_s ''gap'' 4]"

definition message_elements :: "chat_message list \<Rightarrow> 'a view list" where
  "message_elements ms =
     map (\<lambda>(idx, m). VElem ''ChatMessage''
            [val_p ''key'' (msg_id m), val_p ''message'' (message_value m),
             bool_p ''isLast'' (idx = int (length ms) - 1)] [])
       (zip (map int [0..<length ms]) ms)"

definition stream_view :: "chat_state \<Rightarrow> messages_handler view" where
  "stream_view c =
     VElem ''Stack''
       [str_p ''key'' ''stream'', obj_p ''sx'' stream_style, act_p ''onScroll'' On_scroll,
        act_p ''onWheel'' On_wheel, act_p ''onTouchMove'' On_touch_move]
       (message_elements (chat_messages c)
        @ only (chat_status c = Chat_opened) [VElem ''DotPulse'' [str_p ''size'' ''large''] []]
        @ [VElem ''Box'' [obj_p ''sx'' [str_s ''width'' ''100%'', int_s ''height'' 0]] []])"

definition chat_messages_view :: "scroll_state \<Rightarrow> chat_state \<Rightarrow> messages_handler view" where
  "chat_messages_view s c =
     VElem ''Box''
       [obj_p ''sx'' [str_s ''position'' ''relative'', int_s ''flex'' 1, str_s ''overflow'' ''hidden'']]
       [stream_view c, scroll_button_view (sc_is_bottom s)]"

section \<open>One message\<close>

datatype message_handler = On_copy | On_regenerate

text \<open>
  \<open>copied\<close> and its timer: the effect runs at the first render and whenever \<open>copied\<close> has changed.
\<close>

record copy_state =
  cs_copied :: bool
  cs_timer :: bool

definition mount_copy :: copy_state where
  "mount_copy = \<lparr>cs_copied = False, cs_timer = True\<rparr>"

definition set_copied :: "bool \<Rightarrow> copy_state \<Rightarrow> copy_state" where
  "set_copied b s = (if cs_copied s = b then s else s\<lparr>cs_copied := b, cs_timer := True\<rparr>)"

text \<open>\<open>onCopy\<close> writes the content to the clipboard; \<open>onRegenerate\<close> calls \<open>generate\<close> with the message.\<close>

definition on_copy :: "chat_message \<Rightarrow> copy_state \<Rightarrow> string \<times> copy_state" where
  "on_copy m s = (msg_content m, set_copied True s)"

definition copy_timer :: "copy_state \<Rightarrow> copy_state" where
  "copy_timer s = (if cs_timer s then set_copied False (s\<lparr>cs_timer := False\<rparr>) else s)"

definition on_regenerate :: "number \<Rightarrow> chat_message \<Rightarrow> chat_event" where
  "on_regenerate now m = Generate now (Some m)"

definition show_copy :: "chat_message \<Rightarrow> bool" where
  "show_copy m = (msg_role m = Role_user \<or> msg_role m = Role_assistant \<and> msg_status m = Msg_done)"

definition show_regenerate :: "chat_message \<Rightarrow> bool" where
  "show_regenerate m = (msg_role m = Role_assistant \<and> msg_status m = Msg_done)"

definition message_content_view :: "chat_message \<Rightarrow> 'a view list" where
  "message_content_view m =
     (if msg_role m = Role_user then
        [VElem ''Typography''
           [str_p ''key'' ''user-message'', str_p ''variant'' ''body1'',
            obj_p ''sx'' [int_s ''px'' 2, dec_s ''py'' 15 1, str_s ''borderRadius'' ''0.5rem'',
                          str_s ''backgroundColor'' ''background.default'', str_s ''fontSize'' ''0.875rem'']]
           [VText (msg_content m)]]
      else
        (case msg_thinking m of
           None \<Rightarrow> []
         | Some t \<Rightarrow> only (t \<noteq> [])
             [VElem ''ChatMarkdown'' [str_p ''key'' ''assistant-thinking'', bool_p ''isThinking'' True,
                                      str_p ''content'' t] []])
        @ only (msg_content m \<noteq> [])
            [VElem ''ChatMarkdown'' [str_p ''key'' ''assistant-message'',
                                     str_p ''content'' (msg_content m)] []])"

definition tooltip_slots :: style where
  "tooltip_slots =
     [obj_s ''tooltip'' [obj_s ''sx'' [str_s ''bgcolor'' ''primary.main'', int_s ''borderRadius'' 1]],
      obj_s ''popper''
        [(''modifiers'', JArr [JObj [str_s ''name'' ''offset'',
            obj_s ''options'' [(''offset'', JArr [int_v 0, int_v (-8)])]]])]]"

definition action_button :: "string \<Rightarrow> string \<Rightarrow> message_handler \<Rightarrow> string \<Rightarrow> message_handler view" where
  "action_button key title handler icon =
     VElem ''Tooltip''
       [str_p ''key'' key, str_p ''title'' title, obj_p ''slotProps'' tooltip_slots]
       [VElem ''IconButton''
          [act_p ''onClick'' handler, str_p ''size'' ''small'',
           obj_p ''sx'' [int_s ''width'' 24, int_s ''height'' 24, str_s ''borderRadius'' ''8px'',
                         obj_s ''&:hover'' [str_s ''bgcolor'' ''action.hover'']]]
          [VElem icon [] []]]"

definition message_actions_view :: "chat_message \<Rightarrow> bool \<Rightarrow> message_handler view" where
  "message_actions_view m copied =
     (let user = (msg_role m = Role_user) in
      VElem ''Stack''
        [str_p ''key'' ''actions'', str_p ''direction'' ''row'',
         val_p ''className'' (if user then JStr ''actions-user'' else JUndef),
         obj_p ''sx''
           ([str_s ''justifyContent'' (if user then ''flex-end'' else ''flex-start''),
             str_s ''color'' ''grey.600'', dec_s ''gap'' 5 1]
            @ only user [int_s ''opacity'' 0, str_s ''pointerEvents'' ''none'',
                         str_s ''transition'' ''opacity .15s ease''])]
        (only (show_copy m)
           [action_button ''copy'' (if copied then ''Copied!'' else ''Copy'') On_copy
              (if copied then ''IconCopyCheck'' else ''IconCopy'')]
         @ only (show_regenerate m)
             [action_button ''regenerate'' ''Regenerate'' On_regenerate ''IconRefresh'']))"

definition chat_message_view :: "chat_message \<Rightarrow> bool \<Rightarrow> message_handler view" where
  "chat_message_view m copied =
     (let user = (msg_role m = Role_user);
          justify = (if user then ''flex-end'' else ''flex-start'') in
      VElem ''Stack''
        [str_p ''direction'' ''row'',
         obj_p ''sx'' [str_s ''width'' ''100%'', str_s ''justifyContent'' justify]]
        [VElem ''Stack''
           [obj_p ''sx''
              ([(''maxWidth'', if user then JObj [str_s ''xs'' ''100%'', str_s ''md'' ''80%''] else JStr ''100%''),
                str_s ''alignSelf'' justify, int_s ''gap'' 1]
               @ only user
                   [obj_s ''&:hover .actions-user''
                      [int_s ''opacity'' 1, str_s ''pointerEvents'' ''auto'']])]
           (message_content_view m
            @ only (show_copy m \<or> show_regenerate m) [message_actions_view m copied])])"

section \<open>Properties\<close>

text \<open>The events by which the user comes back to the bottom.\<close>

fun back_to_bottom :: "scroll_event \<Rightarrow> bool" where
  "back_to_bottom (Scrolled scroll_top height client) = (height - scroll_top - client < 10)"
| "back_to_bottom Bottom_click = True"
| "back_to_bottom ev = False"

lemma user_up_step:
  assumes "sc_user_up s" "\<not> back_to_bottom ev"
  shows "sc_user_up (scroll_step s ev) \<and> sc_frames (scroll_step s ev) \<le> sc_frames s"
  using assms by (cases ev) (auto simp: messages_effect_def on_scroll_def on_wheel_def
    on_touch_move_def Let_def)

text \<open>C36: Once the user has moved the list upwards by wheel or touch, no message that arrives scrolls it:
  until the user comes within ten pixels of the end or presses the button, no new scroll is
  requested, and pressing the button requests one and follows the messages again.\<close>

theorem scroll_respects_user:
  assumes "sc_mounted s" "list_all (\<lambda>ev. \<not> back_to_bottom ev) evs"
    and "ev = Touch_move \<or> (\<exists>d. ev = Wheel d \<and> d < 0)"
  shows "let t = foldl scroll_step (scroll_step s ev) evs in
    sc_user_up t \<and> sc_frames t \<le> sc_frames s
    \<and> sc_frames (scroll_step (scroll_step t Bottom_click) Messages_changed) = sc_frames t + 2
    \<and> \<not> sc_user_up (scroll_step t Bottom_click)"
proof -
  have mounted: "sc_mounted (scroll_step s ev) = sc_mounted s" for s ev
    by (cases ev) (auto simp: messages_effect_def on_scroll_def on_wheel_def on_touch_move_def
      scroll_to_bottom_def Let_def)
  have run: "sc_user_up s \<Longrightarrow> list_all (\<lambda>ev. \<not> back_to_bottom ev) evs \<Longrightarrow>
      sc_user_up (foldl scroll_step s evs) \<and> sc_frames (foldl scroll_step s evs) \<le> sc_frames s
      \<and> sc_mounted (foldl scroll_step s evs) = sc_mounted s" for s
  proof (induction evs arbitrary: s)
    case (Cons ev evs)
    have "sc_user_up (scroll_step s ev) \<and> sc_frames (scroll_step s ev) \<le> sc_frames s"
      using user_up_step Cons.prems by simp
    then show ?case
      using Cons.IH[of "scroll_step s ev"] Cons.prems mounted by force
  qed simp
  have first: "sc_user_up (scroll_step s ev)" "sc_frames (scroll_step s ev) = sc_frames s"
    using assms(3) by (auto simp: on_wheel_def on_touch_move_def)
  show ?thesis
    using run[OF first(1) assms(2)] first mounted assms(1)
    by (simp add: Let_def scroll_to_bottom_def messages_effect_def)
qed

theorem scroll_respects_user_witness:
  "sc_frames (foldl scroll_step (scroll_step init_scroll Touch_move)
     [Messages_changed, Scrolled 100 1000 300, Messages_changed]) = 0"
proof -
  have "list_all (\<lambda>ev. \<not> back_to_bottom ev) [Messages_changed, Scrolled 100 1000 300, Messages_changed]"
    by simp
  then show ?thesis
    using scroll_respects_user[of init_scroll _ Touch_move] by (fastforce simp: init_scroll_def Let_def)
qed

end
