(* ===== verification/Model_Select.thy ===== *)
theory Model_Select
  imports Cluster_Facts Theme
begin

text \<open>
  \<open>components/inputs/model-select.tsx\<close>: the selector of the model.  In the layout of the chat it
  commits a choice by calling \<open>init\<close> from an effect, which runs after a render in which
  \<open>canAutoCommit\<close> or the configured model has changed.
\<close>

section \<open>Choosing\<close>

text \<open>
  The state of the selector beside the cluster provider: \<open>canAutoCommit\<close>, the dependencies at the
  last run of the effect, and the models for which \<open>init\<close> has been called.
\<close>

record select_state =
  sl_can :: bool
  sl_seen :: "bool \<times> jsval"
  sl_sys :: cluster_sys
  sl_calls :: "jsval list"

definition configured_model :: "select_state \<Rightarrow> jsval" where
  "configured_model st = cl_model_name (sys_cluster (sl_sys st))"

definition running_model :: "select_state \<Rightarrow> jsval" where
  "running_model st = ci_model_name (cl_info (sys_cluster (sl_sys st)))"

definition mount_select :: "cluster_sys \<Rightarrow> select_state" where
  "mount_select s = \<lparr>sl_can = False, sl_seen = (False, cl_model_name (sys_cluster s)), sl_sys = s, sl_calls = []\<rparr>"

text \<open>After \<open>setCanAutoCommit(false)\<close> the effect runs once more and does nothing.\<close>

definition commit_effect :: "string \<Rightarrow> select_state \<Rightarrow> select_state" where
  "commit_effect base st =
     (if (sl_can st, configured_model st) = sl_seen st then st
      else if sl_can st \<and> configured_model st \<noteq> running_model st then
        st\<lparr>sl_can := False, sl_seen := (False, configured_model st),
           sl_sys := cluster_step base (sl_sys st) Init_cluster,
           sl_calls := sl_calls st @ [configured_model st]\<rparr>
      else st\<lparr>sl_seen := (sl_can st, configured_model st)\<rparr>)"

definition on_select :: "string \<Rightarrow> bool \<Rightarrow> string \<Rightarrow> select_state \<Rightarrow> select_state" where
  "on_select base auto_commit name st =
     st\<lparr>sl_can := (if auto_commit then True else sl_can st),
        sl_sys := cluster_step base (sl_sys st) (Set_model_name (JStr name))\<rparr>"

datatype select_event = Choose string | Provider cluster_event

fun select_step :: "string \<Rightarrow> bool \<Rightarrow> select_state \<Rightarrow> select_event \<Rightarrow> select_state" where
  "select_step base auto_commit st (Choose name) =
     commit_effect base (on_select base auto_commit name st)"
| "select_step base auto_commit st (Provider ev) =
     commit_effect base (st\<lparr>sl_sys := cluster_step base (sl_sys st) ev\<rparr>)"

section \<open>Styles\<close>

definition model_select_root_style :: "string \<Rightarrow> style" where
  "model_select_root_style variant = override
     [str_s ''height'' (if variant = ''outlined'' then ''4rem'' else ''1lh''),
      (''paddingInline'', JStr (spacing_of (Num 5 1))), int_s ''borderRadius'' 12,
      obj_s ''&:hover'' [str_s ''backgroundColor'' ''action.hover''],
      obj_s ''.MuiSelect-select:hover'' [str_s ''backgroundColor'' ''transparent'']]
     (only (variant = ''text'')
        (override text_h3
           [(''fontWeight'', typography_value ''fontWeightMedium''),
            obj_s ''.MuiSelect-select''
              [str_s ''fontSize'' ''inherit'', str_s ''fontWeight'' ''inherit'',
               str_s ''lineHeight'' ''inherit'', int_s ''padding'' 0],
            obj_s ''&:hover'' [str_s ''backgroundColor'' ''transparent'']]))"

definition model_option_style :: style where
  "model_option_style = [str_s ''height'' ''3.25rem'', (''gap'', spacing 1), int_s ''borderRadius'' 10]"

definition value_row_style :: style where
  "value_row_style =
     [str_s ''flexDirection'' ''row'', str_s ''alignItems'' ''center'', (''gap'', spacing 1),
      (''padding'', spacing 1), obj_s ''&:hover'' [str_s ''backgroundColor'' ''transparent''],
      str_s ''pointerEvents'' ''none'']"

definition model_extra_status_style :: style where
  "model_extra_status_style =
     [str_s ''width'' ''1rem'', str_s ''height'' ''1rem'',
      obj_s ''& > .tabler-icon'' [str_s ''width'' ''1rem'', str_s ''height'' ''1rem'']]"

definition model_logo_style :: style where
  "model_logo_style =
     [str_s ''width'' ''2.25rem'', str_s ''height'' ''2.25rem'', str_s ''borderRadius'' ''0.5rem'',
      str_s ''border'' (''1px solid '' @ js_to_string (shade grey_scale ''250'')),
      str_s ''objectFit'' ''cover'']"

definition model_display_name_style :: style where
  "model_display_name_style = override text_subtitle2
     [str_s ''fontSize'' ''0.875rem'', str_s ''lineHeight'' ''1.125rem'',
      (''fontWeight'', typography_value ''fontWeightLight''), (''color'', color_of ''text'' ''primary'')]"

definition model_name_style :: style where
  "model_name_style = override text_body2
     [str_s ''fontSize'' ''0.75rem'', str_s ''lineHeight'' ''1rem'',
      (''fontWeight'', typography_value ''fontWeightLight''), (''color'', color_of ''text'' ''secondary'')]"

section \<open>View\<close>

definition model_names_view :: "model_info \<Rightarrow> 'a view" where
  "model_names_view m =
     VElem ''Stack'' [dec_p ''gap'' 25 2]
       [VElem ''ModelDisplayName'' [] [VText (mi_display_name m)],
        VElem ''ModelName'' [] [VText (mi_name m)]]"

definition render_option :: "model_info \<Rightarrow> bool \<Rightarrow> bool \<Rightarrow> 'a view" where
  "render_option m selected loading =
     VElem ''ModelSelectOption'' [str_p ''key'' (mi_name m), str_p ''value'' (mi_name m)]
       [VElem ''ModelExtraStatus''
          (only loading
             [obj_p ''animate'' [int_s ''rotate'' 360],
              obj_p ''transition'' [(''repeat'', infinity_v), str_s ''ease'' ''linear'',
                                    int_s ''duration'' 2]])
          (if loading then [VElem ''IconLoader'' [] []]
           else only selected [VElem ''IconCheck'' [] []]),
        VElem ''ModelLogo'' [str_p ''src'' (mi_logo_url m)] [],
        model_names_view m]"

definition option_selected :: "cluster_state \<Rightarrow> model_info \<Rightarrow> bool" where
  "option_selected s m =
     (JStr (mi_name m) = cl_model_name s \<or> JStr (mi_name m) = ci_model_name (cl_info s))"

definition option_loading :: "cluster_state \<Rightarrow> model_info \<Rightarrow> bool" where
  "option_loading s m =
     (ci_status (cl_info s) \<noteq> JStr ''idle'' \<and> JStr (mi_name m) = cl_model_name s
      \<and> cl_model_name s \<noteq> ci_model_name (cl_info s))"

definition render_value :: "string \<Rightarrow> cluster_state \<Rightarrow> jsval \<Rightarrow> 'a view list" where
  "render_value variant s value =
     (case find_model value (cl_models s) of
        None \<Rightarrow> only (value \<noteq> JUndef \<and> value \<noteq> JNull) [VText (js_to_string value)]
      | Some m \<Rightarrow>
          if variant = ''outlined'' then
            [VElem ''ValueRow'' []
               [VElem ''ModelLogo'' [str_p ''src'' (mi_logo_url m)] [], model_names_view m]]
          else [VText (mi_name m)])"

datatype select_handler = On_select

definition model_select_view :: "string \<Rightarrow> host_type \<Rightarrow> cluster_state \<Rightarrow> select_handler view" where
  "model_select_view variant host s =
     VElem ''ModelSelectRoot''
       [obj_p ''ownerState'' [str_s ''variant'' variant], bool_p ''readOnly'' (host = Node_host),
        view_p ''input'' [VElem (if variant = ''outlined'' then ''OutlinedInput'' else ''InputBase'') [] []],
        val_p ''value'' (cl_model_name s), act_p ''onChange'' On_select,
        view_p ''renderValue'' (render_value variant s (cl_model_name s)),
        val_p ''IconComponent'' (if host = Node_host then JStr ''() => null'' else JUndef)]
       (map (\<lambda>m. render_option m (option_selected s m) (option_loading s m)) (cl_models s))"

section \<open>Properties\<close>

text \<open>A step of the provider that is no choice keeps the configured model or takes the running one.\<close>

lemma effect_config:
  "truthy (cl_model_name c) \<Longrightarrow>
     cl_model_name (cluster_effect c) = cl_model_name c
     \<or> cl_model_name (cluster_effect c) = ci_model_name (cl_info (cluster_effect c))"
  "\<not> cl_dirty (cluster_effect c)"
  by (auto simp: cluster_effect_def choose_model_def js_or_def Let_def)

lemma effect_truthy: "truthy (cl_model_name c) \<Longrightarrow> truthy (cl_model_name (cluster_effect c))"
  by (auto simp: cluster_effect_def choose_model_def js_or_def Let_def)

lemma provider_step_shape:
  assumes "\<forall>v. ev \<noteq> Set_model_name v"
  shows "sys_cluster (cluster_step base s ev) = sys_cluster s
    \<or> (\<exists>c. sys_cluster (cluster_step base s ev) = cluster_effect c
         \<and> cl_model_name c = cl_model_name (sys_cluster s))"
proof (cases ev)
  case (Stream_event e)
  then show ?thesis
    using stream_step[of e base s] stream_config[of base s e]
    by (cases "from_network e") (auto simp: config_of_def)
next
  case (Init_response k r)
  have "cl_model_name (fst (on_init_response c r t)) = cl_model_name t" for c t
    by (simp add: on_init_response_def init_done_def split: sum.split)
  then show ?thesis using Init_response by (auto simp: cluster_simps)
next
  case (Models_response r)
  then show ?thesis by (fastforce simp: cluster_simps split: sum.split)
qed (use assms in \<open>fastforce simp: cluster_simps split: sum.split\<close>)+

lemma provider_step_config:
  assumes "\<forall>v. ev \<noteq> Set_model_name v" "truthy (cl_model_name (sys_cluster s))" "\<not> cl_dirty (sys_cluster s)"
  shows "(cl_model_name (sys_cluster (cluster_step base s ev)) = cl_model_name (sys_cluster s)
      \<or> cl_model_name (sys_cluster (cluster_step base s ev))
          = ci_model_name (cl_info (sys_cluster (cluster_step base s ev))))"
  using provider_step_shape[OF assms(1), of base s] effect_config(1) assms(2) by metis

lemma provider_step_clean:
  "\<not> cl_dirty (sys_cluster s) \<Longrightarrow> \<forall>v. ev \<noteq> Set_model_name v \<Longrightarrow>
     \<not> cl_dirty (sys_cluster (cluster_step base s ev))"
  using provider_step_shape[of ev base s] effect_config(2) by metis

lemma choose_step:
  assumes "\<not> cl_dirty (sys_cluster s)"
  shows "sys_cluster (cluster_step base s (Set_model_name v)) = (sys_cluster s)\<lparr>cl_model_name := v\<rparr>"
  using assms by (simp add: cluster_simps cluster_effect_def)

lemma init_step: "sys_cluster (cluster_step base s Init_cluster) = sys_cluster s"
  by (simp split: sum.split)

lemma reachable_clean: "cluster_reachable base host s \<Longrightarrow> \<not> cl_dirty (sys_cluster s)"
proof (induction rule: cluster_reachable.induct)
  case cluster_mounted
  then show ?case by (simp add: mounted_state init_cluster_def)
next
  case (cluster_next s ev)
  then show ?case
    using provider_step_clean[of s ev base] choose_step[of s base]
    by (cases "\<exists>v. ev = Set_model_name v") (auto simp del: cluster_step.simps)
qed

text \<open>
  The states of a mounted selector: it offers models that have a name, Material UI reports a choice
  that differs from the shown value only, and nobody else sets the model.
\<close>

definition select_allowed :: "select_state \<Rightarrow> select_event \<Rightarrow> bool" where
  "select_allowed st ev =
     (case ev of
        Choose name \<Rightarrow> name \<noteq> [] \<and> JStr name \<noteq> configured_model st
      | Provider e \<Rightarrow> (case e of Set_model_name v \<Rightarrow> False | _ \<Rightarrow> True))"

inductive select_reachable :: "string \<Rightarrow> bool \<Rightarrow> select_state \<Rightarrow> bool" for base auto_commit where
  select_mounted: "cluster_reachable base host s \<Longrightarrow> select_reachable base auto_commit (mount_select s)"
| select_next: "select_reachable base auto_commit st \<Longrightarrow> select_allowed st ev \<Longrightarrow>
    select_reachable base auto_commit (select_step base auto_commit st ev)"

definition select_ok :: "bool \<Rightarrow> select_state \<Rightarrow> bool" where
  "select_ok auto_commit st =
     (sl_seen st = (sl_can st, configured_model st) \<and> \<not> cl_dirty (sys_cluster (sl_sys st))
      \<and> (sl_can st \<longrightarrow> auto_commit \<and> truthy (configured_model st)))"

lemma commit_effect_ok:
  assumes "\<not> cl_dirty (sys_cluster (sl_sys st))" "sl_can st \<longrightarrow> auto_commit \<and> truthy (configured_model st)"
  shows "select_ok auto_commit (commit_effect base st)"
  using assms init_step[of base "sl_sys st"]
  by (auto simp: select_ok_def commit_effect_def configured_model_def simp del: cluster_step.simps)

lemma commit_effect_calls:
  "sl_calls (commit_effect base st) = sl_calls st
     @ only ((sl_can st, configured_model st) \<noteq> sl_seen st \<and> sl_can st
             \<and> configured_model st \<noteq> running_model st) [configured_model st]"
  by (auto simp: commit_effect_def)

text \<open>The call that a step makes: a choice that differs from the running model, when it commits.\<close>

definition commits :: "bool \<Rightarrow> select_state \<Rightarrow> select_event \<Rightarrow> jsval list" where
  "commits auto_commit st ev =
     (case ev of
        Choose name \<Rightarrow> only (auto_commit \<and> JStr name \<noteq> running_model st) [JStr name]
      | Provider e \<Rightarrow> [])"

lemma select_step_ok:
  assumes ok: "select_ok auto_commit st" and ev: "select_allowed st ev"
  shows "select_ok auto_commit (select_step base auto_commit st ev)
    \<and> sl_calls (select_step base auto_commit st ev) = sl_calls st @ commits auto_commit st ev"
proof (cases ev)
  case (Choose name)
  let ?t = "on_select base auto_commit name st"
  have cl: "sys_cluster (sl_sys ?t) = (sys_cluster (sl_sys st))\<lparr>cl_model_name := JStr name\<rparr>"
    using ok choose_step by (simp add: on_select_def select_ok_def del: cluster_step.simps)
  have t: "configured_model ?t = JStr name" "running_model ?t = running_model st"
    "sl_can ?t = (auto_commit \<or> sl_can st)" "sl_calls ?t = sl_calls st" "sl_seen ?t = sl_seen st"
    using cl by (simp_all add: configured_model_def running_model_def on_select_def)
  have "select_ok auto_commit (commit_effect base ?t)"
    using ok ev cl t Choose by (intro commit_effect_ok) (auto simp: select_ok_def select_allowed_def)
  then show ?thesis
    using Choose ok ev t by (auto simp: commit_effect_calls commits_def select_ok_def select_allowed_def)
next
  case (Provider e)
  let ?t = "st\<lparr>sl_sys := cluster_step base (sl_sys st) e\<rparr>"
  have e: "\<forall>v. e \<noteq> Set_model_name v" using ev Provider by (auto simp: select_allowed_def)
  have clean: "\<not> cl_dirty (sys_cluster (sl_sys ?t))"
    using ok provider_step_clean[OF _ e] by (simp add: select_ok_def)
  have config: "configured_model ?t = configured_model st \<or> configured_model ?t = running_model ?t"
    if "sl_can st"
    using ok that provider_step_config[OF e, of "sl_sys st" base]
    by (simp add: configured_model_def running_model_def select_ok_def)
  have "sl_can st \<Longrightarrow> truthy (configured_model ?t)"
    using ok provider_step_shape[OF e, of base "sl_sys st"] effect_truthy
    by (auto simp: configured_model_def select_ok_def simp del: cluster_step.simps)
  then have "select_ok auto_commit (commit_effect base ?t)"
    using ok clean by (intro commit_effect_ok) (auto simp: select_ok_def)
  moreover have "sl_calls (commit_effect base ?t) = sl_calls st"
    using config ok by (cases "sl_can st") (auto simp: commit_effect_calls select_ok_def only_def)
  ultimately show ?thesis using Provider by (simp add: commits_def)
qed

lemma select_reachable_ok: "select_reachable base auto_commit st \<Longrightarrow> select_ok auto_commit st"
proof (induction rule: select_reachable.induct)
  case (select_mounted host s)
  then show ?case
    using reachable_clean by (simp add: select_ok_def mount_select_def configured_model_def)
qed (simp add: select_step_ok)

text \<open>C28: The selector calls \<open>init\<close> exactly when the user chooses a model other than the running one
  where choices are committed, once for each such choice and with the chosen name; no status
  message, answer or other event of the provider makes it call \<open>init\<close>, and the selector of the setup
  page never does.\<close>

theorem model_switch_calls:
  assumes "select_reachable base auto_commit st" "select_allowed st ev"
  shows "sl_calls (select_step base auto_commit st ev) = sl_calls st @
    (case ev of
       Choose name \<Rightarrow> if auto_commit \<and> JStr name \<noteq> running_model st then [JStr name] else []
     | Provider e \<Rightarrow> [])"
  using select_step_ok[OF select_reachable_ok[OF assms(1)] assms(2)]
  by (simp add: commits_def only_def split: select_event.splits)

theorem model_switch_calls_witness:
  "sl_calls (select_step [] True (mount_select (mount_cluster [] Cluster_host)) (Choose ''m'')) = [JStr ''m'']"
proof -
  have "select_reachable [] True (mount_select (mount_cluster [] Cluster_host))"
    by (rule select_mounted[OF cluster_mounted])
  then show ?thesis
    using model_switch_calls[of "[]" True "mount_select (mount_cluster [] Cluster_host)" "Choose ''m''"]
    by (simp add: select_allowed_def mount_select_def configured_model_def running_model_def
        mounted_state init_cluster_def initial_cluster_info_def)
qed

end
