(* ===== verification/Join_Command.thy ===== *)
theory Join_Command
  imports Cluster Theme
begin

text \<open>
  \<open>components/inputs/join-command.tsx\<close>: the commands by which nodes join, each with a button that
  copies it and shows for two seconds that it has.
\<close>

section \<open>Copying\<close>

definition label_map :: "(string \<times> string) list" where
  "label_map = [(''linux/mac'', ''Linux/MacOS''), (''windows'', ''Windows'')]"

definition label_of :: "string \<Rightarrow> string" where
  "label_of key = (case map_of label_map key of Some l \<Rightarrow> l | None \<Rightarrow> key)"

text \<open>\<open>Object.entries\<close> of the commands, which are typed as a record of texts.\<close>

fun entries_of :: "jsval \<Rightarrow> (string \<times> jsval) list" where
  "entries_of (JObj kvs) = kvs"
| "entries_of v = []"

text \<open>
  The copied key and its timer.  \<open>copy\<close> sets the key once the clipboard has taken the text, and the
  effect on the key sets the timer and cancels the one before.
\<close>

record copied_state =
  cp_key :: "string option"
  cp_timer :: bool

definition init_copied :: copied_state where
  "init_copied = \<lparr>cp_key = None, cp_timer = False\<rparr>"

definition set_copied_key :: "string option \<Rightarrow> copied_state \<Rightarrow> copied_state" where
  "set_copied_key k s =
     (if cp_key s = k then s
      else s\<lparr>cp_key := k, cp_timer := (case k of Some t \<Rightarrow> t \<noteq> [] | None \<Rightarrow> False)\<rparr>)"

datatype copied_event = Clipboard_written string | Clipboard_refused | Copied_timer

fun copied_step :: "copied_state \<Rightarrow> copied_event \<Rightarrow> copied_state" where
  "copied_step s (Clipboard_written key) = set_copied_key (Some key) s"
| "copied_step s Clipboard_refused = s"
| "copied_step s Copied_timer =
     (if cp_timer s then set_copied_key None (s\<lparr>cp_timer := False\<rparr>) else s)"

section \<open>View\<close>

definition join_command_item_style :: style where
  "join_command_item_style =
     [str_s ''display'' ''flex'', str_s ''flexFlow'' ''row nowrap'',
      str_s ''justifyContent'' ''space-between'', str_s ''alignItems'' ''center'',
      (''paddingInline'', spacing 2), (''paddingBlock'', JStr (spacing_of (Num 15 1))),
      (''gap'', spacing 1), str_s ''overflow'' ''hidden'', str_s ''borderRadius'' ''0.7rem'',
      (''backgroundColor'', color_of ''background'' ''area'')]"

datatype join_handler = Copy string

definition join_entry_view :: "copied_state \<Rightarrow> bool \<Rightarrow> string \<times> jsval \<Rightarrow> join_handler view" where
  "join_entry_view s several = (\<lambda>(key, value).
     VElem ''Stack'' [str_p ''key'' key, int_p ''gap'' 1]
       (only several
          [VElem ''Typography'' [str_p ''key'' ''label'', str_p ''variant'' ''subtitle2'']
             [VText ''For '', VText (label_of key), VText '':'']]
        @ [VElem ''JoinCommandItem'' [str_p ''key'' ''command'']
             [VElem ''Typography''
                [obj_p ''sx'' [int_s ''flex'' 1, str_s ''lineHeight'' ''1.125rem'',
                               str_s ''whiteSpace'' ''wrap''],
                 str_p ''variant'' ''pre'']
                [VText (js_to_string value)],
              VElem ''IconButton''
                [obj_p ''sx'' [str_s ''flex'' ''none'', str_s ''fontSize'' ''1rem''],
                 str_p ''size'' ''em'', act_p ''onClick'' (Copy key)]
                [VElem (if cp_key s = Some key then ''IconCopyCheck'' else ''IconCopy'') [] []]]]))"

definition join_command_view :: "copied_state \<Rightarrow> cluster_info \<Rightarrow> join_handler view" where
  "join_command_view s info =
     (let entries = entries_of (ci_node_join_command info) in
      VElem ''Stack'' [int_p ''gap'' 1]
        (map (join_entry_view s (length entries > 1)) entries))"

text \<open>What a click on the button of a key writes to the clipboard.\<close>

definition copied_text :: "cluster_info \<Rightarrow> join_handler \<Rightarrow> jsval" where
  "copied_text info h = (case h of Copy key \<Rightarrow> lookup (entries_of (ci_node_join_command info)) key)"

section \<open>Properties\<close>

lemma entry_handlers: "handlers (join_entry_view s several kv) = [(''onClick'', Copy (fst kv))]"
  by (simp add: join_entry_view_def view_simps only_def split: prod.split)

lemma lookup_distinct: "distinct (map fst kvs) \<Longrightarrow> kv \<in> set kvs \<Longrightarrow> lookup kvs (fst kv) = snd kv"
  by (induction kvs) force+

lemma timer_while_copied:
  "cp_timer s = (cp_key s \<noteq> None) \<Longrightarrow> [] \<notin> keys \<Longrightarrow>
   (case ev of Clipboard_written key \<Rightarrow> key \<in> keys | _ \<Rightarrow> True) \<Longrightarrow>
     cp_timer (copied_step s ev) = (cp_key (copied_step s ev) \<noteq> None)"
  by (cases ev) (auto simp: set_copied_key_def)

text \<open>Each button copies the command that is shown beside it.  While a button shows the check mark a
  timer is pending, so that the mark goes away, and at most one button shows it.\<close>

theorem join_commands_copied:
  assumes "ci_node_join_command info = JObj kvs" "distinct (map fst kvs)" "[] \<notin> set (map fst kvs)"
    and "list_all (\<lambda>ev. case ev of Clipboard_written key \<Rightarrow> key \<in> set (map fst kvs) | _ \<Rightarrow> True) evs"
  shows "map (\<lambda>(event, h). copied_text info h)
      (handlers (join_command_view (foldl copied_step init_copied evs) info)) = map snd kvs
    \<and> cp_timer (foldl copied_step init_copied evs) = (cp_key (foldl copied_step init_copied evs) \<noteq> None)
    \<and> cp_key (copied_step (foldl copied_step init_copied evs) Copied_timer) = None
    \<and> length (filter (\<lambda>kv. cp_key (foldl copied_step init_copied evs) = Some (fst kv)) kvs) \<le> 1"
proof -
  let ?s = "foldl copied_step init_copied evs"
  have timer: "cp_timer (foldl copied_step s evs) = (cp_key (foldl copied_step s evs) \<noteq> None)"
    if "cp_timer s = (cp_key s \<noteq> None)" for s
    using assms(4) that
  proof (induction evs arbitrary: s)
    case (Cons ev evs)
    have "cp_timer (copied_step s ev) = (cp_key (copied_step s ev) \<noteq> None)"
      using Cons.prems by (intro timer_while_copied[OF _ assms(3)]) simp_all
    with Cons show ?case by simp
  qed simp
  have handlers: "handlers (join_command_view ?s info) = map (\<lambda>kv. (''onClick'', Copy (fst kv))) kvs"
    by (simp add: join_command_view_def assms(1) view_simps entry_handlers o_def Let_def)
  have one: "length (filter (\<lambda>kv. Some (fst kv) = k) kvs) \<le> 1" for k
    using assms(2)
  proof (induction kvs)
    case (Cons kv kvs)
    have "k = Some (fst kv) \<Longrightarrow> filter (\<lambda>kv. Some (fst kv) = k) kvs = []"
      using Cons.prems by (auto simp: filter_empty_conv image_iff)
    with Cons show ?case by auto
  qed simp
  have "map (\<lambda>kv. lookup kvs (fst kv)) kvs = map snd kvs"
    using lookup_distinct[OF assms(2)] by simp
  moreover have "cp_timer ?s = (cp_key ?s \<noteq> None)"
    by (rule timer) (simp add: init_copied_def)
  ultimately show ?thesis
    using handlers one[of "cp_key ?s"]
    by (simp add: copied_text_def assms(1) o_def set_copied_key_def eq_commute)
qed

theorem join_commands_copied_witness:
  "let info = initial_cluster_info\<lparr>ci_node_join_command := JObj [str_s ''windows'' ''w'', str_s ''linux/mac'' ''l'']\<rparr>
   in map (\<lambda>(event, h). copied_text info h)
        (handlers (join_command_view (foldl copied_step init_copied [Clipboard_written ''windows'']) info))
      = [JStr ''w'', JStr ''l'']"
  using join_commands_copied[of "initial_cluster_info\<lparr>ci_node_join_command :=
      JObj [str_s ''windows'' ''w'', str_s ''linux/mac'' ''l'']\<rparr>" _ "[Clipboard_written ''windows'']"]
  by (simp add: Let_def)

end
