(* ===== verification/Markdown.thy ===== *)
theory Markdown
  imports Theme
begin

text \<open>
  \<open>components/inputs/chat-markdown.tsx\<close>: the texts of the assistant are rewritten and handed to the
  Markdown renderer, with the components and plugins listed here.  The renderer, its plugins and
  the default list of admitted tags are the libraries'.
\<close>

section \<open>Rewriting\<close>

text \<open>\<open>s.replace(/pat/g, rep)\<close> for a literal pattern; \<open>before\<close> is the text in front of the rest.\<close>

function replace_all_from :: "string \<Rightarrow> string \<Rightarrow> string \<Rightarrow> string \<Rightarrow> string" where
  "replace_all_from before pat rep s =
     (if s = [] then []
      else if pat \<noteq> [] \<and> prefix pat s then
        get_substitution pat before (drop (length pat) s) rep
        @ replace_all_from (before @ pat) pat rep (drop (length pat) s)
      else hd s # replace_all_from (before @ [hd s]) pat rep (tl s))"
  by pat_completeness auto

termination
  by (relation "measure (\<lambda>(before, pat, rep, s). length s)") auto

declare replace_all_from.simps [simp del]

definition replace_all :: "string \<Rightarrow> string \<Rightarrow> string \<Rightarrow> string" where
  "replace_all s pat rep = replace_all_from [] pat rep s"

definition backslash :: char where "backslash = CHR 0x5C"
definition line_feeds :: string where "line_feeds = [CHR 0x0A, CHR 0x0A]"

definition preprocess_think :: "string \<Rightarrow> string" where
  "preprocess_think input =
     replace_first (replace_first input ''<think>'' (''<think>'' @ line_feeds))
       ''</think>'' (line_feeds @ ''</think>'' @ line_feeds)"

definition preprocess_math :: "string \<Rightarrow> string" where
  "preprocess_math input =
     replace_all
       (replace_all
          (replace_all
             (replace_all input [backslash, CHR ''['' ] ''$$'')
             [backslash, CHR '']'' ] ''$$'')
          [backslash, CHR ''('' ] ''$'')
       [backslash, CHR '')'' ] ''$''"

section \<open>Rendering\<close>

definition markdown_style :: "bool \<Rightarrow> style" where
  "markdown_style is_thinking = override text_body1
     [str_s ''overflowWrap'' ''break-word'', str_s ''maxWidth'' ''100%'', str_s ''display'' ''flex'',
      str_s ''flexFlow'' ''column nowrap'', str_s ''justifyContent'' ''flex-start'',
      str_s ''alignItems'' ''stretch'', (''gap'', spacing 1),
      (''color'', color_of ''text'' (if is_thinking then ''disabled'' else ''primary'')),
      obj_s ''& pre'' [str_s ''overflowX'' ''auto''],
      obj_s ''& think'' [(''color'', color_of ''text'' ''disabled'')],
      obj_s ''& ul, & ol'' [int_s ''margin'' 0]]"

text \<open>The element that renders an HTML tag; the others are rendered as themselves.\<close>

definition text_variants :: "(string \<times> string) list" where
  "text_variants =
     [(''h1'', ''h1''), (''h2'', ''h2''), (''h3'', ''h3''), (''h4'', ''h4''), (''h5'', ''h5''),
      (''h6'', ''h6''), (''p'', ''body1''), (''caption'', ''caption'')]"

definition table_parts :: "(string \<times> string) list" where
  "table_parts =
     [(''hr'', ''Divider''), (''thead'', ''TableHead''), (''tbody'', ''TableBody''),
      (''tr'', ''TableRow''), (''th'', ''TableCell''), (''td'', ''TableCell'')]"

definition markdown_component ::
    "string \<Rightarrow> (string \<times> 'a attr) list \<Rightarrow> 'a view list \<Rightarrow> 'a view" where
  "markdown_component tag props children =
     (case map_of text_variants tag of
        Some v \<Rightarrow> VElem ''Typography'' (props @ [str_p ''variant'' v]) children
      | None \<Rightarrow>
          if tag = ''table'' then VElem ''TableContainer'' [] [VElem ''Table'' props children]
          else (case map_of table_parts tag of
                  Some t \<Rightarrow> VElem t props children
                | None \<Rightarrow> VElem tag props children))"

definition block_list :: "string list" where
  "block_list = [''script'', ''iframe'', ''style'', ''form'', ''input'', ''textarea'']"

definition schema_tags :: "string list \<Rightarrow> string list" where
  "schema_tags default_tags = filter (\<lambda>tag. tag \<notin> set block_list) default_tags"

text \<open>
  An entry of a plugin list is a plugin or an array, which the renderer takes for a plugin followed
  by its settings.
\<close>

datatype plugin_entry = Plugin string | Plugin_array "string list"

definition remark_plugins :: "plugin_entry list" where
  "remark_plugins = [Plugin ''remarkGfm'', Plugin ''remarkMath'']"

definition rehype_plugins :: "plugin_entry list" where
  "rehype_plugins =
     [Plugin ''rehypeKatex'', Plugin ''rehypeRaw'',
      Plugin_array [''remarkGfm'', ''remarkMath'', ''rehypeSanitize'', ''schema'']]"

fun plugin_used :: "plugin_entry \<Rightarrow> string list" where
  "plugin_used (Plugin p) = [p]"
| "plugin_used (Plugin_array []) = []"
| "plugin_used (Plugin_array (p # settings)) = [p]"

fun plugin_value :: "plugin_entry \<Rightarrow> jsval" where
  "plugin_value (Plugin p) = JStr p"
| "plugin_value (Plugin_array ps) = JArr (map JStr ps)"

definition chat_markdown_view :: "bool \<Rightarrow> string \<Rightarrow> 'a view" where
  "chat_markdown_view is_thinking content =
     VElem ''ChatMarkdownRoot''
       [str_p ''className'' ''ChatMarkdown'', bool_p ''isThinking'' is_thinking]
       [VElem ''ReactMarkdown''
          [val_p ''remarkPlugins'' (JArr (map plugin_value remark_plugins)),
           val_p ''rehypePlugins'' (JArr (map plugin_value rehype_plugins)),
           str_p ''components'' ''components'']
          [VText (preprocess_math (preprocess_think content))]]"

section \<open>Properties\<close>

text \<open>One pass over the text that writes a dollar sign for a backslash before a character of \<open>P\<close>.\<close>

fun dollars :: "char set \<Rightarrow> string \<Rightarrow> string" where
  "dollars P (c # d # r) =
     (if c = backslash \<and> d \<in> P then CHR ''$'' # dollars P r else c # dollars P (d # r))"
| "dollars P s = s"

lemma replace_all_dollar:
  assumes "\<And>b a. get_substitution [backslash, x] b a rep = ''$''"
  shows "replace_all_from before [backslash, x] rep s = dollars {x} s"
proof (induction "{x}" s arbitrary: before rule: dollars.induct)
  case (1 c d r)
  then show ?case
    using assms by (subst replace_all_from.simps) (auto simp: Cons_prefix_Cons)
qed (simp_all add: replace_all_from.simps[of _ _ _ "[]"] replace_all_from.simps[of _ _ _ "[v]" for v])

lemma dollars_head: "c \<noteq> backslash \<Longrightarrow> dollars P (c # r) = c # dollars P r"
  by (cases r) auto

lemma dollars_fuse:
  assumes "CHR ''$'' \<notin> Q" "backslash \<notin> Q"
  shows "dollars Q (dollars P s) = dollars (P \<union> Q) s"
proof (induction P s rule: dollars.induct)
  case (1 P c d r)
  have dollar: "CHR ''$'' \<noteq> backslash" by (simp add: backslash_def)
  show ?case
  proof (cases "c = backslash \<and> d \<in> P")
    case True
    with 1 dollar show ?thesis by (simp add: dollars_head)
  next
    case False
    note IH = "1.IH"(2)[OF False]
    show ?thesis
    proof (cases "c = backslash \<and> d \<in> Q")
      case True
      then have d: "d \<noteq> backslash" using assms(2) by auto
      then have "dollars Q (dollars P r) = dollars (P \<union> Q) r"
        using IH by (simp add: dollars_head)
      then show ?thesis using True False d by (simp add: dollars_head)
    next
      case no: False
      have "\<exists>h t. dollars P (d # r) = h # t \<and> (h = d \<or> h = CHR ''$'')"
        by (cases r) auto
      then obtain h t where ht: "dollars P (d # r) = h # t" "h = d \<or> h = CHR ''$''" by blast
      then have "dollars Q (c # dollars P (d # r)) = c # dollars Q (dollars P (d # r))"
        using no assms(1) by auto
      then show ?thesis using False no IH by auto
    qed
  qed
qed auto

text \<open>C37: The rewriting of formulas is one pass that turns each of the four delimiters into a single dollar
  sign.  In particular display formulas become inline ones: the replacement text of two dollar
  signs stands for one, against the comment of the function.\<close>

theorem markdown_math:
  "preprocess_math s = dollars {CHR ''['', CHR '']'', CHR ''('', CHR '')''} s
   \<and> preprocess_math ([backslash, CHR ''['' ] @ x @ [backslash, CHR '']'' ])
     = preprocess_math ([backslash, CHR ''('' ] @ x @ [backslash, CHR '')'' ])"
proof -
  have pass: "replace_all s [backslash, c] ''$'' = dollars {c} s"
    "replace_all s [backslash, c] ''$$'' = dollars {c} s" for s c
    by (simp_all add: replace_all_def replace_all_dollar)
  have scan: "preprocess_math s = dollars {CHR ''['', CHR '']'', CHR ''('', CHR '')''} s" for s
    unfolding preprocess_math_def pass
    by (subst dollars_fuse; simp add: backslash_def)+ (simp add: insert_commute)
  have last: "dollars P (x @ [backslash, c]) = dollars P (x @ [backslash, d])"
    if "c \<in> P" "d \<in> P" "backslash \<notin> P" for P x c d
    using that by (induction P x rule: dollars.induct) (auto simp: backslash_def)
  show ?thesis
    using last[of "CHR '']''" _ "CHR '')''" x] by (simp add: scan backslash_def)
qed

text \<open>The list of plugins does not sanitise: its last entry is an array whose first plugin is
  \<open>remarkGfm\<close>, and \<open>rehypeSanitize\<close> and its schema are settings of that plugin, while raw HTML of
  the answer is let through by \<open>rehypeRaw\<close>.\<close>

theorem markdown_not_sanitised:
  "concat (map plugin_used rehype_plugins) = [''rehypeKatex'', ''rehypeRaw'', ''remarkGfm'']"
  by (simp add: rehype_plugins_def)

end
