(* ===== verification/Alert_Dialog.thy ===== *)
theory Alert_Dialog
  imports Theme
begin

text \<open>
  \<open>components/mui/dialog\<close>: the alert dialog with its buttons and its form, and the hook that keeps
  whether it is open.  A handler returns a value, throws, or returns a promise that settles later;
  \<open>handleSubmit\<close> of the form library calls one of its two callbacks.  Handlers see the state of the
  last render, which is complete before the next event.
\<close>

section \<open>Props\<close>

datatype title_icon = Icon_flag bool | Icon_form | Icon_node "unit view list"

datatype outcome = Returned jsval | Raised js_error | Promised

record dialog_props =
  dp_title_id :: jsval
  dp_title :: "unit view list"
  dp_content_id :: jsval
  dp_content :: "unit view list"
  dp_color :: string
  dp_title_icon_color :: string
  dp_title_icon :: title_icon
  dp_cancel_label :: "unit view list"
  dp_confirm_label :: "unit view list"
  dp_submit_label :: "unit view list"
  dp_has_submit :: bool
  dp_secondary_action :: "unit view list"

text \<open>
  The props that are not given.  A label that is not given is the empty list; \<open>dp_has_submit\<close> says
  that \<open>handleSubmit\<close> and \<open>onSubmitValid\<close> are given.
\<close>

definition default_props :: dialog_props where
  "default_props = \<lparr>dp_title_id = JUndef, dp_title = [], dp_content_id = JUndef, dp_content = [],
     dp_color = ''primary'', dp_title_icon_color = ''warning'', dp_title_icon = Icon_flag True,
     dp_cancel_label = [], dp_confirm_label = [], dp_submit_label = [], dp_has_submit = False,
     dp_secondary_action = []\<rparr>"

definition color_icon_map :: "(string \<times> string) list" where
  "color_icon_map =
     [(''primary'', ''IconInfoCircle''), (''secondary'', ''IconInfoCircle''), (''info'', ''IconInfoCircle''),
      (''error'', ''IconAlertCircle''), (''warning'', ''IconAlertCircle''), (''success'', ''IconCircleCheck'')]"

text \<open>In the development build a form without its callbacks is refused.\<close>

definition check_props :: "bool \<Rightarrow> dialog_props \<Rightarrow> js_error option" where
  "check_props dev p =
     (if dev \<and> dp_submit_label p \<noteq> [] \<and> \<not> dp_has_submit p
      then Some (ErrorMsg ''handleSubmit and onSubmitValid are required when submitLabel is provided'')
      else None)"

section \<open>Actions\<close>

text \<open>
  \<open>typeof result === 'object' && result.closeDialog === false\<close>: \<open>null\<close> is an object too, and reading
  its property throws.
\<close>

fun handle_action_result :: "jsval \<Rightarrow> js_error + bool" where
  "handle_action_result (JBool False) = Inr False"
| "handle_action_result JNull = Inl TypeError"
| "handle_action_result (JObj kvs) = Inr (lookup kvs ''closeDialog'' \<noteq> JBool False)"
| "handle_action_result v = Inr True"

text \<open>What the dialog awaits while it is loading.\<close>

datatype awaiting = Action_result | Form_check | Valid_result | Invalid_result

record dialog_state =
  dg_loading :: bool
  dg_awaiting :: "awaiting option"
  dg_closed :: nat
  dg_logged :: "js_error list"

definition init_dialog :: dialog_state where
  "init_dialog = \<lparr>dg_loading = False, dg_awaiting = None, dg_closed = 0, dg_logged = []\<rparr>"

definition log_error :: "js_error \<Rightarrow> dialog_state \<Rightarrow> dialog_state" where
  "log_error e d = d\<lparr>dg_logged := dg_logged d @ [e]\<rparr>"

definition close_dialog :: "dialog_state \<Rightarrow> dialog_state" where
  "close_dialog d = d\<lparr>dg_closed := Suc (dg_closed d)\<rparr>"

definition stop_loading :: "dialog_state \<Rightarrow> dialog_state" where
  "stop_loading d = d\<lparr>dg_loading := False, dg_awaiting := None\<rparr>"

definition start_loading :: "awaiting \<Rightarrow> dialog_state \<Rightarrow> dialog_state" where
  "start_loading a d = d\<lparr>dg_loading := True, dg_awaiting := Some a\<rparr>"

definition finish_action :: "jsval \<Rightarrow> dialog_state \<Rightarrow> dialog_state" where
  "finish_action result d =
     (case handle_action_result result of
        Inr True \<Rightarrow> close_dialog d
      | Inr False \<Rightarrow> d
      | Inl e \<Rightarrow> log_error e (stop_loading d))"

definition pipe_handler :: "outcome \<Rightarrow> dialog_state \<Rightarrow> dialog_state" where
  "pipe_handler outcome d =
     (if dg_loading d then d
      else
        (case outcome of
           Returned v \<Rightarrow> finish_action v d
         | Raised e \<Rightarrow> log_error e (stop_loading d)
         | Promised \<Rightarrow> start_loading Action_result d))"

definition on_form_submit :: "dialog_state \<Rightarrow> dialog_state" where
  "on_form_submit d = (if dg_loading d then d else start_loading Form_check d)"

definition form_checked :: "bool \<Rightarrow> dialog_state \<Rightarrow> dialog_state" where
  "form_checked valid d =
     (if dg_awaiting d = Some Form_check
      then d\<lparr>dg_awaiting := Some (if valid then Valid_result else Invalid_result)\<rparr> else d)"

text \<open>The promise that the dialog awaits settles.\<close>

definition on_settled :: "js_error + jsval \<Rightarrow> dialog_state \<Rightarrow> dialog_state" where
  "on_settled r d =
     (case dg_awaiting d of
        Some Invalid_result \<Rightarrow>
          stop_loading (case r of Inl e \<Rightarrow> log_error e d | Inr v \<Rightarrow> d)
      | Some Form_check \<Rightarrow> d
      | Some a \<Rightarrow>
          (case r of
             Inr v \<Rightarrow> finish_action v (stop_loading d)
           | Inl e \<Rightarrow> log_error e (stop_loading d))
      | None \<Rightarrow> d)"

definition safe_on_close :: "dialog_state \<Rightarrow> dialog_state" where
  "safe_on_close d = (if dg_loading d then d else close_dialog d)"

datatype dialog_event =
    Cancel_clicked outcome
  | Confirm_clicked outcome
  | Form_submitted
  | Form_checked bool
  | Settled "js_error + jsval"
  | Close_requested

fun dialog_step :: "dialog_props \<Rightarrow> dialog_state \<Rightarrow> dialog_event \<Rightarrow> dialog_state" where
  "dialog_step p d (Cancel_clicked r) = (if dp_cancel_label p \<noteq> [] then pipe_handler r d else d)"
| "dialog_step p d (Confirm_clicked r) = (if dp_confirm_label p \<noteq> [] then pipe_handler r d else d)"
| "dialog_step p d Form_submitted =
     (if dp_submit_label p \<noteq> [] \<and> dp_has_submit p then on_form_submit d else d)"
| "dialog_step p d (Form_checked valid) = form_checked valid d"
| "dialog_step p d (Settled r) = on_settled r d"
| "dialog_step p d Close_requested = safe_on_close d"

section \<open>The hook\<close>

text \<open>\<open>useAlertDialog\<close>: \<open>onClose\<close> of the dialog closes it; the owner opens and closes it by its actions.\<close>

record dialog_hook =
  hk_open :: bool
  hk_dialog :: dialog_state

definition init_dialog_hook :: dialog_hook where
  "init_dialog_hook = \<lparr>hk_open = False, hk_dialog = init_dialog\<rparr>"

definition open_dialog :: "dialog_hook \<Rightarrow> dialog_hook" where
  "open_dialog h = h\<lparr>hk_open := True\<rparr>"

definition close_dialog_hook :: "dialog_hook \<Rightarrow> dialog_hook" where
  "close_dialog_hook h = h\<lparr>hk_open := False\<rparr>"

definition hook_step :: "dialog_props \<Rightarrow> dialog_hook \<Rightarrow> dialog_event \<Rightarrow> dialog_hook" where
  "hook_step p h ev =
     (let d = dialog_step p (hk_dialog h) ev in
      \<lparr>hk_open = (if dg_closed d > dg_closed (hk_dialog h) then False else hk_open h), hk_dialog = d\<rparr>)"

section \<open>View\<close>

datatype dialog_handler = On_cancel_click | On_confirm_click | On_submit | On_dialog_close | Inner unit

text \<open>Titles, labels and contents have no handlers of their own in this place.\<close>

fun embed :: "unit view \<Rightarrow> dialog_handler view"
  and embed_list :: "unit view list \<Rightarrow> dialog_handler view list"
  and embed_attr :: "unit attr \<Rightarrow> dialog_handler attr"
  and embed_attrs :: "(string \<times> unit attr) list \<Rightarrow> (string \<times> dialog_handler attr) list" where
  "embed (VText s) = VText s"
| "embed (VElem t ps cs) = VElem t (embed_attrs ps) (embed_list cs)"
| "embed_list [] = []"
| "embed_list (v # vs) = embed v # embed_list vs"
| "embed_attr (PVal v) = PVal v"
| "embed_attr (PAct a) = PAct (Inner a)"
| "embed_attr (PView vs) = PView (embed_list vs)"
| "embed_attr (PObj ps) = PObj (embed_attrs ps)"
| "embed_attrs [] = []"
| "embed_attrs ((k, a) # ps) = (k, embed_attr a) # embed_attrs ps"

definition action_buttons :: "dialog_props \<Rightarrow> bool \<Rightarrow> (string \<times> dialog_handler attr) list list" where
  "action_buttons p loading =
     only (dp_cancel_label p \<noteq> [])
       [[str_p ''key'' ''cancel'', view_p ''children'' (embed_list (dp_cancel_label p)),
         str_p ''color'' ''secondary'', act_p ''onClick'' On_cancel_click, bool_p ''loading'' loading]]
     @ only (dp_confirm_label p \<noteq> [])
       [[str_p ''key'' ''confirm'', view_p ''children'' (embed_list (dp_confirm_label p)),
         str_p ''color'' (dp_color p), act_p ''onClick'' On_confirm_click, bool_p ''loading'' loading]]
     @ only (dp_submit_label p \<noteq> [])
       [[str_p ''key'' ''submit'', view_p ''children'' (embed_list (dp_submit_label p)),
         str_p ''type'' ''submit'', bool_p ''loading'' loading]]"

text \<open>The third alternative of the icon is an element and so never falsy.\<close>

definition title_icon_view :: "dialog_props \<Rightarrow> dialog_handler view" where
  "title_icon_view p =
     (let circle = VElem ''TitleIcon'' [str_p ''variant'' ''circle'', str_p ''color'' (dp_title_icon_color p)] in
      case dp_title_icon p of
        Icon_form \<Rightarrow> VElem ''TitleIconForm'' [] []
      | Icon_flag True \<Rightarrow>
          circle [VElem (case map_of color_icon_map (dp_color p) of Some i \<Rightarrow> i | None \<Rightarrow> []) [] []]
      | Icon_flag False \<Rightarrow> circle []
      | Icon_node vs \<Rightarrow> circle (embed_list vs))"

definition shows_title_icon :: "title_icon \<Rightarrow> bool" where
  "shows_title_icon i = (case i of Icon_flag b \<Rightarrow> b | Icon_form \<Rightarrow> True | Icon_node vs \<Rightarrow> vs \<noteq> [])"

definition dialog_title_view :: "dialog_props \<Rightarrow> dialog_handler view" where
  "dialog_title_view p =
     VElem ''DialogTitle''
       [val_p ''id'' (if map_of color_icon_map (dp_color p) = None \<and> truthy (dp_title_id p)
                      then dp_title_id p else JUndef)]
       ([title_icon_view p]
        @ only (\<not> shows_title_icon (dp_title_icon p)) (embed_list (dp_title p))
        @ [VElem ''IconButton'' [str_p ''size'' ''small'', act_p ''onClick'' On_dialog_close]
             [VElem ''IconX'' [str_p ''size'' ''1.25rem''] []]])"

definition dialog_content_view :: "dialog_props \<Rightarrow> dialog_handler view" where
  "dialog_content_view p =
     VElem ''DialogContent'' []
       (only (shows_title_icon (dp_title_icon p))
          [VElem ''Typography''
             [str_p ''variant'' ''subtitle1'', val_p ''id'' (dp_title_id p),
              obj_p ''sx'' [str_s ''fontSize'' ''1.125rem'', int_s ''fontWeight'' 600, str_s ''mr'' ''auto'']]
             (embed_list (dp_title p))]
        @ [VElem ''DialogContentText'' [val_p ''id'' (dp_content_id p)] (embed_list (dp_content p))])"

definition alert_dialog_view :: "dialog_props \<Rightarrow> bool \<Rightarrow> dialog_state \<Rightarrow> dialog_handler view" where
  "alert_dialog_view p is_open d =
     (let buttons = action_buttons p (dg_loading d);
          form = (dp_submit_label p \<noteq> [] \<and> dp_has_submit p) in
      VElem ''Dialog''
        ([bool_p ''open'' is_open, act_p ''onClose'' On_dialog_close,
          val_p ''aria-labelledby'' (dp_title_id p), val_p ''aria-describedby'' (dp_content_id p),
          val_p ''component'' (if form then JStr ''form'' else JUndef)]
         @ only form [act_p ''onSubmit'' On_submit]
         @ [obj_p ''slotProps'' [obj_s ''paper'' [obj_s ''sx'' [dec_s ''p'' 15 1]]]])
        ([dialog_title_view p, dialog_content_view p]
         @ only (buttons \<noteq> [])
             [VElem ''DialogActions'' []
                (embed_list (dp_secondary_action p)
                 @ map (\<lambda>b. VElem ''Button'' (b @ only (length buttons = 1) [bool_p ''fullWidth'' True]) [])
                     buttons)]))"

section \<open>Properties\<close>

definition accepts :: "jsval \<Rightarrow> bool" where
  "accepts v = (v \<noteq> JBool False \<and> v \<noteq> JNull
     \<and> (case v of JObj kvs \<Rightarrow> lookup kvs ''closeDialog'' \<noteq> JBool False | _ \<Rightarrow> True))"

definition dialog_ok :: "dialog_state \<Rightarrow> bool" where
  "dialog_ok d = (dg_loading d = (dg_awaiting d \<noteq> None))"

lemma dialog_ok_simps [simp]:
  "dialog_ok (stop_loading d)" "dialog_ok (start_loading a d)"
  "dialog_ok (close_dialog d) = dialog_ok d" "dialog_ok (log_error e d) = dialog_ok d"
  by (simp_all add: dialog_ok_def stop_loading_def start_loading_def close_dialog_def log_error_def)

lemma finish_action_cases:
  "finish_action v d = (if accepts v then close_dialog d
     else if v = JNull then log_error TypeError (stop_loading d) else d)"
  by (cases v rule: handle_action_result.cases) (simp_all add: finish_action_def accepts_def)

lemma dg_closed_simps [simp]:
  "dg_closed (close_dialog d) = Suc (dg_closed d)" "dg_closed (log_error e d) = dg_closed d"
  "dg_closed (stop_loading d) = dg_closed d" "dg_closed (start_loading a d) = dg_closed d"
  by (simp_all add: close_dialog_def log_error_def stop_loading_def start_loading_def)

text \<open>The events that close a dialog.\<close>

definition closes :: "dialog_props \<Rightarrow> dialog_state \<Rightarrow> dialog_event \<Rightarrow> bool" where
  "closes p d ev =
     (case ev of
        Close_requested \<Rightarrow> \<not> dg_loading d
      | Cancel_clicked (Returned v) \<Rightarrow> dp_cancel_label p \<noteq> [] \<and> \<not> dg_loading d \<and> accepts v
      | Confirm_clicked (Returned v) \<Rightarrow> dp_confirm_label p \<noteq> [] \<and> \<not> dg_loading d \<and> accepts v
      | Settled (Inr v) \<Rightarrow> dg_awaiting d \<in> {Some Action_result, Some Valid_result} \<and> accepts v
      | _ \<Rightarrow> False)"

lemmas dialog_step_defs = pipe_handler_def on_form_submit_def form_checked_def on_settled_def
  safe_on_close_def finish_action_cases

lemma dialog_step_closed:
  "dg_closed (dialog_step p d ev) = dg_closed d + (if closes p d ev then 1 else 0)"
  by (cases ev)
     (auto simp: closes_def dialog_step_defs
        split: outcome.splits option.splits awaiting.splits sum.splits)

lemma dialog_step_ok: "dialog_ok d \<Longrightarrow> dialog_ok (dialog_step p d ev)"
  by (cases ev)
     (auto simp: dialog_step_defs split: outcome.splits option.splits awaiting.splits sum.splits,
      auto simp: dialog_ok_def)

lemma dialog_run_ok: "dialog_ok d \<Longrightarrow> dialog_ok (foldl (dialog_step p) d evs)"
  by (induction evs arbitrary: d) (auto intro: dialog_step_ok)

text \<open>C29: While an action is awaited the dialog is loading and nothing but that action's outcome changes
  it; the outcome always ends the loading.  \<open>onClose\<close> is called at most once by an event, and
  exactly by a request to close, or by a result of a button or of a valid form that is not \<open>false\<close>,
  not an object with \<open>closeDialog: false\<close> and not \<open>null\<close>; an error or an invalid form never closes.\<close>

theorem dialog_closes:
  "let d = foldl (dialog_step p) init_dialog evs; d' = dialog_step p d ev in
     dg_loading d = (dg_awaiting d \<noteq> None)
     \<and> dg_closed d' = dg_closed d + (if closes p d ev then 1 else 0)
     \<and> (if dg_loading d \<and> (case ev of Settled r \<Rightarrow> False | Form_checked v \<Rightarrow> False | _ \<Rightarrow> True)
         then d' = d else True)
     \<and> (case (dg_awaiting d, ev) of
          (Some a, Settled r) \<Rightarrow> dg_loading d' = (a = Form_check) | _ \<Rightarrow> True)"
proof -
  define d where "d = foldl (dialog_step p) init_dialog evs"
  have ok: "dialog_ok d"
    unfolding d_def by (rule dialog_run_ok) (simp add: dialog_ok_def init_dialog_def)
  have loading: "dg_loading d \<Longrightarrow> (case ev of Settled r \<Rightarrow> False | Form_checked v \<Rightarrow> False | _ \<Rightarrow> True)
      \<Longrightarrow> dialog_step p d ev = d"
    by (cases ev) (auto simp: dialog_step_defs)
  have stop: "\<not> dg_loading (stop_loading x)" "dg_loading (close_dialog x) = dg_loading x"
    "dg_loading (log_error e x) = dg_loading x" for x e
    by (simp_all add: stop_loading_def close_dialog_def log_error_def)
  have settled: "dg_loading (on_settled r d) = (a = Form_check)" if "dg_awaiting d = Some a" for r a
    using that ok stop
    by (cases a) (auto simp: on_settled_def finish_action_cases dialog_ok_def split: sum.splits)
  show ?thesis
    unfolding Let_def d_def[symmetric]
    using ok loading settled dialog_step_closed[of p d ev]
    by (auto simp: dialog_ok_def split: option.split dialog_event.split)
qed

theorem dialog_closes_witness:
  "dg_closed (foldl (dialog_step (default_props\<lparr>dp_confirm_label := [VText ''Finish'']\<rparr>)) init_dialog
     [Confirm_clicked Promised, Close_requested, Settled (Inr JUndef)]) = 1"
  using dialog_closes[of "default_props\<lparr>dp_confirm_label := [VText ''Finish'']\<rparr>"
      "[Confirm_clicked Promised, Close_requested]" "Settled (Inr JUndef)"]
  by (simp add: Let_def closes_def accepts_def dialog_step_defs init_dialog_def start_loading_def)

text \<open>
  The header always has a title icon: with \<open>titleIcon={false}\<close>, documented as not to show one, an
  empty circle is drawn.
\<close>

theorem title_icon_always:
  "\<exists>t ps cs rest. children_of (dialog_title_view (p\<lparr>dp_title_icon := Icon_flag False\<rparr>)) = VElem t ps cs # rest
     \<and> t = ''TitleIcon''"
  by (simp add: dialog_title_view_def title_icon_view_def Let_def)

end
