(* ===== verification/Notification.thy ===== *)
theory Notification
  imports Complex_Main Theme
begin

text \<open>
  Feedback components: \<open>components/mui/alert/notification.tsx\<close> with its countdown, the snackbar
  entries of \<open>themes/components/feedback/notistack.tsx\<close>.  Frame times and durations are rational
  numbers of milliseconds.
\<close>

section \<open>Countdown\<close>

definition compensation :: rat where
  "compensation = 150"

text \<open>
  The start time, once a frame has set it, the progress shown, and whether a frame is requested.
  A start time of zero counts as not set.
\<close>

record countdown =
  cd_start :: "rat option"
  cd_progress :: int
  cd_frame :: bool

definition start_countdown :: "rat \<Rightarrow> countdown" where
  "start_countdown duration = \<lparr>cd_start = None, cd_progress = 0, cd_frame = (duration > 0)\<rparr>"

definition start_time :: "rat \<Rightarrow> countdown \<Rightarrow> rat" where
  "start_time now c = (case cd_start c of Some t \<Rightarrow> if t = 0 then now else t | None \<Rightarrow> now)"

definition progress_at :: "rat \<Rightarrow> rat \<Rightarrow> rat \<Rightarrow> int" where
  "progress_at duration start now = min 100 \<lceil>(now + compensation - start) / (duration / 100)\<rceil>"

definition on_frame :: "rat \<Rightarrow> rat \<Rightarrow> countdown \<Rightarrow> countdown" where
  "on_frame duration now c =
     (if \<not> cd_frame c then c
      else
        (let start = start_time now c; p = progress_at duration start now
         in \<lparr>cd_start = Some start, cd_progress = p, cd_frame = (p < 100)\<rparr>))"

definition stop_countdown :: "countdown \<Rightarrow> countdown" where
  "stop_countdown c = c\<lparr>cd_frame := False\<rparr>"

section \<open>Styles\<close>

definition notification_actions_style :: style where
  "notification_actions_style =
     [str_s ''display'' ''flex'', str_s ''flexFlow'' ''row nowrap'', str_s ''alignItems'' ''center'',
      str_s ''justifyContent'' ''flex-start'', str_s ''gap'' ''0.75rem'',
      str_s ''paddingBlockStart'' ''0.75rem'', (''color'', shade grey_scale ''700'')]"

definition notification_countdown_style :: style where
  "notification_countdown_style =
     [str_s ''position'' ''absolute'', int_s ''bottom'' 0, str_s ''left'' ''-1rem'', str_s ''right'' ''-1rem'']"

section \<open>Notification\<close>

datatype notification_handler = Close_notification | Dismiss_notification

text \<open>
  The props: a title and children that are not given are empty lists, a duration that is not given
  is \<open>None\<close>; the handlers say whether they are given.
\<close>

record notification_props =
  nt_variant :: string
  nt_severity :: string
  nt_icon :: jsval
  nt_title :: "notification_handler view list"
  nt_children :: "notification_handler view list"
  nt_action :: "notification_handler view list"
  nt_dismiss_label :: "notification_handler view list"
  nt_has_close :: bool
  nt_has_dismiss :: bool
  nt_duration :: "number option"

definition countdown_view :: "string \<Rightarrow> int \<Rightarrow> 'a view" where
  "countdown_view severity progress =
     VElem ''NotificationCountdown'' []
       [VElem ''LinearProgress''
          [str_p ''variant'' ''determinate'', str_p ''color'' severity, int_p ''value'' progress] []]"

definition dismiss_view :: "notification_props \<Rightarrow> notification_handler view list" where
  "dismiss_view p = only (nt_has_dismiss p)
     [VElem ''Button'' [str_p ''variant'' ''text'', str_p ''color'' ''inherit'',
                        act_p ''onClick'' Dismiss_notification]
        (nt_dismiss_label p)]"

definition title_and_children ::
    "notification_props \<Rightarrow> notification_handler view list \<times> notification_handler view list" where
  "title_and_children p =
     (if nt_title p = [] \<and> nt_children p \<noteq> [] then (nt_children p, []) else (nt_title p, nt_children p))"

definition notification_view :: "notification_props \<Rightarrow> notification_handler view" where
  "notification_view p =
     (let (title, children) = title_and_children p;
          actions = dismiss_view p @ nt_action p;
          props = [str_p ''severity'' (nt_severity p), val_p ''icon'' (nt_icon p),
                   str_p ''variant'' (nt_variant p)]
                  @ only (nt_has_close p) [act_p ''onClose'' Close_notification];
          head = only (title \<noteq> []) [VElem ''AlertTitle'' [] title]
      in if nt_variant p = ''notification'' then
           VElem ''Alert'' props
             (head @ children
              @ only (actions \<noteq> []) [VElem ''NotificationActions'' [] actions]
              @ only (case nt_duration p of Some d \<Rightarrow> num_gt d 0 | None \<Rightarrow> False)
                  [VElem ''Countdown'' [str_p ''severity'' (nt_severity p)] []])
         else VElem ''Alert'' (props @ only (actions \<noteq> []) [view_p ''action'' actions]) (head @ children))"

section \<open>Snackbar entries\<close>

record snack =
  sn_variant :: string
  sn_title :: "notification_handler view list"
  sn_message :: "notification_handler view list"
  sn_action :: "notification_handler view list"
  sn_notification :: bool
  sn_closable :: "bool option"
  sn_dismissable :: bool
  sn_duration :: "number option"
  sn_hide_icon :: bool

text \<open>Both handlers call \<open>closeSnackbar(id)\<close>; a duration of zero or \<open>null\<close> is dropped.\<close>

definition simple_props :: "snack \<Rightarrow> notification_props" where
  "simple_props s =
     \<lparr>nt_variant = (if sn_notification s then ''notification'' else ''outlined''),
      nt_severity = (if sn_variant s = ''default'' then ''info'' else sn_variant s),
      nt_icon = (if sn_hide_icon s then JBool False else JUndef),
      nt_title = sn_title s, nt_children = sn_message s, nt_action = sn_action s,
      nt_dismiss_label = [VText ''Dismiss''],
      nt_has_close = (case sn_closable s of Some b \<Rightarrow> b | None \<Rightarrow> sn_notification s),
      nt_has_dismiss = sn_dismissable s,
      nt_duration = (case sn_duration s of Some d \<Rightarrow> if num_is_zero d then None else Some d | None \<Rightarrow> None)\<rparr>"

definition snack_components :: "(string \<times> string) list" where
  "snack_components = [(''default'', ''Simple''), (''info'', ''Simple''), (''success'', ''Simple''),
     (''warning'', ''Simple''), (''error'', ''Simple'')]"

definition snackbar_provider_view :: "'a view list \<Rightarrow> 'a view" where
  "snackbar_provider_view children =
     VElem ''SnackbarProvider''
       [obj_p ''anchorOrigin'' [str_s ''vertical'' ''bottom'', str_s ''horizontal'' ''right''],
        int_p ''maxSnack'' 5, int_p ''autoHideDuration'' 5000,
        obj_p ''Components'' (map (\<lambda>(k, c). str_s k c) snack_components),
        obj_p ''style'' [str_s ''width'' ''21.25rem'']]
       children"

section \<open>Facts\<close>

lemma progress_bounds:
  assumes "0 < duration" "start \<le> now"
  shows "0 \<le> progress_at duration start now" "progress_at duration start now \<le> 100"
proof -
  have "0 \<le> (now + compensation - start) / (duration / 100)"
    using assms by (simp add: compensation_def)
  then show "0 \<le> progress_at duration start now" by (simp add: progress_at_def)
qed (simp add: progress_at_def)

lemma progress_mono:
  assumes "0 < duration" "now \<le> later"
  shows "progress_at duration start now \<le> progress_at duration start later"
proof -
  have "(now + compensation - start) / (duration / 100) \<le> (later + compensation - start) / (duration / 100)"
    using assms by (intro divide_right_mono) simp_all
  then have "\<lceil>(now + compensation - start) / (duration / 100)\<rceil>
      \<le> \<lceil>(later + compensation - start) / (duration / 100)\<rceil>"
    by (rule ceiling_mono)
  then show ?thesis by (simp add: progress_at_def)
qed

lemma progress_full:
  assumes "0 < duration" "start + duration \<le> now + compensation"
  shows "progress_at duration start now = 100"
proof -
  have "100 \<le> (now + compensation - start) / (duration / 100)"
    using assms by (simp add: field_simps)
  then have "100 \<le> \<lceil>(now + compensation - start) / (duration / 100)\<rceil>"
    by (simp add: le_ceiling_iff)
  then show ?thesis by (simp add: progress_at_def)
qed

definition countdown_run :: "rat \<Rightarrow> rat list \<Rightarrow> countdown" where
  "countdown_run duration ts = foldl (\<lambda>c now. on_frame duration now c) (start_countdown duration) ts"

lemma countdown_run_snoc:
  "countdown_run duration (ts @ [now]) = on_frame duration now (countdown_run duration ts)"
  by (simp add: countdown_run_def)

text \<open>The shown progress is the one of the last frame, and no frame is wanted once it is complete.\<close>

lemma countdown_state:
  assumes "0 < duration" "0 < t" "sorted (t # ts)"
  shows "cd_start (countdown_run duration (t # ts)) = Some t
    \<and> cd_progress (countdown_run duration (t # ts)) = progress_at duration t (last (t # ts))
    \<and> cd_frame (countdown_run duration (t # ts)) = (progress_at duration t (last (t # ts)) < 100)"
  using assms(3)
proof (induction ts rule: rev_induct)
  case Nil
  then show ?case
    using assms by (simp add: countdown_run_def on_frame_def start_countdown_def start_time_def Let_def)
next
  case (snoc now ts)
  let ?c = "countdown_run duration (t # ts)"
  have sorted: "sorted (t # ts)" and le: "last (t # ts) \<le> now"
    using snoc.prems by (auto simp: sorted_append sorted_wrt_append)
  note IH = snoc.IH[OF sorted]
  have run: "countdown_run duration (t # ts @ [now]) = on_frame duration now ?c"
    using countdown_run_snoc[of duration "t # ts" now] by simp
  have start: "start_time now ?c = t" using IH assms(2) by (simp add: start_time_def)
  show ?case
  proof (cases "cd_frame ?c")
    case True
    then show ?thesis using run start by (simp add: on_frame_def Let_def)
  next
    case False
    have "progress_at duration t (last (t # ts)) \<le> progress_at duration t now"
      by (rule progress_mono[OF assms(1) le])
    moreover have "progress_at duration t now \<le> 100" by (simp add: progress_at_def)
    ultimately have "progress_at duration t now = progress_at duration t (last (t # ts))"
      using False IH by simp
    then show ?thesis using run False IH by (simp add: on_frame_def)
  qed
qed

text \<open>C39: The countdown of a notification ends: with frames at non-decreasing times its progress stays
  between zero and one hundred and never goes back, and by the frame at which the duration less
  150 milliseconds is over it has reached one hundred and requests no further frame.\<close>

theorem countdown_ends:
  assumes "0 < duration" "0 < t" "sorted (t # ts @ [now])"
  shows "0 \<le> cd_progress (countdown_run duration (t # ts))
    \<and> cd_progress (countdown_run duration (t # ts)) \<le> cd_progress (countdown_run duration (t # ts @ [now]))
    \<and> cd_progress (countdown_run duration (t # ts @ [now])) \<le> 100
    \<and> (if t + duration \<le> now + compensation
        then cd_progress (countdown_run duration (t # ts @ [now])) = 100
             \<and> \<not> cd_frame (countdown_run duration (t # ts @ [now]))
        else True)"
proof -
  have s: "sorted (t # ts)" and le: "last (t # ts) \<le> now" "t \<le> last (t # ts)"
    using assms(3) by (auto simp: sorted_append sorted_wrt_append)
  show ?thesis
    using countdown_state[OF assms(1,2) s] countdown_state[OF assms(1-3)]
      progress_bounds[OF assms(1) le(2)] progress_mono[OF assms(1) le(1), of t]
      progress_full[OF assms(1), of t now]
    by (simp add: progress_at_def)
qed

theorem countdown_ends_witness:
  "cd_progress (countdown_run 5000 [10, 2000, 4900]) = 100"
  using countdown_ends[of 5000 10 "[2000]" 4900] by (simp add: compensation_def)

end
