(* ===== verification/Title_Icon.thy ===== *)
theory Title_Icon
  imports Theme
begin

text \<open>
  The icons of \<open>components/mui/title-icon\<close>: names of classes, styles and elements.  Composing and
  generating class names and capitalising are functions of Material UI and parameters here.
\<close>

section \<open>Classes\<close>

definition title_icon_class_keys :: "string list" where
  "title_icon_class_keys = [''root'', ''colorInherit'', ''colorPrimary'', ''colorSecondary'', ''colorError'',
     ''colorInfo'', ''colorSuccess'', ''colorWarning'']"

definition get_title_icon_utility_class :: "(string \<Rightarrow> string \<Rightarrow> string) \<Rightarrow> string \<Rightarrow> string" where
  "get_title_icon_utility_class generate slot = generate ''MuiTitleIcon'' slot"

definition title_icon_classes :: "(string \<Rightarrow> string list \<Rightarrow> 'c) \<Rightarrow> 'c" where
  "title_icon_classes generate_all = generate_all ''MuiTitleIcon'' title_icon_class_keys"

section \<open>Properties and styles\<close>

record 'a title_icon_props =
  ti_children :: "'a view list"
  ti_classes :: "string \<rightharpoonup> string"
  ti_variant :: "string option"
  ti_color :: "string option"

definition title_icon_colors :: "string list" where
  "title_icon_colors = [''inherit'', ''primary'', ''secondary'', ''error'', ''info'', ''success'', ''warning'']"

text \<open>The class names of the slots, before they are composed.\<close>

definition title_icon_slots :: "(string \<Rightarrow> string) \<Rightarrow> string \<Rightarrow> string \<Rightarrow> (string \<times> string list) list" where
  "title_icon_slots capitalize variant color =
     [(''root'', [''root''] @ only (variant \<noteq> []) [''variant'' @ capitalize variant]
         @ only (color \<noteq> []) [''color'' @ capitalize color]),
      (''outlineOuter'', [''outlineOuter'']), (''outlineInner'', [''outlineInner''])]"

text \<open>The keys of the style overrides of the root.\<close>

definition title_icon_overrides :: "(string \<Rightarrow> string) \<Rightarrow> string \<Rightarrow> string \<Rightarrow> string list" where
  "title_icon_overrides capitalize variant color =
     [''root''] @ only (color \<noteq> []) [''color'' @ capitalize color]
     @ only (variant \<noteq> []) [''variant'' @ capitalize variant]"

definition title_icon_root_style :: style where
  "title_icon_root_style =
     [str_s ''position'' ''relative'', str_s ''width'' ''2.25rem'', str_s ''height'' ''2.25rem'',
      str_s ''display'' ''inline-flex'', str_s ''justifyContent'' ''center'', str_s ''alignItems'' ''center'',
      str_s ''color'' ''inherit'', str_s ''backgroundColor'' ''transparent'', str_s ''border'' ''none'',
      str_s ''outline'' ''none'', str_s ''fontSize'' ''1.25rem'',
      obj_s ''& .MuiIcon-root, & .tabler-icon, & svg'' [str_s ''width'' ''1em'', str_s ''height'' ''1em''],
      (''variants'', JArr (map (\<lambda>color. JObj
         [obj_s ''props'' [str_s ''color'' color],
          obj_s ''style''
            [(''color'', if color = ''inherit'' then JStr ''inherit''
                         else if color = ''default'' then color_of ''text'' ''primary''
                         else color_of color ''main'')]]) title_icon_colors))]"

definition outline_style :: "string \<Rightarrow> jsval \<Rightarrow> string \<Rightarrow> style" where
  "outline_style len opacity radius =
     [str_s ''boxSizing'' ''border-box'', str_s ''width'' len, str_s ''height'' len,
      str_s ''position'' ''absolute'', str_s ''top'' ''50%'', str_s ''left'' ''50%'',
      str_s ''transform'' ''translate(-50%, -50%)'', (''opacity'', opacity),
      str_s ''borderWidth'' ''1.667px'', str_s ''borderStyle'' ''solid'',
      str_s ''borderColor'' ''currentcolor'',
      (''variants'', JArr
        [JObj [obj_s ''props'' [str_s ''variant'' ''circle''],
               obj_s ''style'' [str_s ''borderRadius'' ''50%'']],
         JObj [obj_s ''props'' [str_s ''variant'' ''square''],
               obj_s ''style'' [str_s ''borderRadius'' radius]]])]"

definition outline_outer_style :: style where
  "outline_outer_style = outline_style ''2.25rem'' (dec_v 1 1) ''0.38rem''"

definition outline_inner_style :: style where
  "outline_inner_style = outline_style ''1.75rem'' (dec_v 3 1) ''0.25em''"

text \<open>
  \<open>compose\<close> gives the class name of a slot from the slots, the names generated and the classes that the
  owner overrides; \<open>class_name\<close> and \<open>rest\<close> are what else the owner gives.
\<close>

definition title_icon_element ::
    "((string \<times> string list) list \<Rightarrow> (string \<Rightarrow> string) \<Rightarrow> (string \<rightharpoonup> string) \<Rightarrow> string \<Rightarrow> string) \<Rightarrow>
     (string \<Rightarrow> string \<Rightarrow> string) \<Rightarrow> (string \<Rightarrow> string) \<Rightarrow> string \<Rightarrow> (string \<times> 'a attr) list \<Rightarrow>
     'a title_icon_props \<Rightarrow> 'a view" where
  "title_icon_element compose generate capitalize class_name rest p =
     (let variant = (case ti_variant p of Some v \<Rightarrow> v | None \<Rightarrow> ''circle'');
          color = (case ti_color p of Some c \<Rightarrow> c | None \<Rightarrow> ''default'');
          owner = obj_p ''ownerState'' [str_s ''variant'' variant, str_s ''color'' color];
          classes = compose (title_icon_slots capitalize variant color)
            (get_title_icon_utility_class generate) (ti_classes p)
      in VElem ''TitleIconRoot''
           ([str_p ''className'' (join '' '' (filter (\<lambda>c. c \<noteq> []) [classes ''root'', class_name])),
             owner, str_p ''role'' ''img''] @ rest)
           ([VElem ''TitleIconOutlineOuter'' [str_p ''className'' (classes ''outlineOuter''), owner] [],
             VElem ''TitleIconOutlineInner'' [str_p ''className'' (classes ''outlineInner''), owner] []]
            @ ti_children p))"

section \<open>The icon of a form\<close>

definition title_icon_form_style :: style where
  "title_icon_form_style =
     [str_s ''flex'' ''none'', str_s ''width'' ''3rem'', str_s ''height'' ''3rem'',
      str_s ''aspectRatio'' ''1 / 1'', str_s ''display'' ''flex'', str_s ''alignItems'' ''center'',
      str_s ''justifyContent'' ''center'', str_s ''borderRadius'' ''0.375rem'',
      (''backgroundColor'', shade grey_scale ''250''), str_s ''overflow'' ''hidden'']"

definition title_icon_form_image_style :: style where
  "title_icon_form_image_style =
     [str_s ''width'' ''100%'', str_s ''height'' ''100%'', str_s ''display'' ''flex'',
      str_s ''alignItems'' ''center'', str_s ''justifyContent'' ''center'',
      str_s ''background'' ''url(/assets/common/form-half-one.png) center / cover no-repeat'',
      str_s ''mixBlendMode'' ''multiply'']"

definition title_icon_form_view :: "'a view" where
  "title_icon_form_view = VElem ''TitleIconFormRoot'' [] [VElem ''TitleIconFormImage'' [] []]"

section \<open>Facts\<close>

text \<open>
  Of the style overrides an icon asks for, those of a colour are found for every colour but the default
  one, and those of a variant for none: the keys have no variant and no default colour.
\<close>

lemma title_icon_overrides_found:
  assumes "map capitalize title_icon_colors =
      [''Inherit'', ''Primary'', ''Secondary'', ''Error'', ''Info'', ''Success'', ''Warning'']"
    and "capitalize ''default'' = ''Default''" "capitalize ''circle'' = ''Circle''" "capitalize ''square'' = ''Square''"
    and "variant \<in> {''circle'', ''square''}" "color \<in> set (''default'' # title_icon_colors)"
  shows "filter (\<lambda>k. k \<in> set title_icon_class_keys) (title_icon_overrides capitalize variant color)
    = ''root'' # only (color \<noteq> ''default'') [''color'' @ capitalize color]"
proof -
  have "''variant'' @ capitalize variant \<notin> set title_icon_class_keys"
    using assms(3-5) by (auto simp: title_icon_class_keys_def)
  moreover have "''color'' @ capitalize color \<in> set title_icon_class_keys \<longleftrightarrow> color \<noteq> ''default''"
    using assms(1,2,6) by (auto simp: title_icon_class_keys_def title_icon_colors_def)
  moreover have "variant \<noteq> []" "color \<noteq> []" using assms(5,6) by (auto simp: title_icon_colors_def)
  ultimately show ?thesis by (simp add: title_icon_overrides_def only_def title_icon_class_keys_def)
qed

end
