(* ===== verification/Layout.thy ===== *)
theory Layout
  imports Alert_Dialog Pages
begin

text \<open>
  The layouts of \<open>components/common\<close>: the drawer of the chat page with its five dialogs, and the
  frame of the setup and join pages with its debug column.
\<close>

section \<open>The dialogs of the drawer\<close>

datatype drawer_dialog = Waiting_dialog | Rebalancing_dialog | Need_nodes_dialog | Failed_dialog | Join_dialog

definition muted_text :: "'a view list \<Rightarrow> 'a view" where
  "muted_text = VElem ''Typography'' [str_p ''variant'' ''body2'', str_p ''color'' ''text.disabled'']"

definition small_stack :: "int \<Rightarrow> 'a view list \<Rightarrow> 'a view" where
  "small_stack gap = VElem ''Stack'' [obj_p ''sx'' [int_s ''gap'' gap]]"

definition live_status_stack :: "'a view" where
  "live_status_stack =
     small_stack 1
       [body_text ''Check your live node status'',
        muted_text
          [VText (''After you successfully start the server on the nodes, you should see them show up on the ''
             @ ''below dashboard.'')],
        VElem ''NodeList'' [] []]"

definition waiting_content :: "'a view list" where
  "waiting_content =
     [small_stack 7
        [small_stack 1 [body_text ''Run join command on your new Node'', VElem ''JoinCommand'' [] []],
         live_status_stack]]"

definition rebalancing_content :: "'a view list" where
  "rebalancing_content =
     [body_text ''Cluster rebalancing'',
      muted_text
        [VText (''We have noticed one of your nodes has been disconnected. We are now rebalancing your ''
           @ ''inference requests onto working nodes. Please wait a few seconds for the cluster to ''
           @ ''rebalance itself.'')],
      VElem ''NodeList'' [str_p ''variant'' ''menu''] []]"

definition need_nodes_content :: "model_info option \<Rightarrow> 'a view list" where
  "need_nodes_content m =
     [VElem ''Typography'' [str_p ''variant'' ''body1'']
        (VText ''Your selected model requires more nodes.''
         # (case m of
              None \<Rightarrow> []
            | Some i \<Rightarrow> only (needs_vram (Some i)) (VText '' '' # vram_texts i)))]"

definition failed_content :: "'a view list" where
  "failed_content =
     [body_text ''Scheduler restart'',
      muted_text
        [VText (''We have noticed that your scheduler has been disconnected (this would be the computer that ''
           @ ''ran the ''),
         VElem ''strong'' [] [VText ''parallax run''],
         VText ('' command). You would need to restart the scheduler, ''
           @ ''reconfigure the cluster, and your chat will be back up again!'')]]"

definition join_content :: "'a view list" where
  "join_content =
     [small_stack 5
        [small_stack 1 [body_text ''Run join command on all nodes'', VElem ''JoinCommand'' [] []],
         live_status_stack]]"

definition drawer_title :: "drawer_dialog \<Rightarrow> 'a view list" where
  "drawer_title w =
     (case w of Waiting_dialog \<Rightarrow> [VText ''Reconnect your nodes'']
      | Join_dialog \<Rightarrow> [VText ''Add New Nodes'']
      | _ \<Rightarrow> [VText []])"

definition drawer_icon :: "drawer_dialog \<Rightarrow> title_icon" where
  "drawer_icon w =
     (case w of Waiting_dialog \<Rightarrow> Icon_node [VElem ''IconInfoCircle'' [] []]
      | Join_dialog \<Rightarrow> Icon_node [VElem ''IconCirclePlus'' [] []]
      | _ \<Rightarrow> Icon_flag True)"

definition drawer_content :: "model_info option \<Rightarrow> drawer_dialog \<Rightarrow> 'a view list" where
  "drawer_content m w =
     (case w of Waiting_dialog \<Rightarrow> waiting_content | Rebalancing_dialog \<Rightarrow> rebalancing_content
      | Need_nodes_dialog \<Rightarrow> need_nodes_content m | Failed_dialog \<Rightarrow> failed_content
      | Join_dialog \<Rightarrow> join_content)"

text \<open>The props given to \<open>useAlertDialog\<close>; neither \<open>onConfirm\<close> nor \<open>onClose\<close> is given.\<close>

definition drawer_props :: "model_info option \<Rightarrow> drawer_dialog \<Rightarrow> dialog_props" where
  "drawer_props m w = default_props\<lparr>dp_color := ''primary'', dp_title_icon := drawer_icon w,
     dp_title := drawer_title w, dp_content := drawer_content m w, dp_confirm_label := [VText ''Finish'']\<rparr>"

section \<open>The drawer\<close>

text \<open>
  The values that the effects last ran with, the delayed opening of the dialog on failures, and the
  dialogs.
\<close>

record drawer =
  dr_status :: jsval
  dr_need :: jsval
  dr_timer :: bool
  dr_sidebar :: bool
  dr_dialogs :: "drawer_dialog \<Rightarrow> dialog_hook"

definition open_one :: "drawer_dialog \<Rightarrow> drawer \<Rightarrow> drawer" where
  "open_one w d = d\<lparr>dr_dialogs := (dr_dialogs d)(w := open_dialog (dr_dialogs d w))\<rparr>"

definition open_if :: "bool \<Rightarrow> drawer_dialog \<Rightarrow> drawer \<Rightarrow> drawer" where
  "open_if b w d = (if b then open_one w d else d)"

text \<open>The effects on the status, in their order; the last one cancels the timer of its last run.\<close>

definition waiting_effect :: "host_type \<Rightarrow> drawer \<Rightarrow> drawer" where
  "waiting_effect host d =
     open_if (host = Cluster_host \<and> dr_status d = JStr ''waiting'') Waiting_dialog d"

definition rebalancing_effect :: "drawer \<Rightarrow> drawer" where
  "rebalancing_effect d = open_if (dr_status d = JStr ''rebalancing'') Rebalancing_dialog d"

definition failed_effect :: "drawer \<Rightarrow> drawer" where
  "failed_effect d =
     (if dr_status d = JStr ''failed'' then (open_one Failed_dialog d)\<lparr>dr_timer := False\<rparr>
      else d\<lparr>dr_timer := (dr_status d = JStr ''idle'')\<rparr>)"

definition status_effects :: "host_type \<Rightarrow> drawer \<Rightarrow> drawer" where
  "status_effects host d = failed_effect (rebalancing_effect (waiting_effect host d))"

lemmas status_effects_defs = status_effects_def waiting_effect_def rebalancing_effect_def failed_effect_def

definition need_effect :: "drawer \<Rightarrow> drawer" where
  "need_effect d = open_if (truthy (dr_need d)) Need_nodes_dialog d"

definition mount_drawer :: "host_type \<Rightarrow> jsval \<Rightarrow> jsval \<Rightarrow> drawer" where
  "mount_drawer host status need =
     need_effect (status_effects host
       \<lparr>dr_status = status, dr_need = need, dr_timer = False, dr_sidebar = True,
        dr_dialogs = (\<lambda>w. init_dialog_hook)\<rparr>)"

definition cluster_rendered :: "host_type \<Rightarrow> jsval \<Rightarrow> jsval \<Rightarrow> drawer \<Rightarrow> drawer" where
  "cluster_rendered host status need d =
     (let d1 = (if status = dr_status d then d else status_effects host (d\<lparr>dr_status := status\<rparr>))
      in if need = dr_need d then d1 else need_effect (d1\<lparr>dr_need := need\<rparr>))"

datatype drawer_event =
    Cluster_rendered jsval jsval
  | Idle_timer
  | Toggle_sidebar
  | Add_nodes
  | Dialog_finished drawer_dialog
  | Dialog_dismissed drawer_dialog

definition on_dialog :: "model_info option \<Rightarrow> drawer_dialog \<Rightarrow> dialog_event \<Rightarrow> drawer \<Rightarrow> drawer" where
  "on_dialog m w ev d =
     d\<lparr>dr_dialogs := (dr_dialogs d)(w := hook_step (drawer_props m w) (dr_dialogs d w) ev)\<rparr>"

text \<open>The default \<open>onConfirm\<close> returns \<open>undefined\<close>.\<close>

fun drawer_step :: "host_type \<Rightarrow> model_info option \<Rightarrow> drawer \<Rightarrow> drawer_event \<Rightarrow> drawer" where
  "drawer_step host m d (Cluster_rendered status need) = cluster_rendered host status need d"
| "drawer_step host m d Idle_timer =
     (if dr_timer d then (open_one Failed_dialog d)\<lparr>dr_timer := False\<rparr> else d)"
| "drawer_step host m d Toggle_sidebar = d\<lparr>dr_sidebar := \<not> dr_sidebar d\<rparr>"
| "drawer_step host m d Add_nodes = open_one Join_dialog d"
| "drawer_step host m d (Dialog_finished w) = on_dialog m w (Confirm_clicked (Returned JUndef)) d"
| "drawer_step host m d (Dialog_dismissed w) = on_dialog m w Close_requested d"

section \<open>Styles of the drawer\<close>

definition drawer_root_style :: style where
  "drawer_root_style =
     [str_s ''width'' ''100%'', str_s ''height'' ''100%'', str_s ''justifyContent'' ''flex-start'',
      str_s ''alignItems'' ''stretch'', str_s ''overflow'' ''hidden'']"

definition drawer_side_style :: style where
  "drawer_side_style =
     [str_s ''height'' ''100%'', (''paddingBlock'', spacing 2), (''paddingInline'', spacing 2),
      (''gap'', spacing 3), str_s ''overflow'' ''hidden'', str_s ''transition'' ''width 0.3s ease-in-out'',
      (''backgroundColor'', shade grey_scale ''200'')]"

definition drawer_header_style :: style where
  "drawer_header_style =
     [str_s ''width'' ''100%'', str_s ''height'' ''2.5rem'', str_s ''flex'' ''none'',
      (''marginTop'', spacing 1), (''paddingBlock'', spacing 1), (''paddingInline'', spacing 4),
      str_s ''overflow'' ''hidden'']"

definition drawer_container_style :: style where
  "drawer_container_style =
     [int_s ''flex'' 1, str_s ''alignItems'' ''center'', str_s ''overflow'' ''hidden'',
      (''backgroundColor'', shade grey_scale ''100'')]"

definition drawer_content_style :: style where
  "drawer_content_style =
     [str_s ''width'' ''48.75rem'', str_s ''maxWidth'' ''100%'', str_s ''height'' ''100%'',
      (''gap'', spacing 2), (''paddingBlock'', spacing 1), (''paddingInline'', spacing 4),
      str_s ''overflow'' ''hidden'']"

section \<open>View of the drawer\<close>

datatype drawer_handler = On_toggle_sidebar | On_add_nodes

definition drawer_tooltip :: "string \<Rightarrow> drawer_handler view \<Rightarrow> drawer_handler view" where
  "drawer_tooltip title child =
     VElem ''Tooltip''
       [str_p ''title'' title, str_p ''placement'' ''right'',
        obj_p ''slotProps''
          [obj_s ''tooltip'' [obj_s ''sx'' [str_s ''bgcolor'' ''primary.main'', str_s ''color'' ''common.white'']]]]
       [child]"

definition sidebar_collapse_view :: "drawer_handler view list" where
  "sidebar_collapse_view =
     [VElem ''IconBrandGradient'' [] [], VElem ''Box'' [obj_p ''sx'' [int_s ''flex'' 1]] [],
      drawer_tooltip ''Collapse Sidebar''
        (VElem ''IconButton''
           [str_p ''size'' ''em'',
            obj_p ''sx'' [str_s ''fontSize'' ''1.5rem'', str_s ''borderRadius'' ''8px'',
                          str_s ''color'' ''#808080FF'',
                          obj_s ''&:hover'' [str_s ''bgcolor'' ''action.hover'']],
            act_p ''onClick'' On_toggle_sidebar]
           [VElem ''IconLayoutSidebarLeftCollapse'' [] []])]"

definition sidebar_expand_view :: "drawer_handler view list" where
  "sidebar_expand_view =
     [VElem ''Box''
        [obj_p ''sx''
           [str_s ''position'' ''relative'', int_s ''width'' 28, int_s ''height'' 28,
            str_s ''display'' ''flex'', str_s ''alignItems'' ''center'', str_s ''justifyContent'' ''center'',
            obj_s ''&:hover .logo'' [int_s ''opacity'' 0],
            obj_s ''&:hover .toggle''
              [int_s ''opacity'' 1, str_s ''pointerEvents'' ''auto'', str_s ''transform'' ''scale(1)'']]]
        [VElem ''Box''
           [str_p ''className'' ''logo'',
            obj_p ''sx''
              [str_s ''position'' ''absolute'', int_s ''inset'' 0, str_s ''display'' ''flex'',
               str_s ''alignItems'' ''center'', str_s ''justifyContent'' ''center'',
               str_s ''transition'' ''opacity .15s ease'', int_s ''opacity'' 1]]
           [VElem ''IconBrandGradient'' [] []],
         drawer_tooltip ''Expand Sidebar''
           (VElem ''IconButton''
              [str_p ''className'' ''toggle'', str_p ''size'' ''em'',
               obj_p ''sx''
                 [str_s ''position'' ''absolute'', int_s ''opacity'' 0, str_s ''pointerEvents'' ''none'',
                  str_s ''fontSize'' ''1.5rem'',
                  str_s ''transition'' ''opacity .15s ease, transform .15s ease'',
                  obj_s ''&:hover'' [str_s ''bgcolor'' ''action.hover'']],
               str_p ''aria-label'' ''Expand Sidebar'', act_p ''onClick'' On_toggle_sidebar]
              [VElem ''IconLayoutSidebarLeftExpand'' [] []])]]"

definition topology_view :: "drawer_handler view" where
  "topology_view =
     VElem ''Stack'' []
       [VElem ''Stack''
          [str_p ''direction'' ''row'', obj_p ''sx'' [int_s ''gap'' 1, str_s ''color'' ''text.primary'']]
          [VElem ''Typography''
             [str_p ''variant'' ''body1'',
              obj_p ''sx'' [str_s ''mt'' ''1.5px'', str_s ''color'' ''#A7A7A7FF'', int_s ''fontWeight'' 600]]
             [VText ''Cluster topology'']],
        VElem ''NodeList'' [str_p ''variant'' ''menu'', obj_p ''sx'' [str_s ''py'' ''2rem'']] [],
        VElem ''Button''
          [str_p ''color'' ''info'', view_p ''startIcon'' [VElem ''IconPlus'' [] []],
           act_p ''onClick'' On_add_nodes]
          [VText ''Add Nodes'']]"

definition sidebar_view :: "bool \<Rightarrow> drawer_handler view" where
  "sidebar_view expanded =
     VElem ''DrawerLayoutSide''
       [obj_p ''sx''
          [str_s ''width'' (if expanded then ''16.25rem'' else ''3.5rem''), int_s ''paddingInline'' 2]]
       ([VElem ''Stack''
           [str_p ''direction'' ''row'',
            obj_p ''sx'' [str_s ''justifyContent'' ''flex-end'', str_s ''alignItems'' ''center'', int_s ''gap'' 2]]
           (if expanded then sidebar_collapse_view else sidebar_expand_view)]
        @ only expanded [topology_view])"

text \<open>The element of a dialog, before \<open>AlertDialog\<close> renders it.\<close>

definition dialog_node :: "model_info option \<Rightarrow> drawer \<Rightarrow> drawer_dialog \<Rightarrow> drawer_handler view" where
  "dialog_node m d w =
     VElem ''AlertDialog''
       ([str_p ''color'' ''primary'']
        @ (case w of Waiting_dialog \<Rightarrow> [view_p ''titleIcon'' [VElem ''IconInfoCircle'' [] []]]
           | Join_dialog \<Rightarrow> [view_p ''titleIcon'' [VElem ''IconCirclePlus'' [] []]] | _ \<Rightarrow> [])
        @ [view_p ''title'' (drawer_title w), view_p ''content'' (drawer_content m w),
           str_p ''confirmLabel'' ''Finish'', bool_p ''open'' (hk_open (dr_dialogs d w))]) []"

definition drawer_view :: "model_info option \<Rightarrow> drawer \<Rightarrow> drawer_handler view list \<Rightarrow> drawer_handler view" where
  "drawer_view m d children =
     VElem ''DrawerLayoutRoot'' [str_p ''direction'' ''row'']
       ([sidebar_view (dr_sidebar d),
         VElem ''DrawerLayoutContainer'' []
           [VElem ''DrawerLayoutHeader'' [str_p ''direction'' ''row'']
              [VElem ''ModelSelect'' [str_p ''variant'' ''text'', bool_p ''autoCommit'' True] []],
            VElem ''DrawerLayoutContent'' [] children]]
        @ map (dialog_node m d)
            [Join_dialog, Waiting_dialog, Rebalancing_dialog, Failed_dialog, Need_nodes_dialog])"

section \<open>The main layout\<close>

definition main_root_style :: style where
  "main_root_style =
     [str_s ''width'' ''100%'', str_s ''height'' ''100%'', str_s ''display'' ''flex'',
      str_s ''alignItems'' ''center'', (''gap'', spacing 3), (''padding'', spacing 3),
      str_s ''overflow'' ''hidden'', (''backgroundColor'', shade grey_scale ''100'')]"

definition main_header_style :: style where
  "main_header_style =
     [str_s ''width'' ''100%'', str_s ''flex'' ''none'', str_s ''justifyContent'' ''flex-start'',
      str_s ''alignItems'' ''center'', (''gap'', spacing 1)]"

definition main_container_style :: style where
  "main_container_style =
     [str_s ''position'' ''relative'', str_s ''flex'' ''1'', str_s ''width'' ''100%'',
      str_s ''display'' ''flex'', str_s ''flexFlow'' ''column nowrap'', str_s ''justifyContent'' ''center'',
      str_s ''alignItems'' ''center'', str_s ''overflowY'' ''hidden'']"

definition main_content_style :: style where
  "main_content_style =
     [str_s ''width'' ''31rem'', str_s ''height'' ''100%'', (''gap'', spacing 7),
      (''paddingInline'', spacing 1), str_s ''overflowY'' ''auto'']"

definition main_column_style :: "string \<Rightarrow> string \<Rightarrow> style" where
  "main_column_style side align =
     [str_s ''width'' ''calc((100% - 30rem) / 2 - 4rem)'', str_s ''height'' ''100%'',
      str_s ''overflow'' ''auto'', str_s ''position'' ''absolute'', int_s ''top'' 0, str_s side ''2rem'',
      str_s ''alignItems'' align, (''gap'', spacing 2)]"

definition main_start_style :: style where
  "main_start_style = main_column_style ''left'' ''flex-end''"

definition main_end_style :: style where
  "main_end_style = main_column_style ''right'' ''flex-start''"

text \<open>\<open>contentEnd\<close> that is not given is the debug column, \<open>None\<close> here.\<close>

definition main_layout_view :: "'a view list \<Rightarrow> 'a view list option \<Rightarrow> 'a view list \<Rightarrow> 'a view" where
  "main_layout_view content_start content_end children =
     (let end_column = (case content_end of None \<Rightarrow> [VElem ''DebugInfo'' [] []] | Some vs \<Rightarrow> vs) in
      VElem ''MainLayoutRoot'' []
        [VElem ''MainLayoutHeader'' [str_p ''direction'' ''row''] [VElem ''LogoGradient'' [] []],
         VElem ''MainLayoutContainer'' []
           ([VElem ''MainLayoutContent'' [str_p ''className'' ''MainLayoutContent''] children]
            @ only (content_start \<noteq> []) [VElem ''MainLayoutStart'' [] content_start]
            @ only (end_column \<noteq> []) [VElem ''MainLayoutEnd'' [] end_column])])"

definition render_record :: "string \<Rightarrow> (string \<times> jsval) list \<Rightarrow> 'a view" where
  "render_record title rec =
     VElem ''Stack'' [int_p ''gap'' 1]
       (VElem ''Typography'' [str_p ''variant'' ''subtitle2''] [VText title]
        # map (\<lambda>(key, value).
            VElem ''Typography'' [str_p ''variant'' ''body2'', str_p ''key'' key]
              ([VText key, VText '': ''] @ only (value \<noteq> JUndef) [VText (stringify value)])) rec)"

definition debug_link :: "string \<Rightarrow> string \<Rightarrow> 'a view" where
  "debug_link to label = VElem ''Link'' [str_p ''component'' ''RouterLink'', str_p ''to'' to] [VText label]"

definition debug_info_view :: "bool \<Rightarrow> cluster_state \<Rightarrow> 'a view list" where
  "debug_info_view dev s = only dev
     [VElem ''Stack'' [int_p ''gap'' 4, str_p ''data-debug-info'' ''true'']
        [VElem ''Typography'' [str_p ''variant'' ''subtitle1''] [VText ''Debug Info''],
         render_record ''Init Parameters''
           [int_s ''initNodesNumber'' (cl_init_nodes_number s),
            str_s ''networkType'' (network_name (cl_network_type s)),
            (''modelName'', cl_model_name s)],
         render_record ''Status Info'' (case json_of_cluster (cl_info s) of JObj kvs \<Rightarrow> kvs | _ \<Rightarrow> []),
         VElem ''Stack'' []
           [debug_link ''/setup'' ''Setup'', debug_link ''/join'' ''Join'', debug_link ''/chat'' ''Chat'']]]"

section \<open>Properties\<close>

definition drawer_run ::
    "host_type \<Rightarrow> drawer \<Rightarrow> (model_info option \<times> drawer_event) list \<Rightarrow> drawer" where
  "drawer_run host = foldl (\<lambda>d (m, ev). drawer_step host m d ev)"

text \<open>No handler of the drawer's dialogs returns a promise, so that none of them is ever loading.\<close>

definition drawer_ok :: "drawer \<Rightarrow> bool" where
  "drawer_ok d = ((\<forall>w. \<not> dg_loading (hk_dialog (dr_dialogs d w)))
     \<and> (dr_timer d \<longrightarrow> dr_status d = JStr ''idle''))"

lemma open_sel [simp]:
  "dr_status (open_if b w d) = dr_status d" "dr_need (open_if b w d) = dr_need d"
  "dr_timer (open_if b w d) = dr_timer d" "dr_sidebar (open_if b w d) = dr_sidebar d"
  "hk_dialog (dr_dialogs (open_if b w d) v) = hk_dialog (dr_dialogs d v)"
  "hk_open (dr_dialogs (open_if b w d) v) = (hk_open (dr_dialogs d v) \<or> b \<and> v = w)"
  "open_one w d = open_if True w d"
  by (auto simp: open_if_def open_one_def open_dialog_def)

lemma hook_finish:
  assumes "\<not> dg_loading (hk_dialog h)" "dp_confirm_label p \<noteq> []"
    and "ev = Confirm_clicked (Returned JUndef) \<or> ev = Close_requested"
  shows "hk_open (hook_step p h ev) = False" "\<not> dg_loading (hk_dialog (hook_step p h ev))"
  using assms
  by (auto simp: hook_step_def Let_def pipe_handler_def finish_action_cases accepts_def
      safe_on_close_def) (simp_all add: close_dialog_def)

lemma drawer_props_label: "dp_confirm_label (drawer_props m w) \<noteq> []"
  by (simp add: drawer_props_def default_props_def)

text \<open>What opens a dialog.\<close>

definition opens :: "host_type \<Rightarrow> drawer \<Rightarrow> drawer_event \<Rightarrow> drawer_dialog \<Rightarrow> bool" where
  "opens host d ev w =
     (case ev of
        Cluster_rendered status need \<Rightarrow>
          status \<noteq> dr_status d \<and>
            (w = Waiting_dialog \<and> host = Cluster_host \<and> status = JStr ''waiting''
             \<or> w = Rebalancing_dialog \<and> status = JStr ''rebalancing''
             \<or> w = Failed_dialog \<and> status = JStr ''failed'')
          \<or> w = Need_nodes_dialog \<and> need \<noteq> dr_need d \<and> truthy need
      | Idle_timer \<Rightarrow> w = Failed_dialog \<and> dr_timer d
      | Add_nodes \<Rightarrow> w = Join_dialog
      | _ \<Rightarrow> False)"

definition closed_by_user :: "drawer_event \<Rightarrow> drawer_dialog \<Rightarrow> bool" where
  "closed_by_user ev w = (ev = Dialog_finished w \<or> ev = Dialog_dismissed w)"

lemma cluster_rendered_sel:
  "hk_dialog (dr_dialogs (cluster_rendered host st need d) w) = hk_dialog (dr_dialogs d w)"
  "hk_open (dr_dialogs (cluster_rendered host st need d) w) =
     (opens host d (Cluster_rendered st need) w \<or> hk_open (dr_dialogs d w))"
  "dr_status (cluster_rendered host st need d) = st"
  "dr_timer (cluster_rendered host st need d) =
     (if st = dr_status d then dr_timer d else st = JStr ''idle'')"
  by (auto simp: cluster_rendered_def status_effects_defs need_effect_def opens_def Let_def)

lemma on_dialog_sel:
  assumes "drawer_ok d" "ev = Confirm_clicked (Returned JUndef) \<or> ev = Close_requested"
  shows "drawer_ok (on_dialog m v ev d)"
    and "hk_open (dr_dialogs (on_dialog m v ev d) w) = (w \<noteq> v \<and> hk_open (dr_dialogs d w))"
  using assms hook_finish[OF _ drawer_props_label assms(2)]
  by (auto simp: on_dialog_def drawer_ok_def)

lemma drawer_step_facts:
  assumes "drawer_ok d"
  shows "drawer_ok (drawer_step host m d ev)
    \<and> hk_open (dr_dialogs (drawer_step host m d ev) w) =
        (if closed_by_user ev w then False else opens host d ev w \<or> hk_open (dr_dialogs d w))"
proof (cases ev)
  case (Cluster_rendered st need)
  then show ?thesis
    using assms by (auto simp: drawer_ok_def cluster_rendered_sel closed_by_user_def)
next
  case (Dialog_finished v)
  then show ?thesis
    using on_dialog_sel[OF assms] by (auto simp: closed_by_user_def opens_def)
next
  case (Dialog_dismissed v)
  then show ?thesis
    using on_dialog_sel[OF assms] by (auto simp: closed_by_user_def opens_def)
qed (use assms in \<open>auto simp: drawer_ok_def closed_by_user_def opens_def\<close>)

lemma drawer_mount_ok: "drawer_ok (mount_drawer host status need)"
  by (auto simp: mount_drawer_def need_effect_def status_effects_defs drawer_ok_def Let_def
      init_dialog_hook_def init_dialog_def)

lemma drawer_run_ok: "drawer_ok d \<Longrightarrow> drawer_ok (drawer_run host d evs)"
  by (induction evs arbitrary: d) (auto simp: drawer_run_def drawer_step_facts)

text \<open>C31: A dialog of the drawer opens only when its cause newly appears: the status becomes the one it
  is about, more nodes become necessary, or the user asks for it; for an idle cluster the failure
  dialog opens only by the timer, which is pending only while the status has stayed idle.  An open
  dialog is closed by the user alone, and always by Finish or a request to close.\<close>

theorem drawer_dialogs:
  "let d = drawer_run host (mount_drawer host status need) evs in
     hk_open (dr_dialogs (drawer_step host m d ev) w) =
       (if closed_by_user ev w then False else opens host d ev w \<or> hk_open (dr_dialogs d w))
     \<and> (if dr_timer d then dr_status d = JStr ''idle'' else True)"
proof -
  have "drawer_ok (drawer_run host (mount_drawer host status need) evs)"
    by (rule drawer_run_ok[OF drawer_mount_ok])
  then show ?thesis
    using drawer_step_facts by (auto simp: Let_def drawer_ok_def)
qed

theorem drawer_dialogs_witness:
  "\<not> hk_open (dr_dialogs (drawer_run Cluster_host (mount_drawer Cluster_host (JStr ''idle'') (JBool False))
     [(None, Cluster_rendered (JStr ''available'') (JBool False)), (None, Idle_timer)]) Failed_dialog)"
  using drawer_dialogs[of Cluster_host "JStr ''idle''" "JBool False"
      "[(None, Cluster_rendered (JStr ''available'') (JBool False))]" None Idle_timer Failed_dialog]
  by (simp add: drawer_run_def Let_def cluster_rendered_sel closed_by_user_def opens_def
      mount_drawer_def need_effect_def status_effects_defs init_dialog_hook_def)

end
