(* ===== verification/Style_Rules.thy ===== *)
theory Style_Rules
  imports Theme
begin

text \<open>
  The vocabulary of \<open>themes/components/\<close>: reading the theme, style rules with variants, the default
  props and slots that a component of Material UI gets, the numbers of \<open>constants.ts\<close> and their
  arithmetic.  A generator takes the theme that \<open>createTheme\<close> has made; that theme is an argument.
  A component or icon given as a value stands as its name.  The tables of class names that Material
  UI exports, such as \<open>buttonClasses\<close>, come with it: \<open>th_class th ''button'' ''text''\<close>.
\<close>

section \<open>Reading the theme\<close>

fun path :: "jsval \<Rightarrow> string list \<Rightarrow> jsval" where
  "path v [] = v"
| "path (JObj kvs) (k # ks) = path (lookup kvs k) ks"
| "path _ (k # ks) = JUndef"

record theme =
  th_values :: jsval
  th_spacing :: "number \<Rightarrow> jsval"
  th_class :: "string \<Rightarrow> string \<Rightarrow> string"

definition theme_at :: "theme \<Rightarrow> string list \<Rightarrow> jsval" where
  "theme_at th ks = path (th_values th) ks"

definition spread :: "jsval \<Rightarrow> style" where
  "spread v = (case v of JObj kvs \<Rightarrow> kvs | _ \<Rightarrow> [])"

abbreviation pal :: "theme \<Rightarrow> string \<Rightarrow> string \<Rightarrow> jsval" where
  "pal th c k \<equiv> theme_at th [''palette'', c, k]"
abbreviation divider :: "theme \<Rightarrow> jsval" where
  "divider th \<equiv> theme_at th [''palette'', ''divider'']"
abbreviation font :: "theme \<Rightarrow> string \<Rightarrow> jsval" where
  "font th k \<equiv> theme_at th [''typography'', k]"
abbreviation font_entry :: "theme \<Rightarrow> string \<Rightarrow> string \<Rightarrow> jsval" where
  "font_entry th k e \<equiv> theme_at th [''typography'', k, e]"
abbreviation overlay :: "theme \<Rightarrow> string \<Rightarrow> jsval" where
  "overlay th k \<equiv> theme_at th [''overlays'', k]"

text \<open>\<open>`1px solid ${v}`\<close>.\<close>

definition border_line :: "jsval \<Rightarrow> jsval" where
  "border_line v = JStr (''1px solid '' @ js_to_string v)"

section \<open>Rules\<close>

text \<open>
  A rule has its own style and variants; a variant applies to the owner states that have its props,
  or to those its predicate accepts.
\<close>

datatype condition = Props style | When "style \<Rightarrow> bool"

type_synonym variant = "condition \<times> style"

record rule =
  ru_own :: style
  ru_variants :: "variant list"

record 'a overrides =
  ov_defaults :: "(string \<times> 'a attr) list"
  ov_slots :: "(string \<times> rule) list"
  ov_variants :: "variant list"

abbreviation styled :: "style \<Rightarrow> rule" where
  "styled st \<equiv> \<lparr>ru_own = st, ru_variants = []\<rparr>"
abbreviation varied :: "style \<Rightarrow> variant list \<Rightarrow> rule" where
  "varied st vs \<equiv> \<lparr>ru_own = st, ru_variants = vs\<rparr>"
abbreviation override_of :: "(string \<times> 'a attr) list \<Rightarrow> (string \<times> rule) list \<Rightarrow> 'a overrides" where
  "override_of ds ss \<equiv> \<lparr>ov_defaults = ds, ov_slots = ss, ov_variants = []\<rparr>"

definition owner_flag :: "string \<Rightarrow> style \<Rightarrow> bool" where
  "owner_flag k owner = truthy (lookup owner k)"

section \<open>Numbers\<close>

text \<open>
  Products, halves and differences of decimals that doubles hold exactly, and \<open>`${n}rem`\<close>.
\<close>

fun num_half :: "number \<Rightarrow> number" where
  "num_half (Num m k) = normalise (m * 5) (k + 1)"

fun num_minus :: "number \<Rightarrow> number \<Rightarrow> number" where
  "num_minus (Num m k) (Num n l) = normalise (m * 10 ^ l - n * 10 ^ k) (k + l)"

fun num_twice :: "number \<Rightarrow> number" where
  "num_twice (Num m k) = normalise (m * 2) k"

definition rem_v :: "number \<Rightarrow> jsval" where
  "rem_v n = JStr (print_number n @ ''rem'')"

text \<open>
  A positive double between \<open>2 ^ - 48\<close> and \<open>2 ^ 53\<close> as a significand of 53 bits over a power of two:
  the quotient of two integers rounded to the nearest, ties to even.  Its printed form is the
  shortest decimal that rounds to it.
\<close>

definition round_div :: "int \<Rightarrow> int \<Rightarrow> int" where
  "round_div p q =
     (let d = p div q; r = p mod q
      in if 2 * r > q \<or> (2 * r = q \<and> odd d) then d + 1 else d)"

definition double_shift :: "int \<Rightarrow> int \<Rightarrow> nat" where
  "double_shift p q =
     (case filter (\<lambda>e. q * 2 ^ 52 \<le> p * 2 ^ e) [0..<101] of e # es \<Rightarrow> e | [] \<Rightarrow> 0)"

type_synonym double = "int \<times> nat"

definition double_of :: "int \<Rightarrow> int \<Rightarrow> double" where
  "double_of p q = (let e = double_shift p q in (round_div (p * 2 ^ e) q, e))"

definition same_double :: "double \<Rightarrow> double \<Rightarrow> bool" where
  "same_double a b = (fst a * 2 ^ snd b = fst b * 2 ^ snd a)"

definition num_of_double :: "double \<Rightarrow> number" where
  "num_of_double d =
     (let c = (\<lambda>k. round_div (fst d * 10 ^ k) (2 ^ snd d))
      in case filter (\<lambda>k. same_double (double_of (c k) (10 ^ k)) d) [0..<18] of
           k # ks \<Rightarrow> Num (c k) k
         | [] \<Rightarrow> Num (c 17) 17)"

definition double_times :: "double \<Rightarrow> double \<Rightarrow> double" where
  "double_times a b = double_of (fst a * fst b) (2 ^ (snd a + snd b))"

fun double_of_num :: "number \<Rightarrow> double" where
  "double_of_num (Num m k) = double_of m (10 ^ k)"

section \<open>Constants\<close>

datatype control_size = Small | Medium | Large

fun size_name :: "control_size \<Rightarrow> string" where
  "size_name Small = ''small''"
| "size_name Medium = ''medium''"
| "size_name Large = ''large''"

fun input_size_rem :: "control_size \<Rightarrow> number" where
  "input_size_rem Small = Num 225 2"
| "input_size_rem Medium = Num 275 2"
| "input_size_rem Large = Num 35 1"

fun input_size_padding_rem :: "control_size \<Rightarrow> number" where
  "input_size_padding_rem Small = Num 75 2"
| "input_size_padding_rem Medium = Num 1 0"
| "input_size_padding_rem Large = Num 125 2"

fun input_icon_size_rem :: "control_size \<Rightarrow> number" where
  "input_icon_size_rem Small = Num 1 0"
| "input_icon_size_rem Medium = Num 125 2"
| "input_icon_size_rem Large = Num 15 1"

definition input_radius :: number where
  "input_radius = Num 38 2"

end
