(* ===== verification/Button_Styles.thy ===== *)
theory Button_Styles
  imports Style_Rules
begin

text \<open>
  \<open>themes/components/form/button.ts\<close>: the four buttons of the theme, with the variants of every
  colour and of every size.
\<close>

definition button_colors :: "string list" where
  "button_colors =
     [''brand'', ''primary'', ''secondary'', ''error'', ''info'', ''success'', ''warning'']"

definition button_sizes :: "control_size list" where
  "button_sizes = [Small, Medium, Large]"

definition contained_variants :: "string list" where
  "contained_variants = [''contained'', ''containedRounded'', ''containedSquare'', ''containedCircle'']"

definition min_width_multiply :: double where
  "min_width_multiply = double_of 300 225"

definition button_min_width :: "control_size \<Rightarrow> number" where
  "button_min_width sz = num_of_double (double_times (double_of_num (input_size_rem sz)) min_width_multiply)"

fun button_padding_rem :: "control_size \<Rightarrow> number" where
  "button_padding_rem Small = Num 875 3"
| "button_padding_rem Medium = Num 1125 3"
| "button_padding_rem Large = Num 15 1"

text \<open>\<open>COLORS.map(color => variants.map(variant => ...)).flat(1)\<close>\<close>

definition per_color_and_variant :: "(string \<Rightarrow> string \<Rightarrow> style) \<Rightarrow> variant list" where
  "per_color_and_variant f =
     concat (map (\<lambda>color. map (\<lambda>var.
       (Props [str_s ''variant'' var, str_s ''color'' color], f color var)) contained_variants) button_colors)"

definition color_shadow_map :: "theme \<Rightarrow> style" where
  "color_shadow_map th =
     [(''primary'', overlay th ''buttonShadeActiveDark''),
      (''secondary'', overlay th ''buttonShadeActiveLight''),
      (''brand'', overlay th ''buttonShadeBrand''),
      (''error'', overlay th ''buttonShadeError'')]"

definition contained_shadow :: "theme \<Rightarrow> string \<Rightarrow> string \<Rightarrow> style" where
  "contained_shadow th color var =
     [(''boxShadow'', overlay th ''buttonShadeDefault''),
      obj_s ''&:hover'' [(''boxShadow'', overlay th ''buttonShadeDefault'')],
      obj_s ''&:active''
        [(''boxShadow'',
          if truthy (lookup (color_shadow_map th) color) then lookup (color_shadow_map th) color
          else lookup (color_shadow_map th) ''secondary'')],
      obj_s ''&.Mui-disabled'' [(''boxShadow'', overlay th ''buttonShadeDefault'')]]"

definition contained_color :: "theme \<Rightarrow> string \<Rightarrow> string \<Rightarrow> style" where
  "contained_color th color var =
     [(''color'', pal th color ''contrastText''),
      str_s ''border'' ''1px solid'',
      (''borderColor'', pal th color ''darker''),
      (''backgroundColor'', pal th color ''main''),
      obj_s ''&:hover'' [(''backgroundColor'', pal th color ''light'')],
      obj_s ''&:active'' [(''backgroundColor'', pal th color ''main'')],
      obj_s ''&.Mui-disabled''
        [(''color'', pal th ''text'' ''disabled''),
         (''borderColor'', pal th color ''lighter''),
         (''backgroundColor'', pal th color ''lighter'')]]"

definition icon_font_size_variants :: "variant list" where
  "icon_font_size_variants =
     map (\<lambda>sz. (Props [str_s ''size'' (size_name sz)],
       [obj_s ''&>*:nth-of-type(1)'' [(''fontSize'', rem_v (input_icon_size_rem sz))]])) button_sizes"

definition button_root :: "theme \<Rightarrow> rule" where
  "button_root th = varied
     [str_s ''gap'' ''0.25rem'',
      (''borderRadius'', rem_v input_radius),
      int_s ''fontWeight'' 400, int_s ''letterSpacing'' 0, str_s ''textTransform'' ''none'',
      obj_s (''&.'' @ th_class th ''button'' ''text'')
        [str_s ''fontFamily'' ''inherit'', str_s ''fontWeight'' ''inherit'', str_s ''fontSize'' ''inherit'',
         str_s ''lineHeight'' ''inherit'', str_s ''color'' ''inherit'', str_s ''background'' ''transparent'',
         obj_s ''&:hover'' [str_s ''background'' ''transparent'']]]
     (per_color_and_variant (contained_shadow th) @ per_color_and_variant (contained_color th))"

definition button_start_icon :: rule where
  "button_start_icon = varied
     [int_s ''marginLeft'' 0, int_s ''marginRight'' 0,
      obj_s ''& .tabler-icon'' [str_s ''width'' ''1em'', str_s ''height'' ''1em'']]
     icon_font_size_variants"

definition button_end_icon :: rule where
  "button_end_icon = varied
     [obj_s ''& .table-icon'' [str_s ''width'' ''1em'', str_s ''height'' ''1em'']]
     icon_font_size_variants"

text \<open>
  The slots of the three sizes differ in the size and in the text variant of the label:
  \<open>subtitle2\<close> for small buttons, \<open>h3\<close> for the others.
\<close>

definition square_sides :: "control_size \<Rightarrow> style" where
  "square_sides sz =
     [(''width'', rem_v (input_size_rem sz)),
      (''minWidth'', rem_v (input_size_rem sz)),
      (''maxWidth'', rem_v (input_size_rem sz)),
      int_s ''paddingInline'' 0]"

definition button_size :: "theme \<Rightarrow> string \<Rightarrow> control_size \<Rightarrow> rule" where
  "button_size th label sz = styled
     [(''minWidth'', rem_v (button_min_width sz)),
      (''height'', rem_v (input_size_rem sz)),
      (''fontSize'', font_entry th label ''fontSize''),
      (''lineHeight'', font_entry th label ''lineHeight''),
      int_s ''padding'' 0, int_s ''paddingBlock'' 0,
      (''paddingInline'', rem_v (button_padding_rem sz)),
      obj_s (''&.'' @ th_class th ''button'' ''text'')
        [int_s ''minWidth'' 0, str_s ''height'' ''1lh'', int_s ''paddingInline'' 0],
      obj_s ''&.MuiButton-containedRounded'' [(''borderRadius'', rem_v (num_half (input_size_rem sz)))],
      obj_s ''&.MuiButton-containedSquare'' (square_sides sz),
      obj_s ''&.MuiButton-containedCircle'' (square_sides sz @ [str_s ''borderRadius'' ''50%''])]"

definition mui_button :: "theme \<Rightarrow> 'a overrides" where
  "mui_button th = override_of
     [str_p ''size'' ''small'', str_p ''variant'' ''contained'', bool_p ''disableRipple'' True]
     [(''root'', button_root th),
      (''startIcon'', button_start_icon),
      (''endIcon'', button_end_icon),
      (''sizeSmall'', button_size th ''subtitle2'' Small),
      (''sizeMedium'', button_size th ''h3'' Medium),
      (''sizeLarge'', button_size th ''h3'' Large)]"

definition mui_button_base :: "theme \<Rightarrow> 'a overrides" where
  "mui_button_base th = override_of [bool_p ''disableRipple'' True]
     [(''root'', styled [str_s ''borderRadius'' ''6px'', str_s ''textTransform'' ''none''])]"

definition mui_button_group :: "theme \<Rightarrow> 'a overrides" where
  "mui_button_group th = override_of
     [str_p ''color'' ''primary'', str_p ''variant'' ''contained'', str_p ''size'' ''small''] []"

section \<open>Icon buttons\<close>

definition icon_button_root :: "theme \<Rightarrow> rule" where
  "icon_button_root th = varied
     [str_s ''display'' ''inline-flex'', str_s ''justifyContent'' ''center'', str_s ''alignItems'' ''center'',
      int_s ''padding'' 0, (''borderRadius'', rem_v input_radius), str_s ''textTransform'' ''none'',
      obj_s ''&:hover'' [(''backgroundColor'', pal th ''grey'' ''200''), (''color'', pal th ''grey'' ''800'')],
      obj_s ''& .tabler-icon'' [str_s ''width'' ''1em'', str_s ''height'' ''1em'']]
     [(Props [str_s ''size'' ''mini''],
        [str_s ''width'' ''1em'', str_s ''height'' ''1em'', str_s ''fontSize'' ''1rem'',
         str_s ''borderRadius'' ''0.25rem'']),
      (Props [str_s ''size'' ''em''],
        [str_s ''width'' ''1em'', str_s ''height'' ''1em'', str_s ''fontSize'' ''inherit'',
         str_s ''lineHeight'' ''inherit'', str_s ''borderRadius'' ''0.25rem'']),
      (Props [str_s ''size'' ''lh''],
        [str_s ''width'' ''1lh'', str_s ''height'' ''1lh'', str_s ''fontSize'' ''1lh'',
         str_s ''lineHeight'' ''1lh'', str_s ''borderRadius'' ''0.25rem'']),
      (Props [str_s ''color'' ''primary''], [(''color'', pal th ''grey'' ''800'')]),
      (Props [str_s ''color'' ''secondary''], [(''color'', pal th ''grey'' ''500'')]),
      (Props [str_s ''color'' ''info''], [(''color'', pal th ''grey'' ''700'')])]"

definition icon_button_size :: "control_size \<Rightarrow> rule" where
  "icon_button_size sz = styled
     [(''width'', rem_v (input_size_rem sz)),
      (''height'', rem_v (input_size_rem sz)),
      (''fontSize'', rem_v (input_icon_size_rem sz))]"

definition mui_icon_button :: "theme \<Rightarrow> 'a overrides" where
  "mui_icon_button th = override_of [str_p ''size'' ''mini'', str_p ''color'' ''inherit'']
     [(''root'', icon_button_root th),
      (''sizeSmall'', icon_button_size Small),
      (''sizeMedium'', icon_button_size Medium),
      (''sizeLarge'', icon_button_size Large)]"

end
