(* ===== verification/Form_Styles.thy ===== *)
theory Form_Styles
  imports Style_Rules
begin

text \<open>
  The other files of \<open>themes/components/form/\<close>: inputs and their frames, labels, selects, sliders and
  toggles.
\<close>

section \<open>Form controls and labels\<close>

definition mui_form_control :: "theme \<Rightarrow> 'a overrides" where
  "mui_form_control th = override_of [] [(''root'', styled [str_s ''gap'' ''0.25rem''])]"

definition mui_form_label :: "theme \<Rightarrow> 'a overrides" where
  "mui_form_label th = override_of [] [(''root'', styled (spread (font th ''subtitle2'')))]"

definition mui_form_helper_text :: "theme \<Rightarrow> 'a overrides" where
  "mui_form_helper_text th = override_of []
     [(''root'', styled (override (override [int_s ''margin'' 0] (spread (font th ''body2'')))
        [(''color'', pal th ''text'' ''disabled'')]))]"

definition input_label_place :: style where
  "input_label_place =
     [str_s ''position'' ''relative'', str_s ''inset'' ''unset'', str_s ''top'' ''unset'',
      str_s ''left'' ''unset'', str_s ''right'' ''unset'', str_s ''bottom'' ''unset'',
      str_s ''transform'' ''none'', str_s ''transformOrigin'' ''unset'', str_s ''maxWidth'' ''unset'']"

definition mui_input_label :: "theme \<Rightarrow> 'a overrides" where
  "mui_input_label th = override_of [bool_p ''shrink'' True, str_p ''variant'' ''outlined'']
     [(''root'', styled (override (override input_label_place (spread (font th ''body2'')))
        [(''color'', pal th ''text'' ''secondary''), str_s ''backgroundColor'' ''transparent'']))]"

definition mui_input_adornment :: "theme \<Rightarrow> 'a overrides" where
  "mui_input_adornment th = override_of []
     [(''root'', varied
        (override (spread (font th ''body2'')) [(''color'', pal th ''text'' ''disabled'')])
        [(Props [str_s ''position'' ''start''], [int_s ''marginRight'' 0]),
         (Props [str_s ''position'' ''end''], [int_s ''marginLeft'' 0])])]"

section \<open>Inputs\<close>

definition input_sizes :: "control_size list" where
  "input_sizes = [Small, Medium]"

definition input_size_variants :: "variant list" where
  "input_size_variants =
     concat (map (\<lambda>sz.
       [(Props [str_s ''size'' (size_name sz)],
          [(''height'', rem_v (input_size_rem sz)), (''paddingInline'', rem_v (input_size_padding_rem sz))]),
        (Props [str_s ''size'' (size_name sz), (''multiline'', JBool True)],
          [str_s ''height'' ''auto'', (''paddingBlock'', rem_v (input_size_padding_rem sz))])]) input_sizes)"

definition mui_input_base :: "theme \<Rightarrow> 'a overrides" where
  "mui_input_base th = override_of [str_p ''size'' ''small'']
     [(''root'', varied
        [int_s ''padding'' 0,
         str_s ''borderRadius'' (print_number input_radius @ ''rem !important''),
         (''gap'', th_spacing th (Num 1 0))]
        input_size_variants),
      (''input'', varied
        (override (spread (font th ''body2''))
          [(''color'', pal th ''text'' ''primary''), int_s ''padding'' 0, str_s ''textAlign'' ''start'',
           obj_s ''&:placeholder'' [(''color'', pal th ''grey'' ''400'')]])
        [(Props [str_s ''type'' ''number''], [str_s ''textAlign'' ''end''])])]"

definition outlined_notch :: "theme \<Rightarrow> jsval \<Rightarrow> style" where
  "outlined_notch th color =
     [obj_s ''&, &:hover''
        [obj_s (''.'' @ th_class th ''outlinedInput'' ''notchedOutline'')
           [int_s ''borderWidth'' 1, (''borderColor'', color)]]]"

definition outlined_root :: "theme \<Rightarrow> style" where
  "outlined_root th =
     (let focused = th_class th ''outlinedInput'' ''focused'';
          disabled = th_class th ''outlinedInput'' ''disabled'' in
     [(''backgroundColor'', pal th ''background'' ''default''),
      (''boxShadow'', overlay th ''shadowInput''),
      obj_s ''&:hover'' [(''backgroundColor'', pal th ''grey'' ''50'')],
      obj_s (''&.'' @ focused) [(''boxShadow'', overlay th ''shadowInputActive'')],
      obj_s (''&.'' @ disabled) [obj_s ''&, &:hover'' [(''backgroundColor'', pal th ''grey'' ''200'')]],
      obj_s (''&, &.'' @ focused @ '', &.'' @ disabled) (outlined_notch th (divider th)),
      obj_s (''&.'' @ th_class th ''outlinedInput'' ''error'')
        ((''boxShadow'', overlay th ''shadowInputError'') # outlined_notch th (pal th ''error'' ''main''))])"

definition mui_outlined_input :: "theme \<Rightarrow> 'a overrides" where
  "mui_outlined_input th = override_of [str_p ''size'' ''small'']
     [(''root'', styled (outlined_root th)),
      (''input'', styled (override (spread (font th ''body2''))
         [(''color'', pal th ''text'' ''primary''), int_s ''padding'' 0])),
      (''notchedOutline'', varied
        [int_s ''top'' 0, int_s ''left'' 0, int_s ''right'' 0, int_s ''bottom'' 0,
         str_s ''border'' ''1px solid'', (''borderColor'', divider th),
         obj_s ''legend'' [str_s ''display'' ''none'']]
        [(Props [(''disabled'', JBool True)], [(''borderColor'', divider th)])])]"

definition mui_text_field :: "theme \<Rightarrow> 'a overrides" where
  "mui_text_field th = override_of
     [str_p ''size'' ''small'', str_p ''variant'' ''outlined'',
      (''slotProps'', PObj [obj_p ''input'' [], obj_p ''inputLabel'' [(''shrink'', JBool True)]])]
     [(''root'', styled [])]"

section \<open>Selects\<close>

text \<open>The icon of a select: \<open>({ ownerState, ...props }) => <IconButton {...ownerState} {...props}>\<close>.\<close>

definition select_icon :: "(string \<times> 'a attr) list \<Rightarrow> (string \<times> 'a attr) list \<Rightarrow> 'a view" where
  "select_icon owner_state props =
     VElem ''IconButton'' (owner_state @ props) [VElem ''IconChevronDown'' [] []]"

definition mui_select :: "theme \<Rightarrow> 'a overrides" where
  "mui_select th = override_of
     [str_p ''size'' ''small'', str_p ''variant'' ''outlined'', str_p ''IconComponent'' ''select_icon'']
     [(''root'', styled []),
      (''select'', styled []),
      (''icon'', varied
        [str_s ''top'' ''50%'', str_s ''transform'' ''translateY(-50%)'', (''color'', pal th ''text'' ''disabled'')]
        ((When (owner_flag ''open''), [str_s ''transform'' ''translateY(-50%) rotate(180deg)'']) #
         map (\<lambda>sz. (Props [str_s ''size'' (size_name sz)], [(''right'', rem_v (input_size_padding_rem sz))]))
           input_sizes))]"

section \<open>Sliders\<close>

record slider_size =
  sl_thumb :: number
  sl_track :: number
  sl_rail :: number
  sl_padding :: number

definition slider_size_maps :: "(control_size \<times> slider_size) list" where
  "slider_size_maps =
     [(Small, \<lparr>sl_thumb = Num 75 2, sl_track = Num 3125 4, sl_rail = Num 3125 4, sl_padding = Num 125 3\<rparr>),
      (Medium, \<lparr>sl_thumb = Num 1 0, sl_track = Num 625 3, sl_rail = Num 625 3, sl_padding = Num 125 3\<rparr>)]"

definition slider_colors :: "string list" where
  "slider_colors = [''brand'', ''primary'', ''secondary'', ''error'', ''info'', ''success'', ''warning'']"

text \<open>\<open>size.charAt(0).toUpperCase() + size.slice(1)\<close>; the names of sizes are ASCII letters.\<close>

definition upper_letter :: "char \<Rightarrow> char" where
  "upper_letter c =
     (let n = (of_char c :: nat) in if 97 \<le> n \<and> n \<le> 122 then char_of (n - 32) else c)"

definition size_class_key :: "control_size \<Rightarrow> string" where
  "size_class_key sz =
     ''&.MuiSlider-size'' @ map upper_letter (take 1 (size_name sz)) @ drop 1 (size_name sz)"

definition slider_size_style :: "theme \<Rightarrow> slider_size \<Rightarrow> style" where
  "slider_size_style th m =
     [obj_s ''.MuiSlider-thumb'' [(''width'', rem_v (sl_thumb m)), (''height'', rem_v (sl_thumb m))],
      obj_s ''.MuiSlider-track''
        [(''height'', rem_v (num_minus (sl_track m) (num_twice (sl_padding m)))),
         (''marginLeft'', rem_v (sl_padding m))],
      obj_s ''.MuiSlider-rail''
        [(''height'', rem_v (sl_rail m)),
         str_s ''padding'' (''0 '' @ print_number (sl_padding m) @ ''rem''),
         (''backgroundColor'', pal th ''grey'' ''250''),
         int_s ''opacity'' 1]]"

definition slider_variant :: "theme \<Rightarrow> string \<Rightarrow> control_size \<times> slider_size \<Rightarrow> variant" where
  "slider_variant th color = (\<lambda>(sz, m).
     (Props [str_s ''color'' color, str_s ''size'' (size_name sz)],
      [(''color'', pal th color ''main''),
       obj_s ''& .MuiSlider-thumb''
         [(''backgroundColor'', pal th color ''main''),
          obj_s ''&.Mui-disabled''
            [(''backgroundColor'', pal th ''grey'' ''250''), obj_s ''&::before'' [str_s ''boxShadow'' ''none'']],
          obj_s ''&:hover, &.Mui-focusVisible, &.Mui-active''
            [str_s ''boxShadow'' ''0px 0px 0px 0.25rem rgba(5, 170, 108, 0.16)'']],
       obj_s (size_class_key sz) (slider_size_style th m)]))"

definition mui_slider :: "theme \<Rightarrow> 'a overrides" where
  "mui_slider th =
     \<lparr>ov_defaults = [str_p ''size'' ''medium'', str_p ''color'' ''brand''],
      ov_slots =
        [(''root'', styled [int_s ''paddingBottom'' 0]),
         (''thumb'', styled
            [str_s ''borderWidth'' ''0.2rem'', str_s ''borderStyle'' ''solid'',
             (''borderColor'', pal th ''common'' ''white'')])],
      ov_variants = concat (map (\<lambda>color. map (slider_variant th color) slider_size_maps) slider_colors)\<rparr>"

section \<open>Toggle buttons\<close>

definition mui_toggle_button :: "theme \<Rightarrow> 'a overrides" where
  "mui_toggle_button th = override_of []
     [(''root'', varied
        (override (spread (font th ''subtitle2''))
          [int_s ''flex'' 1, (''height'', rem_v (input_size_rem Small)), (''borderColor'', divider th),
           (''color'', pal th ''grey'' ''400''), (''backgroundColor'', pal th ''grey'' ''200''),
           obj_s ''&:hover''
             [(''color'', pal th ''text'' ''secondary''), (''backgroundColor'', pal th ''background'' ''area''),
              obj_s ''@media (hover: none)'' [(''backgroundColor'', pal th ''grey'' ''200'')]]])
        [(Props [str_s ''color'' ''standard''],
          [obj_s (''&.'' @ th_class th ''toggleButton'' ''selected'')
             [(''color'', pal th ''text'' ''primary''),
              (''backgroundColor'', pal th ''background'' ''default''),
              obj_s ''&:hover''
                [(''backgroundColor'', pal th ''background'' ''default''),
                 obj_s ''@media (hover: none)'' [(''backgroundColor'', pal th ''background'' ''default'')]]]])])]"

definition mui_toggle_button_group :: "theme \<Rightarrow> 'a overrides" where
  "mui_toggle_button_group th = override_of [] [(''root'', styled [])]"

end
