(* ===== verification/Data_Styles.thy ===== *)
theory Data_Styles
  imports Style_Rules
begin

text \<open>
  \<open>themes/components/data-display/\<close>, \<open>navigation/\<close> and \<open>surfaces/\<close>: chips, dividers, lists, tables,
  text, menus and papers.
\<close>

section \<open>Chips, dividers, text\<close>

definition chip_padding_rem :: "(control_size \<times> number) list" where
  "chip_padding_rem = [(Small, Num 625 3), (Medium, Num 75 2)]"

definition chip_radius_rem :: "(control_size \<times> number) list" where
  "chip_radius_rem = [(Small, Num 375 3), (Medium, Num 25 2)]"

text \<open>\<open>`${map[size]}rem`\<close>, with a size that the map may lack.\<close>

definition rem_at :: "(control_size \<times> number) list \<Rightarrow> control_size \<Rightarrow> jsval" where
  "rem_at kvs sz = (case map_of kvs sz of Some n \<Rightarrow> rem_v n | None \<Rightarrow> JStr ''undefinedrem'')"

definition chip_colors :: "string list" where
  "chip_colors =
     [''secondary'', ''info'', ''brand'', ''primary'', ''error'', ''success'', ''warning'']"

definition chip_variants :: "theme \<Rightarrow> variant list" where
  "chip_variants th =
     concat (map (\<lambda>color. map (\<lambda>var.
       (Props [str_s ''variant'' var, str_s ''color'' color],
        [(''backgroundColor'', pal th color ''chip''), (''color'', pal th color ''chipText'')]))
       [''filled'', ''outlined'']) chip_colors)"

definition chip_size :: "jsval \<Rightarrow> control_size \<Rightarrow> style" where
  "chip_size h sz =
     [str_s ''minWidth'' ''auto'', (''height'', h),
      (''paddingInline'', rem_at chip_padding_rem sz), (''borderRadius'', rem_at chip_radius_rem sz),
      obj_s ''.MuiChip-label'' [str_s ''padding'' ''0 0'']]"

definition mui_chip :: "theme \<Rightarrow> 'a overrides" where
  "mui_chip th = override_of [str_p ''variant'' ''filled'']
     [(''root'', varied
        [int_s ''fontWeight'' 700, int_s ''letterSpacing'' 0, str_s ''textTransform'' ''capitalize'']
        (chip_variants th)),
      (''deleteIcon'', styled
        [str_s ''marginLeft'' ''0.375rem'', int_s ''marginRight'' 0, (''color'', pal th ''grey'' ''700''),
         obj_s ''&:hover'' [(''color'', pal th ''grey'' ''700'')]]),
      (''sizeSmall'', styled
        (chip_size (JStr ''1.625rem'') Small @ [(''fontSize'', font_entry th ''body2'' ''fontSize'')])),
      (''sizeMedium'', styled (chip_size (JStr ''1.375rem'') Medium))]"

definition mui_divider :: "theme \<Rightarrow> 'a overrides" where
  "mui_divider th = override_of []
     [(''root'', varied []
        [(Props [str_s ''variant'' ''inset''],
          [int_s ''margin'' 0, (''marginInlineStart'', rem_v (input_icon_size_rem Small))])])]"

definition mui_typography :: "theme \<Rightarrow> 'a overrides" where
  "mui_typography th = override_of
     [str_p ''variant'' ''inherit'', str_p ''color'' ''inherit'',
      obj_p ''variantMapping'' [str_s ''pre'' ''pre'']]
     [(''root'', varied [str_s ''flex'' ''none'']
        [(Props [str_s ''variant'' ''pre''], [str_s ''fontFamily'' ''Geist Mono, monospace''])])]"

section \<open>Lists\<close>

definition mui_list :: "theme \<Rightarrow> 'a overrides" where
  "mui_list th = override_of [bool_p ''disablePadding'' True]
     [(''root'', varied
        (override (spread (font th ''subtitle2''))
          [(''fontWeight'', font th ''fontWeightMedium''), (''color'', pal th ''text'' ''primary''),
           str_s ''display'' ''flex'', str_s ''flexFlow'' ''column nowrap'',
           str_s ''justifyContent'' ''flex-start'', str_s ''alignItems'' ''stretch'',
           (''gap'', th_spacing th (Num 5 1))])
        [(When (\<lambda>owner. \<not> owner_flag ''disablePadding'' owner),
          [(''paddingTop'', th_spacing th (Num 1 0)), (''paddingBottom'', th_spacing th (Num 1 0))])])]"

definition mui_list_item :: "theme \<Rightarrow> 'a overrides" where
  "mui_list_item th = override_of []
     [(''root'', varied
        [(''padding'', th_spacing th (Num 1 0)), (''gap'', th_spacing th (Num 75 2))]
        [(Props [(''disablePadding'', JBool True)], [int_s ''paddingBlock'' 0])])]"

definition mui_list_item_button :: "theme \<Rightarrow> 'a overrides" where
  "mui_list_item_button th = override_of []
     [(''root'', styled
        [(''padding'', th_spacing th (Num 1 0)), (''gap'', th_spacing th (Num 75 2)),
         obj_s ''&:hover'' [(''backgroundColor'', pal th ''grey'' ''100'')]])]"

definition mui_list_item_icon :: "theme \<Rightarrow> 'a overrides" where
  "mui_list_item_icon th = override_of []
     [(''root'', styled
        [(''fontSize'', rem_v (input_icon_size_rem Small)), (''minWidth'', rem_v (input_icon_size_rem Small)),
         (''color'', pal th ''text'' ''secondary''),
         obj_s ''& .tabler-icon'' [str_s ''width'' ''1em'', str_s ''height'' ''1em'']])]"

definition mui_list_item_text :: "theme \<Rightarrow> 'a overrides" where
  "mui_list_item_text th = override_of
     [(''slotProps'', PObj
        [obj_p ''primary''
           [str_s ''component'' ''span'', str_s ''variant'' ''subtitle2'', str_s ''fontWeight'' ''medium'',
            str_s ''color'' ''text.primary''],
         obj_p ''secondary''
           [str_s ''component'' ''span'', str_s ''variant'' ''body2'', str_s ''fontWeight'' ''medium'',
            str_s ''color'' ''grey.600'']])]
     [(''root'', varied [int_s ''margin'' 0]
        [(Props [(''inset'', JBool True)],
          [int_s ''padding'' 0, (''paddingInlineStart'', th_spacing th (Num 3 0))])])]"

definition mui_list_item_avatar :: "theme \<Rightarrow> 'a overrides" where
  "mui_list_item_avatar th = override_of [] []"

section \<open>Tables\<close>

definition mui_table_container :: "theme \<Rightarrow> 'a overrides" where
  "mui_table_container th = override_of [str_p ''component'' ''Paper''] []"

definition mui_table :: "theme \<Rightarrow> 'a overrides" where
  "mui_table th = override_of [] []"

definition mui_table_head :: "theme \<Rightarrow> 'a overrides" where
  "mui_table_head th = override_of [] [(''root'', styled [])]"

definition mui_table_body :: "theme \<Rightarrow> 'a overrides" where
  "mui_table_body th = override_of [] [(''root'', styled [])]"

definition mui_table_row :: "theme \<Rightarrow> 'a overrides" where
  "mui_table_row th = override_of []
     [(''root'', styled
        [obj_s (''&:hover, &.'' @ th_class th ''tableRow'' ''hover'' @ '':hover'')
           [(''backgroundColor'', pal th ''grey'' ''100'')],
         obj_s (''&.'' @ th_class th ''tableRow'' ''selected'')
           [(''backgroundColor'', pal th ''grey'' ''50''),
            obj_s ''&:hover'' [(''backgroundColor'', pal th ''grey'' ''200'')]],
         obj_s (''&:last-child>.'' @ th_class th ''tableCell'' ''body'') [int_s ''border'' 0]])]"

definition mui_table_cell :: "theme \<Rightarrow> 'a overrides" where
  "mui_table_cell th = override_of []
     [(''root'', varied
        [str_s ''padding'' ''1rem'', (''borderBottom'', border_line (divider th))]
        [(Props [str_s ''variant'' ''head''], [(''backgroundColor'', pal th ''background'' ''area'')]),
         (When (owner_flag ''stickyHeader''), [(''backgroundColor'', pal th ''background'' ''area'')])])]"

definition mui_table_footer :: "theme \<Rightarrow> 'a overrides" where
  "mui_table_footer th = override_of [] []"

definition mui_table_pagination :: "theme \<Rightarrow> 'a overrides" where
  "mui_table_pagination th = override_of [] []"

definition mui_table_pagination_actions :: "theme \<Rightarrow> 'a overrides" where
  "mui_table_pagination_actions th = override_of [] []"

definition mui_table_sort_label :: "theme \<Rightarrow> 'a overrides" where
  "mui_table_sort_label th = override_of [] []"

section \<open>Menus and papers\<close>

definition mui_menu :: "theme \<Rightarrow> 'a overrides" where
  "mui_menu th = override_of
     [(''slotProps'', PObj
        [obj_p ''paper'' [str_s ''variant'' ''overlay''], obj_p ''backdrop'' [(''invisible'', JBool True)]])]
     [(''root'', styled
        [obj_s (''& .'' @ th_class th ''divider'' ''root'') [(''marginBlock'', th_spacing th (Num 15 1))]]),
      (''paper'', styled [(''padding'', th_spacing th (Num 1 0))])]"

definition mui_menu_list :: "theme \<Rightarrow> 'a overrides" where
  "mui_menu_list th = override_of [] []"

definition mui_menu_item :: "theme \<Rightarrow> 'a overrides" where
  "mui_menu_item th = override_of []
     [(''root'', styled
        [(''padding'', th_spacing th (Num 1 0)), (''gap'', th_spacing th (Num 75 2)),
         obj_s ''&:hover'' [(''backgroundColor'', pal th ''grey'' ''200'')],
         obj_s (''& + .'' @ th_class th ''divider'' ''root'')
           [int_s ''margin'' 0, (''marginBlock'', th_spacing th (Num 15 1))],
         obj_s (''& .'' @ th_class th ''divider'' ''inset'')
           [int_s ''margin'' 0, (''marginInline'', rem_v (input_icon_size_rem Small))],
         obj_s (''& .'' @ th_class th ''listItemIcon'' ''root'')
           [(''minWidth'', rem_v (input_icon_size_rem Small))]])]"

definition mui_paper :: "theme \<Rightarrow> 'a overrides" where
  "mui_paper th = override_of [str_p ''variant'' ''outlined'']
     [(''root'', varied []
        [(When (\<lambda>owner. \<not> owner_flag ''square'' owner), [str_s ''borderRadius'' ''0.75rem'']),
         (Props [str_s ''variant'' ''outlined''], [(''border'', border_line (divider th))]),
         (Props [str_s ''variant'' ''overlay''],
           [(''border'', border_line (divider th)), (''boxShadow'', overlay th ''shadowMiddle'')])])]"

end
