(* ===== verification/Feedback_Styles.thy ===== *)
theory Feedback_Styles
  imports Style_Rules
begin

text \<open>
  \<open>themes/components/feedback/\<close> (alerts, backdrops, dialogs, progress bars, snackbars) and the font
  faces of \<open>css.tsx\<close>.
\<close>

section \<open>Alerts\<close>

definition alert_colors :: "string list" where
  "alert_colors = [''error'', ''warning'', ''info'', ''success'']"

definition mui_alert_title :: "theme \<Rightarrow> 'a overrides" where
  "mui_alert_title th = override_of []
     [(''root'', styled (override (spread (font th ''subtitle1''))
        [int_s ''padding'' 0, int_s ''margin'' 0, (''color'', pal th ''text'' ''primary'')]))]"

definition alert_defaults :: "(string \<times> 'a attr) list" where
  "alert_defaults =
     [str_p ''variant'' ''standard'',
      (''iconMapping'', PObj
        [view_p ''info'' [VElem ''IconInfoCircle'' [] []],
         view_p ''success'' [VElem ''IconCircleCheck'' [] []],
         view_p ''warning'' [VElem ''IconAlertCircle'' [] []],
         view_p ''error'' [VElem ''IconAlertCircle'' [] []]]),
      (''slots'', PObj [view_p ''closeIcon'' [VElem ''IconX'' [str_p ''fontSize'' ''1.25rem''] []]]),
      (''slotProps'', PObj [obj_p ''root'' [str_s ''variant'' ''outlined'']])]"

text \<open>\<open>(color === 'info' && value) || otherwise\<close>\<close>

definition for_info :: "string \<Rightarrow> jsval \<Rightarrow> jsval \<Rightarrow> jsval" where
  "for_info color v otherwise = (if color = ''info'' \<and> truthy v then v else otherwise)"

definition alert_outlined :: "theme \<Rightarrow> string \<Rightarrow> variant" where
  "alert_outlined th color =
     (Props [str_s ''variant'' ''outlined'', str_s ''severity'' color],
      [(''color'', pal th ''text'' ''secondary''),
       (''backgroundColor'', pal th ''background'' ''default''),
       (''borderColor'', divider th)])"

definition alert_standard :: "theme \<Rightarrow> string \<Rightarrow> variant" where
  "alert_standard th color =
     (Props [str_s ''variant'' ''standard'', str_s ''severity'' color],
      [str_s ''alignItems'' ''flex-start'', (''gap'', th_spacing th (Num 5 1)),
       (''color'', for_info color (pal th ''text'' ''disabled'') (pal th color ''main'')),
       (''backgroundColor'', for_info color (pal th ''background'' ''area'') (pal th color ''lighter'')),
       str_s ''border'' ''none'',
       obj_s (''& .'' @ th_class th ''alert'' ''icon'') [str_s ''color'' ''inherit'']])"

definition notification_variant :: "style \<Rightarrow> variant" where
  "notification_variant st = (Props [str_s ''variant'' ''notification''], st)"

definition alert_root :: "theme \<Rightarrow> rule" where
  "alert_root th = varied
     (override (spread (font th ''subtitle2''))
       [(''fontWeight'', font th ''fontWeightRegular''),
        str_s ''flex'' ''none'', str_s ''position'' ''relative'', str_s ''display'' ''flex'',
        str_s ''flexFlow'' ''row nowrap'', str_s ''justifyContent'' ''flex-start'',
        str_s ''justifyItems'' ''flex-start'', str_s ''alignItems'' ''center'', str_s ''gap'' ''0.75rem'',
        int_s ''padding'' 0, str_s ''paddingBlock'' ''0.75rem'',
        str_s ''paddingInline'' ''0.75rem 1.25rem'', str_s ''overflow'' ''hidden''])
     (map (alert_outlined th) alert_colors @ map (alert_standard th) alert_colors @
      [notification_variant
        [str_s ''flexWrap'' ''wrap'', str_s ''justifyContent'' ''space-between'', int_s ''gap'' 0,
         int_s ''padding'' 0, int_s ''paddingBlock'' 0, int_s ''paddingInline'' 0,
         str_s ''alignItems'' ''stretch'']])"

definition alert_icon :: rule where
  "alert_icon = varied
     [str_s ''fontSize'' ''inherit'', str_s ''lineHeight'' ''inherit'', str_s ''flex'' ''none'',
      str_s ''width'' ''1em'', str_s ''height'' ''1lh'', str_s ''display'' ''inline-flex'',
      str_s ''alignItems'' ''center'', int_s ''marginRight'' 0, int_s ''padding'' 0,
      obj_s ''& .tabler-icon'' [str_s ''width'' ''1em'', str_s ''height'' ''1em'']]
     [notification_variant [int_s ''order'' 1, str_s ''padding'' ''1rem'']]"

definition alert_message :: rule where
  "alert_message = varied
     [int_s ''flex'' 1, str_s ''display'' ''inline-flex'', str_s ''flexFlow'' ''column nowrap'',
      str_s ''justifyContent'' ''flex-start'', str_s ''alignItems'' ''stretch'', str_s ''gap'' ''0.25rem'',
      int_s ''padding'' 0, int_s ''margin'' 0]
     [notification_variant
        [int_s ''order'' 3, str_s ''flex'' ''2 0 100%'', str_s ''padding'' ''0 1rem 1rem'']]"

definition alert_action :: "theme \<Rightarrow> rule" where
  "alert_action th = varied
     [str_s ''flex'' ''none'', str_s ''display'' ''inline-flex'', str_s ''flexFlow'' ''row nowrap'',
      str_s ''alignItems'' ''center'', str_s ''justifyContent'' ''flex-end'', str_s ''gap'' ''0.75rem'',
      int_s ''padding'' 0, int_s ''margin'' 0, str_s ''marginInlineStart'' ''auto'',
      (''color'', pal th ''grey'' ''700'')]
     [notification_variant [int_s ''order'' 2, str_s ''padding'' ''1rem'']]"

definition mui_alert :: "theme \<Rightarrow> 'a overrides" where
  "mui_alert th = override_of alert_defaults
     [(''root'', alert_root th), (''icon'', alert_icon), (''message'', alert_message),
      (''action'', alert_action th)]"

section \<open>Dialogs and backdrops\<close>

definition mui_backdrop :: "theme \<Rightarrow> 'a overrides" where
  "mui_backdrop th = override_of []
     [(''root'', varied [str_s ''backgroundColor'' ''rgba(25, 24, 24, 0.5)'']
        [(Props [(''invisible'', JBool True)], [str_s ''backgroundColor'' ''transparent''])])]"

definition mui_dialog_actions :: "theme \<Rightarrow> 'a overrides" where
  "mui_dialog_actions th = override_of []
     [(''root'', varied
        [str_s ''padding'' ''1rem'',
         obj_s (''.'' @ th_class th ''dialogContent'' ''root''
             @ '':not(.'' @ th_class th ''dialogContent'' ''dividers'' @ '') + &'')
           [str_s ''marginTop'' ''-0.25rem'']]
        [(When (\<lambda>owner. \<not> owner_flag ''disableSpacing'' owner),
          [obj_s ''& > :not(style) ~ :not(style)'' [int_s ''marginLeft'' 0]])])]"

definition mui_dialog_title :: "theme \<Rightarrow> 'a overrides" where
  "mui_dialog_title th = override_of []
     [(''root'', styled (override
        [str_s ''display'' ''flex'', str_s ''flexFlow'' ''row nowrap'',
         str_s ''justifyContent'' ''space-between'', str_s ''alignContent'' ''flex-start'',
         str_s ''alignItems'' ''center'', str_s ''gap'' ''0.75rem'', str_s ''padding'' ''1rem'']
        (spread (font th ''subtitle1''))))]"

definition mui_dialog_content :: "theme \<Rightarrow> 'a overrides" where
  "mui_dialog_content th = override_of []
     [(''root'', varied
        [str_s ''display'' ''flex'', str_s ''flexFlow'' ''column nowrap'',
         str_s ''justifyContent'' ''flex-start'', str_s ''alignItems'' ''stretch'',
         str_s ''gap'' ''0.5rem'', str_s ''padding'' ''1rem'']
        [(When (owner_flag ''dividers''),
          [str_s ''padding'' ''1rem'', (''borderTop'', border_line (divider th)),
           (''borderBottom'', border_line (divider th))]),
         (When (\<lambda>owner. \<not> owner_flag ''dividers'' owner),
          [obj_s (''.'' @ th_class th ''dialogTitle'' ''root'' @ '' + &'') [int_s ''paddingTop'' 0],
           obj_s ''& + &'' [int_s ''paddingTop'' 0, str_s ''marginTop'' ''-0.25rem'']])])]"

definition mui_dialog_content_text :: "theme \<Rightarrow> 'a overrides" where
  "mui_dialog_content_text th = override_of [str_p ''component'' ''Stack'']
     [(''root'', styled (override
        [(''gap'', th_spacing th (Num 1 0)), (''color'', pal th ''text'' ''primary'')]
        (spread (font th ''body2''))))]"

definition mui_dialog :: "theme \<Rightarrow> 'a overrides" where
  "mui_dialog th = override_of
     [(''slotProps'', PObj
        [obj_p ''paper''
           [str_s ''variant'' ''overlay'',
            obj_s ''style'' [(''backgroundColor'', pal th ''background'' ''default'')]]])]
     [(''root'', styled [])]"

section \<open>Progress and snackbars\<close>

definition progress_colors :: "string list" where
  "progress_colors =
     [''primary'', ''secondary'', ''brand'', ''info'', ''error'', ''success'', ''warning'']"

definition progress_bar_color :: "theme \<Rightarrow> string \<Rightarrow> jsval" where
  "progress_bar_color th color =
     (if color = ''inherit'' then JStr ''currentColor'' else pal th color ''main'')"

definition mui_linear_progress :: "theme \<Rightarrow> 'a overrides" where
  "mui_linear_progress th = override_of []
     [(''root'', varied [str_s ''height'' ''0.375rem'', str_s ''borderRadius'' ''0.1875rem'']
        (map (\<lambda>color. (Props [str_s ''color'' color], [(''backgroundColor'', pal th ''grey'' ''300'')]))
          progress_colors)),
      (''bar1'', varied []
        (map (\<lambda>color. (Props [str_s ''color'' color], [(''backgroundColor'', progress_bar_color th color)]))
          progress_colors))]"

definition mui_snackbar_content :: "theme \<Rightarrow> 'a overrides" where
  "mui_snackbar_content th = override_of [str_p ''variant'' ''overlay'']
     [(''root'', styled (override (spread (font th ''subtitle1''))
        [(''color'', pal th ''text'' ''primary''),
         (''backgroundColor'', pal th ''background'' ''default''), int_s ''padding'' 0])),
      (''message'', styled [int_s ''padding'' 0])]"

definition mui_snackbar :: "theme \<Rightarrow> 'a overrides" where
  "mui_snackbar th = override_of
     [obj_p ''anchorOrigin'' [str_s ''vertical'' ''bottom'', str_s ''horizontal'' ''right'']]
     [(''root'', styled [])]"

section \<open>Font faces\<close>

definition font_face :: "string \<Rightarrow> string \<Rightarrow> string \<Rightarrow> string list" where
  "font_face name url form =
     [''      @font-face {'',
      ''        font-family: '' @ [CHR 0x27] @ name @ [CHR 0x27] @ '';'',
      ''        src: url('' @ url @ '') format('' @ [CHR 0x27] @ form @ [CHR 0x27] @ '');'',
      ''      }'']"

text \<open>The rules for \<open>MuiCssBaseline\<close>, a text; the addresses of the fonts come from the bundler.\<close>

definition mui_css_baseline :: "string \<Rightarrow> string \<Rightarrow> string \<Rightarrow> string" where
  "mui_css_baseline geist_mono inter_font grotesk =
     join [newline]
       ([''''] @ font_face ''Inter'' inter_font ''ttf''
        @ font_face ''FK Grotesk Neue'' grotesk ''woff2'' @ [''    ''])"

end
