(* ===== verification/Theme_Facts.thy ===== *)
theory Theme_Facts
  imports Theme_Components Json_Roundtrip
begin

text \<open>
  The overrides that the loop installs are complete: every value they hold is there, whatever
  \<open>createTheme\<close> adds to the options.
\<close>

section \<open>Complete values\<close>

text \<open>No \<open>undefined\<close>, and no text into which \<open>undefined\<close> was printed.\<close>

fun sublist_of :: "string \<Rightarrow> string \<Rightarrow> bool" where
  "sublist_of xs [] = (xs = [])"
| "sublist_of xs (y # ys) = (prefix xs (y # ys) \<or> sublist_of xs ys)"

fun complete_value :: "jsval \<Rightarrow> bool" where
  "complete_value JUndef = False"
| "complete_value (JStr s) = (\<not> sublist_of ''undefined'' s)"
| "complete_value (JArr vs) = list_all complete_value vs"
| "complete_value (JObj kvs) = list_all (\<lambda>(k, v). complete_value v) kvs"
| "complete_value v = True"

definition complete_style :: "style \<Rightarrow> bool" where
  "complete_style st = list_all (\<lambda>(k, v). complete_value v) st"

fun complete_attr :: "'a attr \<Rightarrow> bool"
  and complete_props :: "(string \<times> 'a attr) list \<Rightarrow> bool"
  and complete_view :: "'a view \<Rightarrow> bool"
  and complete_views :: "'a view list \<Rightarrow> bool" where
  "complete_attr (PVal v) = complete_value v"
| "complete_attr (PAct a) = True"
| "complete_attr (PView vs) = complete_views vs"
| "complete_attr (PObj ps) = complete_props ps"
| "complete_props [] = True"
| "complete_props ((k, p) # ps) = (complete_attr p \<and> complete_props ps)"
| "complete_view (VText s) = True"
| "complete_view (VElem t ps cs) = (complete_props ps \<and> complete_views cs)"
| "complete_views [] = True"
| "complete_views (v # vs) = (complete_view v \<and> complete_views vs)"

definition complete_variant :: "variant \<Rightarrow> bool" where
  "complete_variant v =
     ((case fst v of Props st \<Rightarrow> complete_style st | When f \<Rightarrow> True) \<and> complete_style (snd v))"

definition complete_rule :: "rule \<Rightarrow> bool" where
  "complete_rule r = (complete_style (ru_own r) \<and> list_all complete_variant (ru_variants r))"

fun complete_generated :: "'a generated \<Rightarrow> bool" where
  "complete_generated (Table c) =
     (complete_props (ov_defaults c) \<and> list_all (\<lambda>(k, r). complete_rule r) (ov_slots c)
      \<and> list_all complete_variant (ov_variants c))"
| "complete_generated (Css_text s) = True"

named_theorems complete_simps "completeness of values, styles and rules"

lemma complete_style_simps [complete_simps]:
  "complete_style []"
  "complete_style ((k, v) # st) = (complete_value v \<and> complete_style st)"
  "complete_style (st @ st') = (complete_style st \<and> complete_style st')"
  by (simp_all add: complete_style_def)

lemma complete_obj [complete_simps]: "complete_value (JObj st) = complete_style st"
  by (simp add: complete_style_def)

declare complete_value.simps(4) [simp del]

lemma complete_set_member: "complete_style st \<Longrightarrow> complete_value v \<Longrightarrow> complete_style (set_member k v st)"
  by (induction k v st rule: set_member.induct) (auto simp: complete_simps)

lemma complete_override [complete_simps]:
  "complete_style st \<Longrightarrow> complete_style extra \<Longrightarrow> complete_style (override st extra)"
proof (induction extra arbitrary: st)
  case (Cons kv extra)
  then show ?case by (cases kv) (simp add: override_def complete_set_member complete_simps)
qed (simp add: override_def)

lemma complete_spread [complete_simps]: "complete_value v \<Longrightarrow> complete_style (spread v)"
  by (cases v) (simp_all add: spread_def complete_simps)

lemma complete_rule_simps [complete_simps]:
  "complete_rule \<lparr>ru_own = st, ru_variants = vs\<rparr> = (complete_style st \<and> list_all complete_variant vs)"
  "complete_variant (Props ps, st) = (complete_style ps \<and> complete_style st)"
  "complete_variant (When f, st) = complete_style st"
  by (simp_all add: complete_rule_def complete_variant_def)

lemma list_all_concat_map: "list_all P (concat (map f xs)) = list_all (\<lambda>x. list_all P (f x)) xs"
  by (induction xs) auto

lemma list_all_map: "list_all P (map f xs) = list_all (\<lambda>x. P (f x)) xs"
  by (induction xs) auto

text \<open>Printed lengths have no letter before \<open>rem\<close>.\<close>

lemma sublist_of_set: "sublist_of xs ys \<Longrightarrow> set xs \<subseteq> set ys"
proof (induction ys)
  case (Cons y ys)
  then show ?case using set_mono_prefix [of xs "y # ys"] by auto
qed simp

lemma complete_rem [complete_simps]: "complete_value (rem_v n)"
proof -
  have "\<not> is_digit (CHR ''u'')" by (simp add: is_digit_def digit_value_def)
  then have "CHR ''u'' \<notin> set (print_number n @ ''rem'')"
    using print_number_chars [of "CHR ''u''" n] by auto
  then show ?thesis using sublist_of_set [of "''undefined''" "print_number n @ ''rem''"]
    by (auto simp: rem_v_def simp del: print_number.simps)
qed

section \<open>Themes made from the options\<close>

text \<open>
  What \<open>createTheme\<close> promises: an entry that the options set is kept, at every depth; the spacing
  function is the given one; the text variants, to which it adds its defaults, have no gaps.
\<close>

fun keeps :: "jsval \<Rightarrow> jsval \<Rightarrow> bool" where
  "keeps (JObj kvs) w = list_all (\<lambda>(k, v). v = JUndef \<or> keeps v (path w [k])) kvs"
| "keeps v w = (w = v)"

definition made_from_options :: "theme \<Rightarrow> bool" where
  "made_from_options th =
     (keeps (JObj theme_options) (th_values th)
      \<and> (\<forall>n. th_spacing th n = JStr (spacing_of n))
      \<and> (\<forall>k \<in> {''subtitle1'', ''subtitle2'', ''body2''}. complete_value (font th k)))"

fun scalar :: "jsval \<Rightarrow> bool" where
  "scalar JUndef = False"
| "scalar (JObj kvs) = False"
| "scalar v = True"

lemma path_undef [simp]: "path JUndef ks = JUndef"
  by (cases ks) simp_all

lemma path_step: "path w (k # ks) = path (path w [k]) ks"
  by (cases w) simp_all

lemma lookup_in: "lookup kvs k \<noteq> JUndef \<Longrightarrow> (k, lookup kvs k) \<in> set kvs"
  by (induction kvs) (auto split: if_splits)

lemma kept_path:
  assumes "keeps v w" "path v ks = x" "scalar x"
  shows "path w ks = x"
  using assms
proof (induction ks arbitrary: v w)
  case Nil
  then show ?case by (cases v) auto
next
  case (Cons k ks)
  then obtain kvs where v: "v = JObj kvs" by (cases v) auto
  have rest: "path (lookup kvs k) ks = x" using Cons.prems(2) v by simp
  then have "lookup kvs k \<noteq> JUndef" using Cons.prems(3) by auto
  moreover from this have "(k, lookup kvs k) \<in> set kvs" by (rule lookup_in)
  ultimately have "keeps (lookup kvs k) (path w [k])"
    using Cons.prems(1) v by (auto simp: list_all_iff)
  then show ?case using Cons.IH rest Cons.prems(3) by (subst path_step) blast
qed

definition option_at :: "string list \<Rightarrow> jsval" where
  "option_at ks = path (JObj theme_options) ks"

lemma theme_at_option:
  assumes "made_from_options th" "scalar (option_at ks)"
  shows "theme_at th ks = option_at ks"
  using assms kept_path [OF _ refl] by (simp add: made_from_options_def theme_at_def option_at_def)

text \<open>The colours that every palette colour has, and the other entries the overrides read.\<close>

definition color_entries :: "string list list" where
  "color_entries =
     concat (map (\<lambda>c. map (\<lambda>k. [''palette'', c, k])
       [''main'', ''darker'', ''light'', ''lighter'', ''contrastText'', ''chip'', ''chipText''])
       button_colors)"

definition grey_entries :: "string list list" where
  "grey_entries = map (\<lambda>k. [''palette'', ''grey'', k])
     [''50'', ''100'', ''200'', ''250'', ''300'', ''400'', ''500'', ''700'', ''800'']"

definition text_entries :: "string list list" where
  "text_entries =
     [[''palette'', ''text'', ''primary''], [''palette'', ''text'', ''secondary''],
      [''palette'', ''text'', ''disabled''], [''palette'', ''divider''],
      [''palette'', ''background'', ''default''], [''palette'', ''background'', ''area''],
      [''palette'', ''common'', ''white''],
      [''typography'', ''fontWeightMedium''], [''typography'', ''fontWeightRegular''],
      [''typography'', ''subtitle2'', ''fontSize''], [''typography'', ''subtitle2'', ''lineHeight''],
      [''typography'', ''h3'', ''fontSize''], [''typography'', ''h3'', ''lineHeight''],
      [''typography'', ''body2'', ''fontSize'']]"

definition overlay_entries :: "string list list" where
  "overlay_entries = map (\<lambda>k. [''overlays'', k])
     [''shadowMiddle'', ''shadowInput'', ''shadowInputActive'', ''shadowInputError'',
      ''buttonShadeDefault'', ''buttonShadeActiveLight'', ''buttonShadeActiveDark'',
      ''buttonShadeBrand'', ''buttonShadeError'']"

definition entry_fine :: "string list \<Rightarrow> bool" where
  "entry_fine ks = (scalar (option_at ks) \<and> complete_value (option_at ks))"

lemma entries_fine:
  "list_all entry_fine color_entries" "list_all entry_fine grey_entries"
  "list_all entry_fine text_entries" "list_all entry_fine overlay_entries"
  by code_simp+

lemma entry_complete:
  assumes "made_from_options th" "entry_fine ks"
  shows "complete_value (theme_at th ks)"
  using assms by (simp add: theme_at_option entry_fine_def)

lemma color_complete [complete_simps]:
  assumes "made_from_options th" "c \<in> set button_colors"
  shows "complete_value (pal th c ''main'')" "complete_value (pal th c ''darker'')"
    "complete_value (pal th c ''light'')" "complete_value (pal th c ''lighter'')"
    "complete_value (pal th c ''contrastText'')" "complete_value (pal th c ''chip'')"
    "complete_value (pal th c ''chipText'')"
  using entries_fine(1) assms(2)
  by (auto simp: color_entries_def list_all_concat_map list_all_iff intro!: entry_complete [OF assms(1)])

lemma grey_complete:
  assumes "made_from_options th"
  shows "list_all (\<lambda>ks. complete_value (theme_at th ks)) (grey_entries @ text_entries @ overlay_entries)"
  using entries_fine entry_complete [OF assms] unfolding list_all_iff by auto

lemmas other_complete [complete_simps] =
  grey_complete [unfolded grey_entries_def text_entries_def overlay_entries_def, simplified]

lemma font_complete [complete_simps]:
  assumes "made_from_options th"
  shows "complete_value (font th ''subtitle1'')" "complete_value (font th ''subtitle2'')"
    "complete_value (font th ''body2'')"
  using assms by (simp_all add: made_from_options_def)

lemma u_free_complete: "CHR ''u'' \<notin> set s \<Longrightarrow> complete_value (JStr s)"
  using sublist_of_set [of "''undefined''" s] by auto

lemma print_number_u [simp]: "CHR ''u'' \<notin> set (print_number n)"
  using print_number_chars [of "CHR ''u''" n] by (auto simp: is_digit_def digit_value_def)

lemma spacing_complete [complete_simps]:
  "made_from_options th \<Longrightarrow> complete_value (th_spacing th n)"
  by (cases n) (simp add: made_from_options_def u_free_complete del: complete_value.simps print_number.simps divide_16.simps)

lemma border_complete [complete_simps]:
  assumes "made_from_options th" shows "complete_value (border_line (divider th))"
proof -
  have "option_at [''palette'', ''divider''] = JStr ''#e4e4e4''" by code_simp
  then show ?thesis using theme_at_option [OF assms] by (simp add: border_line_def)
qed

section \<open>The tables\<close>

lemma button_complete:
  assumes "made_from_options th"
  shows "complete_generated (Table (mui_button th))"
proof -
  have shadow: "complete_style (contained_shadow th c v)" if "c \<in> set button_colors" for c v
    using that assms by (simp add: contained_shadow_def color_shadow_map_def complete_simps)
  have color: "complete_style (contained_color th c v)" if "c \<in> set button_colors" for c v
    using that assms by (simp add: contained_color_def complete_simps)
  have v: "complete_value (JStr v)" if "v \<in> set contained_variants \<union> set button_colors" for v
    using that by (auto simp: contained_variants_def button_colors_def)
  have "list_all complete_variant (per_color_and_variant f)"
    if "\<And>c v. c \<in> set button_colors \<Longrightarrow> complete_style (f c v)" for f
    using that v by (simp add: per_color_and_variant_def list_all_concat_map list_all_map list_all_iff complete_simps)
  then have "complete_rule (button_root th)"
    using shadow color by (simp add: button_root_def complete_simps)
  moreover have "complete_rule button_start_icon" "complete_rule button_end_icon"
    by (simp_all add: button_start_icon_def button_end_icon_def icon_font_size_variants_def button_sizes_def complete_simps)
  moreover have "complete_rule (button_size th k sz)" if "k \<in> {''subtitle2'', ''h3''}" for k sz
    using that assms by (auto simp: button_size_def square_sides_def complete_simps)
  ultimately show ?thesis by (simp add: mui_button_def)
qed

lemma color_members [complete_simps]:
  "list_all (\<lambda>c. c \<in> set button_colors)
     [''brand'', ''primary'', ''secondary'', ''error'', ''info'', ''success'', ''warning'']"
  by (simp add: button_colors_def)

lemmas color_members' [complete_simps] = color_members [simplified]

lemma printed_complete [simp]:
  "CHR ''u'' \<notin> set t \<Longrightarrow> \<not> sublist_of ''undefined'' (print_number n @ t)"
  using u_free_complete [of "print_number n @ t"] by (simp del: print_number.simps)

lemma slider_complete:
  assumes "made_from_options th"
  shows "complete_generated (Table (mui_slider th))"
proof -
  have "complete_variant (slider_variant th c p)" if "c \<in> set button_colors" for c p
  proof -
    obtain sz m where p: "p = (sz, m)" by (cases p)
    have "complete_value (JStr c)" "complete_value (JStr (size_name sz))"
      using that by (auto simp: button_colors_def) (cases sz; simp)+
    then show ?thesis using that assms
      by (simp add: p slider_variant_def slider_size_style_def complete_simps del: print_number.simps complete_value.simps)
         (simp del: print_number.simps)
  qed
  moreover have "slider_colors = button_colors" by (simp add: slider_colors_def button_colors_def)
  ultimately have "list_all complete_variant (ov_variants (mui_slider th))"
    by (simp add: mui_slider_def list_all_concat_map list_all_map list_all_iff split_beta)
  then show ?thesis using assms by (simp add: mui_slider_def complete_simps)
qed

definition export_complete :: "theme \<Rightarrow> 'a export \<Rightarrow> bool" where
  "export_complete th e = (case snd e of Some f \<Rightarrow> complete_generated (f th) | None \<Rightarrow> True)"

lemma form_complete:
  assumes "made_from_options th"
  shows "list_all (export_complete th) form_exports"
  using assms
  by (simp add: form_exports_def export_complete_def button_complete [simplified] slider_complete [simplified] mui_button_base_def mui_button_group_def mui_icon_button_def
   icon_button_root_def icon_button_size_def mui_form_control_def mui_form_label_def mui_form_helper_text_def
   mui_input_label_def input_label_place_def mui_input_adornment_def mui_input_base_def mui_outlined_input_def
   mui_text_field_def mui_select_def mui_toggle_button_def mui_toggle_button_group_def complete_simps
   input_size_variants_def input_sizes_def outlined_root_def outlined_notch_def Let_def
   del: print_number.simps)

lemma data_complete:
  assumes "made_from_options th"
  shows "list_all (export_complete th) data_exports"
  using assms
  by (simp add: data_exports_def export_complete_def mui_chip_def chip_variants_def chip_colors_def chip_size_def rem_at_def
    chip_padding_rem_def chip_radius_rem_def mui_divider_def mui_list_def
    mui_list_item_def mui_list_item_button_def mui_list_item_icon_def mui_list_item_text_def mui_list_item_avatar_def
    mui_table_container_def mui_table_def mui_table_head_def mui_table_body_def mui_table_row_def mui_table_cell_def
    mui_table_footer_def mui_table_pagination_def mui_table_pagination_actions_def mui_table_sort_label_def
    mui_typography_def complete_simps)

lemma surface_complete:
  assumes "made_from_options th"
  shows "list_all (export_complete th) surface_exports"
  using assms
  by (simp add: surface_exports_def export_complete_def mui_menu_def mui_menu_list_def mui_menu_item_def mui_paper_def complete_simps)

lemma alert_complete:
  assumes "made_from_options th"
  shows "complete_generated (Table (mui_alert th))"
  using assms by (simp add: mui_alert_def alert_defaults_def alert_root_def alert_icon_def alert_message_def
    alert_action_def alert_outlined_def alert_standard_def notification_variant_def for_info_def alert_colors_def
    complete_simps)

lemma feedback_complete:
  assumes "made_from_options th"
  shows "list_all (export_complete th) feedback_exports"
  using assms
  by (simp add: feedback_exports_def export_complete_def alert_complete [simplified] mui_alert_title_def mui_backdrop_def mui_dialog_actions_def
    mui_dialog_title_def mui_dialog_content_def mui_dialog_content_text_def mui_dialog_def
    mui_linear_progress_def progress_colors_def progress_bar_color_def mui_snackbar_content_def mui_snackbar_def
    complete_simps)

section \<open>The loop\<close>

lemma installed:
  "distinct (map fst es) \<Longrightarrow>
     fold (install th) es m name =
       (if prefix ''Mui'' name
        then (case map_of es name of Some (Some f) \<Rightarrow> Some (f th) | _ \<Rightarrow> m name) else m name)"
proof (induction es arbitrary: m)
  case (Cons e es)
  obtain k g where e: "e = (k, g)" by (cases e)
  have "map_of es k = None" using Cons.prems e by (simp add: map_of_eq_None_iff)
  then show ?case using Cons e
    by (cases g) (auto simp: install_def split: option.splits)
qed simp

lemma exports_complete:
  assumes "made_from_options th"
  shows "list_all (export_complete th) (theme_exports geist_mono inter_font grotesk)"
  by (simp add: theme_exports_def form_complete [OF assms] data_complete [OF assms]
    feedback_complete [OF assms] surface_complete [OF assms]) (simp add: export_complete_def)

lemma export_names: "distinct (map fst (theme_exports geist_mono inter_font grotesk))"
  by (simp add: theme_exports_def form_exports_def data_exports_def feedback_exports_def surface_exports_def)

text \<open>C40: The loop over the exports of the theme components puts into the theme exactly those that are
  named after a component of Material UI and are functions, each with what it makes of the theme;
  and in every table of overrides each default prop and each style value, those of all variants
  included, is there: no colour, text variant, shadow or size that a generator reads is missing
  from the options given to \<open>createTheme\<close>.\<close>

theorem theme_components_complete:
  assumes "made_from_options th"
  shows "(\<forall>(name, g) \<in> set (theme_exports geist_mono inter_font grotesk :: 'a export list).
            theme_components th (theme_exports geist_mono inter_font grotesk) name
              = (if prefix ''Mui'' name then map_option (\<lambda>f. f th) g else None))
     \<and> (\<forall>name c. theme_components th (theme_exports geist_mono inter_font grotesk :: 'a export list) name = Some c
            \<longrightarrow> complete_generated c)"
proof (intro conjI allI impI ballI)
  let ?es = "theme_exports geist_mono inter_font grotesk :: 'a export list"
  have eq: "theme_components th ?es name =
      (if prefix ''Mui'' name
       then (case map_of ?es name of Some (Some f) \<Rightarrow> Some (f th) | _ \<Rightarrow> None) else None)" for name
    by (simp add: theme_components_def installed [OF export_names])
  show "case e of (name, g) \<Rightarrow> theme_components th ?es name
          = (if prefix ''Mui'' name then map_option (\<lambda>f. f th) g else None)" if "e \<in> set ?es" for e
  proof -
    obtain name g where e: "e = (name, g)" by (cases e)
    then have "map_of ?es name = Some g" using that map_of_is_SomeI [OF export_names] by simp
    then show ?thesis using eq [of name] e by (simp split: option.splits)
  qed
  fix name c
  assume "theme_components th ?es name = Some c"
  then obtain f where "(name, Some f) \<in> set ?es" "c = f th"
    using eq by (auto split: if_splits option.splits dest: map_of_SomeD)
  moreover from this have "export_complete th (name, Some f)"
    using exports_complete [OF assms, of geist_mono inter_font grotesk] unfolding list_all_iff by blast
  ultimately show "complete_generated c" by (simp add: export_complete_def)
qed

theorem theme_components_complete_witness:
  "\<exists>th. made_from_options th
     \<and> complete_generated (the (theme_components th (theme_exports [] [] [] :: unit export list) ''MuiChip''))"
proof -
  define th where "th = \<lparr>th_values = JObj theme_options, th_spacing = \<lambda>n. JStr (spacing_of n),
     th_class = \<lambda>c k. ''Mui'' @ c @ ''-'' @ k\<rparr>"
  have "keeps (JObj theme_options) (JObj theme_options)" by code_simp
  moreover have "list_all (\<lambda>k. complete_value (path (JObj theme_options) [''typography'', k]))
     [''subtitle1'', ''subtitle2'', ''body2'']" by code_simp
  ultimately have "made_from_options th"
    by (simp add: made_from_options_def th_def theme_at_def del: keeps.simps)
  note all = theme_components_complete [OF this, of "[]" "[]" "[]"]
  have "(''MuiChip'', Some (\<lambda>th. Table (mui_chip th))) \<in> set (theme_exports [] [] [] :: unit export list)"
    by (simp add: theme_exports_def data_exports_def)
  then have "theme_components th (theme_exports [] [] [] :: unit export list) ''MuiChip'' = Some (Table (mui_chip th))"
    using all by fastforce
  moreover from this all have "complete_generated (Table (mui_chip th) :: unit generated)" by blast
  ultimately show ?thesis using \<open>made_from_options th\<close> by (intro exI [of _ th]) simp
qed

end
