(* ===== verification/Cluster_Stream.thy ===== *)
theory Cluster_Stream
  imports Cluster_Facts
begin

text \<open>
  The cluster provider and the text of its stream: what makes it throw while rendering, how infos that
  print alike compare, and what a status message does that arrives in chunks.
\<close>

section \<open>Throwing while rendering\<close>

lemma message_crashed: "cl_crashed s \<Longrightarrow> cl_crashed (fst (cluster_on_message m s))"
  by (cases m s rule: cluster_on_message_cases) (auto simp: Let_def cluster_simps split: sum.split)

interpretation cluster_broken: http_owner "cluster_stream base" cluster_http cl_crashed for base
  by unfold_locales (auto simp: cluster_simps message_crashed cluster_reset_def)

lemma cluster_step_crashed:
  assumes "cl_crashed (sys_cluster s)"
  shows "cl_crashed (sys_cluster (cluster_step base s ev))"
proof (cases ev)
  case (Stream_event e)
  have "cl_crashed (stream_data base s e)"
    unfolding stream_data_def using assms by (intro cluster_broken.step_inv) simp
  then show ?thesis
    using Stream_event stream_step [of e base s] assms
    by (cases "from_network e") (simp_all add: cluster_simps)
next
  case (Init_response k r)
  then show ?thesis using assms
    by (simp add: cluster_simps on_init_response_def init_done_def split: sum.split)
qed (use assms in \<open>simp_all add: cluster_simps split: sum.split\<close>)

lemma message_silent: "cl_crashed (cluster_reset s) = cl_crashed s"
  by (simp add: cluster_reset_def cluster_simps)

interpretation cluster_up: http_quiet cluster_http "\<lambda>s. \<not> cl_crashed s"
  by unfold_locales (auto simp: cluster_simps message_silent)

lemma cluster_step_up:
  assumes "\<not> cl_crashed (sys_cluster s)" "\<forall>k t. ev \<noteq> Stream_event (Http_chunk k t)"
  shows "\<not> cl_crashed (sys_cluster (cluster_step base s ev))"
proof (cases ev)
  case (Stream_event e)
  have "\<not> cl_crashed (stream_data base s e)"
    unfolding stream_data_def using assms Stream_event by (intro cluster_up.quiet_step) simp_all
  then show ?thesis
    using Stream_event stream_step [of e base s] assms
    by (cases "from_network e") (simp_all add: cluster_simps)
next
  case (Init_response k r)
  then show ?thesis using assms
    by (simp add: cluster_simps on_init_response_def init_done_def split: sum.split)
qed (use assms in \<open>simp_all add: cluster_simps split: sum.split\<close>)

section \<open>Comparing printed cluster infos\<close>

text \<open>
  The printed info shows its texts: an info that is kept because it prints like the new one has the
  same status and model when those are texts.
\<close>

lemma quote_cancel:
  assumes "quote a @ s = quote b @ t" shows "a = b \<and> s = t"
proof -
  have "concat (map escape_char a) @ CHR 0x22 # s = concat (map escape_char b) @ CHR 0x22 # t"
    using assms by (simp only: quote_def append.simps append.assoc list.inject simp_thms)
  from arg_cong [OF this, of parse_chars] show ?thesis by (simp only: parse_quote option.inject prod.inject)
qed

lemma join_members_head:
  "join '','' (stringify_members kvs) = [] \<or>
   (\<exists>k \<in> fst ` set kvs. \<exists>r. join '','' (stringify_members kvs) = quote k @ '':'' @ r)"
proof (induction kvs)
  case (Cons kv kvs)
  obtain k v where kv: "kv = (k, v)" by (cases kv)
  show ?case
  proof (cases "is_undef v")
    case False
    then show ?thesis using kv by (auto simp: join_Cons)
  qed (use Cons kv in auto)
qed simp

lemma stringify_quote: "stringify v = CHR 0x22 # r \<Longrightarrow> \<exists>s. v = JStr s"
proof (cases v)
  case (JNum n)
  obtain c r' where "print_number n = c # r'" "c = CHR ''-'' \<or> is_digit c" using print_number_head by blast
  moreover assume "stringify v = CHR 0x22 # r"
  ultimately show ?thesis using JNum by (simp del: print_number.simps)
qed (auto split: if_splits)

lemma member_text:
  assumes "join '','' (stringify_members ((k, JStr x) # kvs)) = join '','' (stringify_members ((k, v) # kvs'))"
    and "k \<notin> fst ` set kvs'"
  shows "v = JStr x" "stringify_members kvs \<noteq> [] \<Longrightarrow>
    join '','' (stringify_members kvs) = join '','' (stringify_members kvs')"
proof -
  let ?tail = "\<lambda>kvs. if stringify_members kvs = [] then [] else '','' @ join '','' (stringify_members kvs)"
  have shown: "join '','' (stringify_members ((k, u) # kvs)) = quote k @ '':'' @ stringify u @ ?tail kvs"
    if "\<not> is_undef u" for u kvs
    using that by (simp add: join_Cons)
  have left: "join '','' (stringify_members ((k, JStr x) # kvs)) = quote k @ '':'' @ quote x @ ?tail kvs"
    using shown [of "JStr x" kvs] by (simp only: stringify.simps is_undef.simps simp_thms)
  have v: "\<not> is_undef v"
  proof
    assume "is_undef v"
    then have "quote k @ '':'' @ quote x @ ?tail kvs = join '','' (stringify_members kvs')"
      using assms(1) left by simp
    moreover have "quote k @ '':'' @ quote x @ ?tail kvs \<noteq> []" by (simp add: quote_def)
    ultimately obtain k' r where "k' \<in> fst ` set kvs'" "quote k @ '':'' @ quote x @ ?tail kvs = quote k' @ '':'' @ r"
      using join_members_head [of kvs'] by metis
    then show False using quote_cancel assms(2) by blast
  qed
  from shown [OF this] have eq: "quote x @ ?tail kvs = stringify v @ ?tail kvs'"
    using assms(1) left by (simp only: same_append_eq)
  moreover obtain c r where "stringify v = c # r" using stringify_head by blast
  ultimately have "stringify v = CHR 0x22 # r" by (simp add: quote_def)
  then obtain s where s: "v = JStr s" using stringify_quote by blast
  have "x = s \<and> ?tail kvs = ?tail kvs'"
    by (rule quote_cancel) (use eq s in \<open>simp only: stringify.simps\<close>)
  then show "v = JStr x" "stringify_members kvs \<noteq> [] \<Longrightarrow>
    join '','' (stringify_members kvs) = join '','' (stringify_members kvs')"
    using s by (auto split: if_splits)
qed

lemma same_print_texts:
  assumes "stringify (json_of_cluster n) = stringify (json_of_cluster p)" "ci_id n = ci_id p"
    and "ci_status n = JStr x" "ci_model_name n = JStr y"
  shows "ci_status p = JStr x \<and> ci_model_name p = JStr y"
proof -
  let ?rest = "\<lambda>c. [(''modelInfo'', json_of_model (ci_model_info c)),
     (''nodeJoinCommand'', ci_node_join_command c), (''initNodesNumber'', ci_init_nodes_number c),
     (''needMoreNodes'', ci_need_more_nodes c)]"
  let ?info = "\<lambda>c. (''status'', ci_status c) # (''modelName'', ci_model_name c) # ?rest c"
  have "stringify (json_of_cluster c) = ''{'' @ join '','' (stringify_members ((''id'', JStr (ci_id c)) # ?info c)) @ ''}''" for c
    by (simp add: json_of_cluster_def)
  then have "join '','' (stringify_members ((''id'', JStr (ci_id n)) # ?info n))
      = join '','' (stringify_members ((''id'', JStr (ci_id p)) # ?info p))"
    using assms(1) by (simp del: stringify_members.simps)
  then have "join '','' (stringify_members (?info n)) = join '','' (stringify_members (?info p))"
    by (rule member_text(2)) (simp_all add: assms)
  then have "join '','' (stringify_members ((''status'', JStr x) # (''modelName'', JStr y) # ?rest n))
      = join '','' (stringify_members ((''status'', ci_status p) # (''modelName'', ci_model_name p) # ?rest p))"
    by (simp only: assms)
  note status = member_text [OF this]
  then have "join '','' (stringify_members ((''modelName'', JStr y) # ?rest n))
      = join '','' (stringify_members ((''modelName'', ci_model_name p) # ?rest p))"
    by simp
  note model = member_text [OF this]
  show ?thesis using status(1) model(1) by simp
qed

text \<open>A status message sets the status and the model, also when its info is the one already held.\<close>

lemma update_info_texts:
  assumes "get_prop d ''status'' = Inr (JStr x)" "x \<noteq> []" "get_prop d ''model_name'' = Inr (JStr y)" "y \<noteq> []"
  shows "ci_status (update_cluster_info ms d prev) = JStr x \<and> ci_model_name (update_cluster_info ms d prev) = JStr y"
proof -
  let ?next = "next_cluster_info ms d prev"
  have next': "ci_status ?next = JStr x" "ci_model_name ?next = JStr y" "ci_id ?next = ci_id prev"
    using assms by (simp_all add: next_cluster_info_def Let_def js_or_truthy js_and_def)
  show ?thesis
  proof (cases "stringify (json_of_cluster ?next) = stringify (json_of_cluster prev)")
    case True
    then show ?thesis using same_print_texts [OF True next'(3,1,2)] by (simp add: update_cluster_info_def)
  qed (simp add: update_cluster_info_def next')
qed

lemma update_info_new:
  assumes "get_prop d ''status'' = Inr (JStr x)" "x \<noteq> []" "get_prop d ''model_name'' = Inr (JStr y)" "y \<noteq> []"
    and "ci_status prev \<noteq> JStr x"
  shows "update_cluster_info ms d prev = next_cluster_info ms d prev"
  using update_info_texts [OF assms(1-4), of ms prev] assms(5)
  by (auto simp: update_cluster_info_def Let_def split: if_splits)

section \<open>A status message on the stream\<close>

abbreviation chunk_events :: "nat \<Rightarrow> string list \<Rightarrow> cluster_event list" where
  "chunk_events c cs \<equiv> map (\<lambda>t. Stream_event (Http_chunk c t)) cs"

lemma cluster_chunk:
  assumes "solo c b (sys_http s)" "http_feed b t = (ls, b')"
  shows "solo c b' (sys_http (cluster_step base s (Stream_event (Http_chunk c t))))"
    and "sys_cluster (cluster_step base s (Stream_event (Http_chunk c t))) =
      cluster_effect (fold (handle_line (cluster_stream base) cluster_http) ls (sys_cluster s))"
  using solo_chunk [OF assms, of "cluster_stream base" cluster_http "sys_cluster s"]
  by (auto simp: cluster_simps split: prod.split)

lemma cluster_chunks:
  assumes "cluster_reachable base host s" "solo c b (sys_http s)"
    and "feed_all http_feed b cs = (ls, b')" "length ls \<le> 1"
  shows "sys_cluster (cluster_run base s (chunk_events c cs)) =
    fold (\<lambda>l t. cluster_effect (handle_line (cluster_stream base) cluster_http l t)) ls (sys_cluster s)"
  using assms
proof (induction cs arbitrary: b s ls)
  case Nil
  then show ?case by (simp add: cluster_run_def)
next
  case (Cons t cs)
  obtain l1 b1 where f1: "http_feed b t = (l1, b1)" by fastforce
  obtain l2 where f2: "feed_all http_feed b1 cs = (l2, b')" and ls: "ls = l1 @ l2"
    using Cons.prems(3) f1 by (auto split: prod.splits)
  note first = cluster_chunk [OF Cons.prems(2) f1, of base]
  have clean: "\<not> cl_dirty (sys_cluster s)" using reachable_settled [OF Cons.prems(1)] by (simp add: settled_def)
  have "length l2 \<le> 1" using Cons.prems(4) ls by simp
  note rest = Cons.IH [OF cluster_next [OF Cons.prems(1)] first(1) f2 this]
  show ?case
  proof (cases l1)
    case Nil
    then show ?thesis using rest first(2) ls clean by (simp add: cluster_run_def cluster_effect_def)
  next
    case (Cons l l1')
    then have "l1' = [] \<and> l2 = []" using \<open>length ls \<le> 1\<close> ls by simp
    then show ?thesis using rest first(2) ls Cons by (simp add: cluster_run_def)
  qed
qed

lemma cluster_status_line:
  assumes "cluster_reachable base host s" "solo c [] (sys_http s)" "concat cs = stringify m @ [newline]" "json_wf m"
    and "get_prop m ''type'' = Inr (JStr ''cluster_status'')" "get_prop m ''data'' = Inr d"
    and "get_prop d ''node_list'' = Inr (JArr xs)" "map_sum_list node_of_js xs = Inr reported"
  shows "sys_cluster (cluster_run base s (chunk_events c cs)) = cluster_effect (apply_status d (JArr xs) (sys_cluster s))"
    and "cl_crashed (sys_cluster (cluster_run base s (chunk_events c cs))) = cl_crashed (sys_cluster s)"
proof -
  have "feed_all http_feed [] cs = ([stringify m], [])"
    using http_lines.feed_all_concat [of "[]" cs] http_lines.feed_line [of "[]" "stringify m"]
      stringify_no_newline(1) assms(3) by simp
  moreover have "handle_line (cluster_stream base) cluster_http (stringify m) t = apply_status d (JArr xs) t" for t
    using assms(5-7) json_parse_stringify [OF assms(4)]
    by (simp add: handle_line_def cluster_stream_def deliver_def cluster_http_def cluster_on_message_def
        apply_status_def Let_def split: sum.split)
  ultimately show eq: "sys_cluster (cluster_run base s (chunk_events c cs)) =
      cluster_effect (apply_status d (JArr xs) (sys_cluster s))"
    using cluster_chunks [OF assms(1,2)] by fastforce
  show "cl_crashed (sys_cluster (cluster_run base s (chunk_events c cs))) = cl_crashed (sys_cluster s)"
    unfolding eq using assms(8) by (simp add: cluster_simps apply_status_sel update_nodes_def Let_def)
qed

end
