(* ===== verification/Application.thy ===== *)
theory Application
  imports Cluster_Stream Chat_History Router Node_List
begin

text \<open>
  The running application of \<open>App.tsx\<close>: the cluster provider with its stream, below it the chat
  provider and the router, which read the status and the model of the cluster from its context.  An
  event goes to one of the three; when it changes what the cluster provider holds, React renders the
  others with the new values.  What throws while rendering takes the whole tree down, and its state is
  gone: an updater of a provider, or a node list that cannot be drawn.  Which pages draw one, and when, is
  left open: \<open>Nodes_drawn\<close> is an event.
\<close>

section \<open>State and steps\<close>

record app_state =
  ap_cluster :: cluster_sys
  ap_chat :: chat_sys
  ap_router :: router_state
  ap_fallen :: bool

datatype app_event =
    On_cluster cluster_event
  | On_chat chat_event
  | On_router router_event
  | Nodes_drawn

fun app_router :: "host_type \<Rightarrow> router" where
  "app_router Cluster_host = main_router"
| "app_router Node_host = chat_router"

abbreviation app_info :: "app_state \<Rightarrow> cluster_info" where
  "app_info a \<equiv> cl_info (sys_cluster (ap_cluster a))"

definition app_down :: "app_state \<Rightarrow> bool" where
  "app_down a =
     (ap_fallen a \<or> cl_crashed (sys_cluster (ap_cluster a)) \<or> chat_crashed (shown (ap_chat a)))"

definition mount_app :: "string \<Rightarrow> host_type \<Rightarrow> string \<Rightarrow> app_state" where
  "mount_app base host path =
     \<lparr>ap_cluster = mount_cluster base host, ap_chat = init_chat_sys,
      ap_router = mount_router (app_router host) path (ci_status initial_cluster_info),
      ap_fallen = False\<rparr>"

text \<open>Events of the network, which come at any time, and what only renders do.\<close>

fun from_outside :: "app_event \<Rightarrow> bool" where
  "from_outside (On_cluster (Stream_event e)) = True"
| "from_outside (On_cluster (Models_response r)) = True"
| "from_outside (On_cluster Models_wake) = True"
| "from_outside (On_cluster (Init_response k r)) = True"
| "from_outside (On_chat (Net e)) = True"
| "from_outside ev = False"

fun from_context :: "app_event \<Rightarrow> bool" where
  "from_context (On_chat (Cluster status model)) = True"
| "from_context (On_router (Status status)) = True"
| "from_context ev = False"

definition app_allowed :: "app_state \<Rightarrow> app_event \<Rightarrow> bool" where
  "app_allowed a ev = (\<not> from_context ev \<and> \<not> app_down a)"

text \<open>The render that follows a change of the cluster's context.\<close>

definition see_cluster :: "jsval \<times> jsval \<Rightarrow> chat_sys \<Rightarrow> chat_sys" where
  "see_cluster = (\<lambda>(status, model) s. chat_step (chat_step s (Cluster status model)) Render)"

definition share :: "host_type \<Rightarrow> cluster_state \<Rightarrow> app_state \<Rightarrow> app_state" where
  "share host before a =
     (if sys_cluster (ap_cluster a) = before \<or> app_down a then a
      else a\<lparr>ap_chat := see_cluster (ci_status (app_info a), ci_model_name (app_info a)) (ap_chat a),
             ap_router := router_step (app_router host) (ap_router a) (Status (ci_status (app_info a)))\<rparr>)"

definition app_step :: "string \<Rightarrow> host_type \<Rightarrow> app_state \<Rightarrow> app_event \<Rightarrow> app_state" where
  "app_step base host a ev =
     (if \<not> app_allowed a ev then a
      else
        (case ev of
           On_cluster e \<Rightarrow>
             share host (sys_cluster (ap_cluster a)) (a\<lparr>ap_cluster := cluster_step base (ap_cluster a) e\<rparr>)
         | On_chat e \<Rightarrow> a\<lparr>ap_chat := chat_step (ap_chat a) e\<rparr>
         | On_router e \<Rightarrow> a\<lparr>ap_router := router_step (app_router host) (ap_router a) e\<rparr>
         | Nodes_drawn \<Rightarrow> if nodes_drawable (sys_cluster (ap_cluster a)) then a else a\<lparr>ap_fallen := True\<rparr>))"

definition app_run :: "string \<Rightarrow> host_type \<Rightarrow> app_state \<Rightarrow> app_event list \<Rightarrow> app_state" where
  "app_run base host = foldl (app_step base host)"

inductive app_reachable :: "string \<Rightarrow> host_type \<Rightarrow> string \<Rightarrow> app_state \<Rightarrow> bool" for base host path where
  app_mounted: "app_reachable base host path (mount_app base host path)"
| app_next: "app_reachable base host path a \<Longrightarrow> app_reachable base host path (app_step base host a ev)"

section \<open>Observers of the context\<close>

text \<open>
  A component that reads values from a context: a render puts them in, and its own events leave
  them as they are.
\<close>

locale observer =
  fixes put :: "'v \<Rightarrow> 'o \<Rightarrow> 'o" and seen :: "'o \<Rightarrow> 'v"
    and own :: "'e \<Rightarrow> bool" and step :: "'o \<Rightarrow> 'e \<Rightarrow> 'o"
  assumes seen_put: "seen (put v x) = v"
    and seen_step: "own ev \<Longrightarrow> seen (step x ev) = seen x"
begin

lemma seen_run: "list_all own evs \<Longrightarrow> seen (foldl step x evs) = seen x"
  by (induction evs arbitrary: x) (simp_all add: seen_step)

lemma seen_latest: "list_all own evs \<Longrightarrow> seen (foldl step (put v x) evs) = v"
  by (simp add: seen_run seen_put)

end

definition chat_sees :: "chat_sys \<Rightarrow> jsval \<times> jsval" where
  "chat_sees s = (cluster_status s, cluster_model s)"

fun own_chat_event :: "chat_event \<Rightarrow> bool" where
  "own_chat_event (Cluster status model) = False"
| "own_chat_event ev = True"

fun own_router_event :: "router_event \<Rightarrow> bool" where
  "own_router_event (Status status) = False"
| "own_router_event ev = True"

lemma start_generation_sees: "chat_sees (start_generation ms s) = chat_sees s"
  by (simp add: chat_sees_def start_generation_def chat_simps)

lemma generate_sees: "chat_sees (generate now m s) = chat_sees s"
  by (rule generate_cases [where P = "\<lambda>t. chat_sees t = chat_sees s"])
    (auto simp: start_generation_sees, simp add: chat_sees_def)

lemma ui_sees: "chat_sees (h s) = chat_sees s \<Longrightarrow> chat_sees (ui_event h s) = chat_sees s"
  by (simp add: ui_event_def render_def settle_def chat_sees_def chat_simps)

lemma chat_step_sees: "own_chat_event ev \<Longrightarrow> chat_sees (chat_step s ev) = chat_sees s"
proof (cases ev)
  case (Generate now m)
  then show ?thesis by (simp add: ui_sees generate_sees)
next
  case Clear
  then show ?thesis by (simp, intro ui_sees) (simp add: clear_def stop_def chat_sees_def Let_def chat_simps)
next
  case Stop
  then show ?thesis by (simp, intro ui_sees) (simp add: stop_def chat_sees_def chat_simps)
next
  case (Set_input t)
  then show ?thesis by (simp, intro ui_sees) (simp add: chat_sees_def)
qed (simp_all add: chat_sees_def settle_def render_def chat_simps)

interpretation chat_observer: observer see_cluster chat_sees own_chat_event chat_step
  by unfold_locales (auto simp: see_cluster_def render_def chat_step_sees, simp add: chat_sees_def)

lemma router_step_status: "own_router_event ev \<Longrightarrow> rs_status (router_step r s ev) = rs_status s"
  by (cases ev) (simp_all add: navigate_to_def router_effect_def split: option.split)

interpretation router_observer: observer "\<lambda>v s. router_step r s (Status v)" rs_status own_router_event
    "router_step r" for r
  by unfold_locales (auto simp: router_effect_def router_step_status)

section \<open>Being down is final\<close>

lemma net_shown: "shown (chat_step s (Net e)) = shown s"
  by (simp add: settle_def chat_simps)

lemma share_sel [simp]: "ap_cluster (share host before a) = ap_cluster a"
  by (simp add: share_def)

lemma app_step_cluster:
  "ap_cluster (app_step base host a ev) = ap_cluster a
   \<or> (\<exists>e. ap_cluster (app_step base host a ev) = cluster_step base (ap_cluster a) e)"
  by (auto simp: app_step_def split: app_event.split)

lemma down_share: "app_down a \<Longrightarrow> share host before a = a"
  by (simp add: share_def)

lemma down_step: "app_down a \<Longrightarrow> app_step base host a ev = a"
  by (simp add: app_step_def app_allowed_def)

lemma down_stays: "app_down a \<Longrightarrow> app_down (app_step base host a ev)"
  by (simp add: down_step)

lemma down_run: "app_down a \<Longrightarrow> app_run base host a evs = a"
  by (induction evs) (simp_all add: app_run_def down_step)

section \<open>Components of a reachable application\<close>

definition app_agrees :: "app_state \<Rightarrow> bool" where
  "app_agrees a = (chat_sees (ap_chat a) = (ci_status (app_info a), ci_model_name (app_info a))
     \<and> rs_status (ap_router a) = ci_status (app_info a))"

lemma mount_agrees: "app_agrees (mount_app base host path)"
  by (simp add: app_agrees_def mount_app_def mounted_state init_cluster_def initial_cluster_info_def
      chat_sees_def init_chat_sys_def mount_router_def router_effect_def)

lemma share_agrees:
  assumes "\<not> app_down a"
    and "sys_cluster (ap_cluster a) = before \<Longrightarrow> app_agrees a"
  shows "app_agrees (share host before a)"
  using assms chat_observer.seen_put router_observer.seen_put
  by (auto simp: share_def app_agrees_def simp del: router_step.simps)

lemma step_agrees:
  assumes "app_agrees a" "\<not> app_down (app_step base host a ev)"
  shows "app_agrees (app_step base host a ev)"
proof (cases "app_allowed a ev")
  case True
  have up: "\<not> app_down a" using assms(2) down_stays by blast
  show ?thesis
  proof (cases ev)
    case (On_cluster e)
    let ?a = "a\<lparr>ap_cluster := cluster_step base (ap_cluster a) e\<rparr>"
    have st: "app_step base host a ev = share host (sys_cluster (ap_cluster a)) ?a"
      using True On_cluster by (simp add: app_step_def)
    then have "\<not> app_down ?a" using assms(2) down_share by metis
    then show ?thesis unfolding st using assms(1) by (intro share_agrees) (auto simp: app_agrees_def)
  next
    case (On_chat e)
    then have "own_chat_event e" using True by (cases e) (simp_all add: app_allowed_def)
    with On_chat True assms(1) show ?thesis
      by (simp add: app_step_def app_agrees_def chat_observer.seen_step del: chat_step.simps)
  next
    case (On_router e)
    then have "own_router_event e" using True by (cases e) (simp_all add: app_allowed_def)
    with On_router True assms(1) show ?thesis
      by (simp add: app_step_def app_agrees_def router_observer.seen_step del: router_step.simps)
  next
    case Nodes_drawn
    then show ?thesis using assms(1) by (simp add: app_step_def app_agrees_def)
  qed
qed (use assms in \<open>simp add: app_step_def\<close>)

lemma see_cluster_reachable: "chat_reachable s \<Longrightarrow> chat_reachable (see_cluster v s)"
  by (cases v) (simp add: see_cluster_def chat_next del: chat_step.simps)

lemma router_run_step: "router_step r (router_run r p v evs) ev = router_run r p v (evs @ [ev])"
  by (simp add: router_run_def del: router_step.simps)

definition app_refines :: "string \<Rightarrow> host_type \<Rightarrow> string \<Rightarrow> app_state \<Rightarrow> bool" where
  "app_refines base host path a =
     (cluster_reachable base host (ap_cluster a) \<and> chat_reachable (ap_chat a)
      \<and> (\<exists>evs. ap_router a = router_run (app_router host) path (JStr ''offline'') evs))"

lemma refines_share: "app_refines base host path a \<Longrightarrow> app_refines base host path (share host before a)"
  by (auto simp: app_refines_def share_def see_cluster_reachable router_run_step simp del: router_step.simps)

lemma refines_step: "app_refines base host path a \<Longrightarrow> app_refines base host path (app_step base host a ev)"
proof (cases "app_allowed a ev")
  case True
  assume a: "app_refines base host path a"
  show ?thesis
  proof (cases ev)
    case (On_cluster e)
    have "app_refines base host path (a\<lparr>ap_cluster := cluster_step base (ap_cluster a) e\<rparr>)"
      using a by (simp add: app_refines_def cluster_next)
    then show ?thesis using On_cluster True refines_share by (simp add: app_step_def)
  next
    case (On_chat e)
    then show ?thesis using a True by (simp add: app_step_def app_refines_def chat_next del: chat_step.simps)
  next
    case (On_router e)
    then show ?thesis using a True
      by (auto simp: app_step_def app_refines_def router_run_step simp del: router_step.simps)
  next
    case Nodes_drawn
    then show ?thesis using a by (simp add: app_step_def app_refines_def)
  qed
qed (simp add: app_step_def)

lemma reachable_refines: "app_reachable base host path a \<Longrightarrow> app_refines base host path a"
proof (induction rule: app_reachable.induct)
  case app_mounted
  have "ap_router (mount_app base host path) = router_run (app_router host) path (JStr ''offline'') []"
    by (simp add: mount_app_def router_run_def initial_cluster_info_def)
  then show ?case using cluster_mounted chat_start
    by (fastforce simp: app_refines_def mount_app_def)
qed (rule refines_step)

lemma reachable_agrees:
  "app_reachable base host path a \<Longrightarrow> app_down a \<or> app_agrees a"
proof (induction rule: app_reachable.induct)
  case (app_next a ev)
  then show ?case using step_agrees down_stays by blast
qed (simp add: mount_agrees)

lemma app_reachable_run:
  "app_reachable base host path a \<Longrightarrow> app_reachable base host path (app_run base host a evs)"
  by (induction evs arbitrary: a) (simp_all add: app_run_def app_next)

text \<open>C9: Every run of the application is a run of each of its parts, so that what is proved of the
  cluster provider, the chat and the router holds inside it; and while the application is up, the
  chat and the router have the status and the model that the cluster provider holds.\<close>

theorem app_refines_parts:
  assumes "app_reachable base host path a"
  shows "cluster_reachable base host (ap_cluster a) \<and> chat_reachable (ap_chat a)
    \<and> (\<exists>evs. ap_router a = router_run (app_router host) path (JStr ''offline'') evs)
    \<and> (app_down a \<or> (cluster_status (ap_chat a) = ci_status (app_info a)
        \<and> cluster_model (ap_chat a) = ci_model_name (app_info a)
        \<and> rs_status (ap_router a) = ci_status (app_info a)))"
  using reachable_refines [OF assms] reachable_agrees [OF assms]
  by (simp add: app_refines_def app_agrees_def chat_sees_def)

text \<open>A run: the redirection from the start page, the answer that opens the status stream, and what the
  user types.\<close>

definition app_listening :: app_state where
  "app_listening = app_run [] Cluster_host (mount_app [] Cluster_host ''/'')
     [On_router Timer_fires, On_cluster (Stream_event (http_ok 0)), On_chat (Set_input '' hi '')]"

lemma app_listening_reachable: "app_reachable [] Cluster_host ''/'' app_listening"
  unfolding app_listening_def by (intro app_reachable_run app_mounted)

lemma app_listening_facts:
  "\<not> app_down app_listening" "solo 0 [] (sys_http (ap_cluster app_listening))"
  "\<not> chat_busy (shown (ap_chat app_listening))" "chat_messages (shown (ap_chat app_listening)) = []"
  "trim (chat_input (shown (ap_chat app_listening))) = ''hi''" "requests (ap_chat app_listening) = []"
  by code_simp+

theorem app_refines_parts_witness:
  "cluster_reachable [] Cluster_host (ap_cluster app_listening) \<and> chat_reachable (ap_chat app_listening)
   \<and> cluster_status (ap_chat app_listening) = JStr ''offline'' \<and> rs_status (ap_router app_listening) = JStr ''offline''"
proof -
  have "ci_status (app_info app_listening) = JStr ''offline''" by code_simp
  then show ?thesis using app_refines_parts [OF app_listening_reachable] app_listening_facts(1) by simp
qed

end
