(* ===== verification/Screens.thy ===== *)
theory Screens
  imports Application Layout Model_Select
begin

text \<open>
  The application with the page that its router shows.  The setup page and the model selector start the
  scheduler, the layout of the chat page has dialogs about the cluster; a page lives from the navigation
  that mounts it to the one that leaves its path.  A lazily loaded page is there at once.
\<close>

section \<open>Pages\<close>

text \<open>The layout of the chat page with the selector in its header.\<close>

record chat_page =
  cp_drawer :: drawer
  cp_can :: bool
  cp_seen :: "bool \<times> jsval"

text \<open>A setup page has a number of its own, which its pending call keeps, and may be loading.\<close>

datatype shown_page = Setup_shown nat bool | Join_shown | Chat_shown chat_page | Missing_shown

text \<open>What goes on when a call of \<open>init\<close> is answered.\<close>

datatype init_caller = Setup_caller nat | Select_caller

record screen =
  sc_app :: app_state
  sc_page :: shown_page
  sc_calls :: "init_caller list"
  sc_mounts :: nat

abbreviation sc_info :: "screen \<Rightarrow> cluster_info" where
  "sc_info s \<equiv> app_info (sc_app s)"

abbreviation sc_cluster :: "screen \<Rightarrow> cluster_state" where
  "sc_cluster s \<equiv> sys_cluster (ap_cluster (sc_app s))"

abbreviation sc_path :: "screen \<Rightarrow> string" where
  "sc_path s \<equiv> rs_pathname (ap_router (sc_app s))"

definition mount_chat_page :: "host_type \<Rightarrow> cluster_state \<Rightarrow> chat_page" where
  "mount_chat_page host c =
     \<lparr>cp_drawer = mount_drawer host (ci_status (cl_info c)) (ci_need_more_nodes (cl_info c)),
      cp_can = False, cp_seen = (False, cl_model_name c)\<rparr>"

definition mount_page :: "host_type \<Rightarrow> app_state \<Rightarrow> nat \<Rightarrow> shown_page" where
  "mount_page host a n =
     (let path = rs_pathname (ap_router a) in
      if host = Cluster_host \<and> path = PATH_SETUP then Setup_shown n False
      else if host = Cluster_host \<and> path = PATH_JOIN then Join_shown
      else if path = PATH_CHAT then Chat_shown (mount_chat_page host (sys_cluster (ap_cluster a)))
      else Missing_shown)"

definition mount_screen :: "string \<Rightarrow> host_type \<Rightarrow> string \<Rightarrow> screen" where
  "mount_screen base host path =
     \<lparr>sc_app = mount_app base host path, sc_page = mount_page host (mount_app base host path) 0,
      sc_calls = [], sc_mounts = 1\<rparr>"

section \<open>Renders\<close>

text \<open>A call of \<open>init\<close> that fails its checks rejects before anything is sent.\<close>

definition start_init :: "string \<Rightarrow> host_type \<Rightarrow> init_caller \<Rightarrow> screen \<Rightarrow> screen" where
  "start_init base host caller s =
     (case init_cluster_call (sc_cluster s) of
        Inl e \<Rightarrow> s
      | Inr c \<Rightarrow> s\<lparr>sc_app := app_step base host (sc_app s) (On_cluster Init_cluster),
                  sc_calls := sc_calls s @ [caller]\<rparr>)"

text \<open>The effect of the selector, which commits a choice.\<close>

definition commit_choice :: "string \<Rightarrow> host_type \<Rightarrow> chat_page \<Rightarrow> screen \<Rightarrow> screen" where
  "commit_choice base host p s =
     (let model = cl_model_name (sc_cluster s) in
      if (cp_can p, model) = cp_seen p then s\<lparr>sc_page := Chat_shown p\<rparr>
      else if cp_can p \<and> model \<noteq> ci_model_name (sc_info s) then
        start_init base host Select_caller
          (s\<lparr>sc_page := Chat_shown (p\<lparr>cp_can := False, cp_seen := (False, model)\<rparr>)\<rparr>)
      else s\<lparr>sc_page := Chat_shown (p\<lparr>cp_seen := (cp_can p, model)\<rparr>)\<rparr>)"

definition render_page :: "string \<Rightarrow> host_type \<Rightarrow> screen \<Rightarrow> screen" where
  "render_page base host s =
     (case sc_page s of
        Chat_shown p \<Rightarrow>
          commit_choice base host
            (p\<lparr>cp_drawer := cluster_rendered host (ci_status (sc_info s)) (ci_need_more_nodes (sc_info s))
                 (cp_drawer p)\<rparr>) s
      | _ \<Rightarrow> s)"

text \<open>After a step from the state \<open>before\<close>: another path brings another page.\<close>

definition refresh :: "string \<Rightarrow> host_type \<Rightarrow> app_state \<Rightarrow> screen \<Rightarrow> screen" where
  "refresh base host before s =
     (if app_down (sc_app s) then s
      else if sc_path s \<noteq> rs_pathname (ap_router before) then
        s\<lparr>sc_page := mount_page host (sc_app s) (sc_mounts s), sc_mounts := Suc (sc_mounts s)\<rparr>
      else render_page base host s)"

definition in_app :: "string \<Rightarrow> host_type \<Rightarrow> app_event \<Rightarrow> screen \<Rightarrow> screen" where
  "in_app base host ev s =
     refresh base host (sc_app s) (s\<lparr>sc_app := app_step base host (sc_app s) ev\<rparr>)"

section \<open>Handlers of the pages\<close>

definition press_continue :: "string \<Rightarrow> host_type \<Rightarrow> screen \<Rightarrow> screen" where
  "press_continue base host s =
     (case sc_page s of
        Setup_shown n False \<Rightarrow>
          if should_init (sc_cluster s) then
            (case init_cluster_call (sc_cluster s) of
               Inl e \<Rightarrow> s
             | Inr c \<Rightarrow> start_init base host (Setup_caller n) (s\<lparr>sc_page := Setup_shown n True\<rparr>))
          else in_app base host (On_router (Navigate PATH_JOIN)) s
      | _ \<Rightarrow> s)"

definition choose_model_name :: "string \<Rightarrow> host_type \<Rightarrow> string \<Rightarrow> screen \<Rightarrow> screen" where
  "choose_model_name base host name s =
     (case sc_page s of
        Chat_shown p \<Rightarrow>
          if host = Node_host then s
          else in_app base host (On_cluster (Set_model_name (JStr name)))
                 (s\<lparr>sc_page := Chat_shown (p\<lparr>cp_can := True\<rparr>)\<rparr>)
      | _ \<Rightarrow> s)"

definition in_drawer :: "host_type \<Rightarrow> drawer_event \<Rightarrow> screen \<Rightarrow> screen" where
  "in_drawer host ev s =
     (case sc_page s of
        Chat_shown p \<Rightarrow>
          s\<lparr>sc_page := Chat_shown (p\<lparr>cp_drawer :=
              drawer_step host (selected_model_info (sc_cluster s)) (cp_drawer p) ev\<rparr>)\<rparr>
      | _ \<Rightarrow> s)"

text \<open>
  The answer to a call of \<open>init\<close>.  A setup page leaves for the join page if the scheduler accepts, also
  when it is not shown any more, and ends its loading.
\<close>

definition end_loading :: "nat \<Rightarrow> screen \<Rightarrow> screen" where
  "end_loading n s =
     (case sc_page s of
        Setup_shown m b \<Rightarrow> if m = n then s\<lparr>sc_page := Setup_shown m False\<rparr> else s
      | _ \<Rightarrow> s)"

definition without_call :: "nat \<Rightarrow> screen \<Rightarrow> screen" where
  "without_call k s = s\<lparr>sc_calls := take k (sc_calls s) @ drop (Suc k) (sc_calls s)\<rparr>"

definition init_answered :: "string \<Rightarrow> host_type \<Rightarrow> nat \<Rightarrow> response \<Rightarrow> screen \<Rightarrow> screen" where
  "init_answered base host k r s =
     (if k < length (sc_calls s) then
        (let t = in_app base host (On_cluster (Init_response k r)) (without_call k s) in
         case sc_calls s ! k of
           Select_caller \<Rightarrow> t
         | Setup_caller n \<Rightarrow>
             end_loading n
               (case init_scheduler r of
                  Inr d \<Rightarrow> in_app base host (On_router (Navigate PATH_JOIN)) t
                | Inl e \<Rightarrow> t))
      else s)"

datatype screen_event =
    In_app app_event
  | Press_continue
  | Choose_name string
  | In_drawer drawer_event
  | Init_answered nat response

text \<open>
  Which events a screen can meet: \<open>init\<close> is called by the pages, what a page offers needs the page, the
  join page and the layout of the chat page draw the nodes, and the selector reports an offered model that is not the shown one.
\<close>

fun shows_setup :: "shown_page \<Rightarrow> bool" where
  "shows_setup (Setup_shown n b) = True"
| "shows_setup p = False"

fun shows_chat :: "shown_page \<Rightarrow> bool" where
  "shows_chat (Chat_shown p) = True"
| "shows_chat p = False"

fun shows_nodes :: "shown_page \<Rightarrow> bool" where
  "shows_nodes Join_shown = True"
| "shows_nodes (Chat_shown p) = True"
| "shows_nodes p = False"

fun own_drawer_event :: "drawer_event \<Rightarrow> bool" where
  "own_drawer_event (Cluster_rendered status need) = False"
| "own_drawer_event ev = True"

fun needs_page :: "app_event \<Rightarrow> shown_page \<Rightarrow> bool" where
  "needs_page (On_cluster Init_cluster) p = False"
| "needs_page (On_cluster (Init_response k r)) p = False"
| "needs_page (On_cluster e) p = (from_outside (On_cluster e) \<or> shows_setup p)"
| "needs_page (On_chat Render) p = True"
| "needs_page (On_chat e) p = (from_outside (On_chat e) \<or> shows_chat p)"
| "needs_page (On_router e) p = True"
| "needs_page Nodes_drawn p = shows_nodes p"

fun screen_allowed :: "screen \<Rightarrow> screen_event \<Rightarrow> bool" where
  "screen_allowed s (In_app ev) = needs_page ev (sc_page s)"
| "screen_allowed s (Init_answered k r) = (\<not> app_down (sc_app s))"
| "screen_allowed s (In_drawer ev) =
     (\<not> app_down (sc_app s) \<and> own_drawer_event ev)"
| "screen_allowed s (Choose_name name) =
     (\<not> app_down (sc_app s) \<and> JStr name \<noteq> cl_model_name (sc_cluster s)
      \<and> name \<in> mi_name ` set (cl_models (sc_cluster s)))"
| "screen_allowed s Press_continue = (\<not> app_down (sc_app s))"

fun handle_screen :: "string \<Rightarrow> host_type \<Rightarrow> screen \<Rightarrow> screen_event \<Rightarrow> screen" where
  "handle_screen base host s (In_app ev) = in_app base host ev s"
| "handle_screen base host s Press_continue = press_continue base host s"
| "handle_screen base host s (Choose_name name) = choose_model_name base host name s"
| "handle_screen base host s (In_drawer ev) = in_drawer host ev s"
| "handle_screen base host s (Init_answered k r) = init_answered base host k r s"

definition screen_step :: "string \<Rightarrow> host_type \<Rightarrow> screen \<Rightarrow> screen_event \<Rightarrow> screen" where
  "screen_step base host s ev = (if screen_allowed s ev then handle_screen base host s ev else s)"

definition screen_run :: "string \<Rightarrow> host_type \<Rightarrow> screen \<Rightarrow> screen_event list \<Rightarrow> screen" where
  "screen_run base host = foldl (screen_step base host)"

inductive screen_reachable :: "string \<Rightarrow> host_type \<Rightarrow> string \<Rightarrow> screen \<Rightarrow> bool" for base host path where
  screen_mounted: "screen_reachable base host path (mount_screen base host path)"
| screen_next: "screen_reachable base host path s \<Longrightarrow> screen_reachable base host path (screen_step base host s ev)"

section \<open>The drawer as an observer\<close>

definition drawer_sees :: "drawer \<Rightarrow> jsval \<times> jsval" where
  "drawer_sees d = (dr_status d, dr_need d)"

lemma rendered_sees: "drawer_sees (cluster_rendered host status need d) = (status, need)"
  by (auto simp: drawer_sees_def cluster_rendered_def status_effects_defs need_effect_def Let_def)

lemma drawer_step_sees: "own_drawer_event ev \<Longrightarrow> drawer_sees (drawer_step host m d ev) = drawer_sees d"
  by (cases ev) (auto simp: drawer_sees_def on_dialog_def)

interpretation drawer_observer: observer "\<lambda>(status, need). cluster_rendered host status need" drawer_sees
    "\<lambda>(m, ev). own_drawer_event ev" "\<lambda>d (m, ev). drawer_step host m d ev" for host
  by unfold_locales (auto simp: rendered_sees drawer_step_sees)

lemma mount_drawer_sees: "drawer_sees (mount_drawer host status need) = (status, need)"
  by (auto simp: drawer_sees_def mount_drawer_def need_effect_def status_effects_defs Let_def)

section \<open>Starting the scheduler\<close>

lemma app_init:
  assumes "\<not> app_down a" "init_cluster_call (sys_cluster (ap_cluster a)) = Inr c"
  shows "app_step base host a (On_cluster Init_cluster) =
    a\<lparr>ap_cluster := (ap_cluster a)\<lparr>sys_inits := sys_inits (ap_cluster a) @ [c]\<rparr>\<rparr>"
  using assms by (simp add: app_step_def app_allowed_def share_def)

text \<open>All that the start of the scheduler changes is the calls that wait for an answer.\<close>

definition only_starts :: "string \<Rightarrow> host_type \<Rightarrow> screen \<Rightarrow> screen \<Rightarrow> bool" where
  "only_starts base host s t =
     (sc_cluster t = sc_cluster s \<and> ap_chat (sc_app t) = ap_chat (sc_app s) \<and> ap_router (sc_app t) = ap_router (sc_app s)
      \<and> ap_fallen (sc_app t) = ap_fallen (sc_app s) \<and> sc_mounts t = sc_mounts s
      \<and> length (sc_calls t) + length (sys_inits (ap_cluster (sc_app s)))
          = length (sc_calls s) + length (sys_inits (ap_cluster (sc_app t)))
      \<and> (sc_app t = sc_app s \<or> sc_app t = app_step base host (sc_app s) (On_cluster Init_cluster)))"

lemma only_starts_down: "only_starts base host s t \<Longrightarrow> app_down (sc_app t) = app_down (sc_app s)"
  by (simp add: only_starts_def app_down_def)

lemma only_starts_reachable:
  "only_starts base host s t \<Longrightarrow> app_reachable base host path (sc_app s) \<Longrightarrow> app_reachable base host path (sc_app t)"
  by (auto simp: only_starts_def app_next)

lemma start_init_only:
  assumes "\<not> app_down (sc_app s)"
  shows "only_starts base host s (start_init base host caller s)"
    and "sc_page (start_init base host caller s) = sc_page s"
    and "sc_calls (start_init base host caller s) = sc_calls s
      \<or> sc_calls (start_init base host caller s) = sc_calls s @ [caller]"
  using app_init [OF assms, of _ base host] by (auto simp: start_init_def only_starts_def split: sum.split)

lemma commit_choice_only:
  assumes "\<not> app_down (sc_app s)"
  shows "only_starts base host s (commit_choice base host p s)"
    and "sc_calls (commit_choice base host p s) = sc_calls s
      \<or> sc_calls (commit_choice base host p s) = sc_calls s @ [Select_caller]"
    and "\<exists>can. sc_page (commit_choice base host p s) =
      Chat_shown (p\<lparr>cp_can := can, cp_seen := (can, cl_model_name (sc_cluster s))\<rparr>)"
proof -
  let ?m = "cl_model_name (sc_cluster s)"
  let ?t = "s\<lparr>sc_page := Chat_shown (p\<lparr>cp_can := False, cp_seen := (False, ?m)\<rparr>)\<rparr>"
  have set: "only_starts base host s (s\<lparr>sc_page := q\<rparr>)" for q by (simp add: only_starts_def)
  have start: "only_starts base host s (start_init base host Select_caller ?t)"
    "sc_page (start_init base host Select_caller ?t) = sc_page ?t"
    "sc_calls (start_init base host Select_caller ?t) = sc_calls s
      \<or> sc_calls (start_init base host Select_caller ?t) = sc_calls s @ [Select_caller]"
    using start_init_only [of ?t base host Select_caller] assms by (simp_all add: only_starts_def)
  show "only_starts base host s (commit_choice base host p s)"
    using set start(1) by (simp add: commit_choice_def Let_def)
  show "sc_calls (commit_choice base host p s) = sc_calls s
      \<or> sc_calls (commit_choice base host p s) = sc_calls s @ [Select_caller]"
    using start(3) by (simp add: commit_choice_def Let_def)
  have "p\<lparr>cp_can := cp_can p, cp_seen := (cp_can p, ?m)\<rparr> = p" if "(cp_can p, ?m) = cp_seen p" using that by simp
  then show "\<exists>can. sc_page (commit_choice base host p s) = Chat_shown (p\<lparr>cp_can := can, cp_seen := (can, ?m)\<rparr>)"
    using start(2) by (cases "cp_can p \<and> ?m \<noteq> ci_model_name (sc_info s)")
      (auto simp: commit_choice_def Let_def intro: exI [of _ False] exI [of _ "cp_can p"])
qed

section \<open>The page fits the application\<close>

definition page_placed :: "host_type \<Rightarrow> string \<Rightarrow> shown_page \<Rightarrow> bool" where
  "page_placed host path p =
     (case p of
        Setup_shown n b \<Rightarrow> host = Cluster_host \<and> path = PATH_SETUP
      | Join_shown \<Rightarrow> host = Cluster_host \<and> path = PATH_JOIN
      | Chat_shown q \<Rightarrow> path = PATH_CHAT \<and> drawer_ok (cp_drawer q)
      | Missing_shown \<Rightarrow> path \<noteq> PATH_CHAT \<and> (host = Cluster_host \<longrightarrow> path \<noteq> PATH_SETUP \<and> path \<noteq> PATH_JOIN))"

text \<open>The chat page has seen the present state of the cluster.\<close>

definition page_current :: "cluster_state \<Rightarrow> shown_page \<Rightarrow> bool" where
  "page_current c p =
     (case p of
        Chat_shown q \<Rightarrow> drawer_sees (cp_drawer q) = (ci_status (cl_info c), ci_need_more_nodes (cl_info c))
          \<and> cp_seen q = (cp_can q, cl_model_name c)
      | _ \<Rightarrow> True)"

definition page_fits :: "host_type \<Rightarrow> screen \<Rightarrow> bool" where
  "page_fits host s = (page_placed host (sc_path s) (sc_page s) \<and> page_current (sc_cluster s) (sc_page s))"

lemmas page_fits_defs = page_fits_def page_placed_def page_current_def

lemma rendered_ok: "drawer_ok d \<Longrightarrow> drawer_ok (cluster_rendered host status need d)"
  using drawer_step_facts [of d host None "Cluster_rendered status need"] by simp

lemma mount_fits:
  "page_placed host (rs_pathname (ap_router a)) (mount_page host a n)"
  "page_current (sys_cluster (ap_cluster a)) (mount_page host a n)"
  by (simp_all add: page_placed_def page_current_def mount_page_def mount_chat_page_def mount_drawer_sees
      drawer_mount_ok Let_def PATH_SETUP_def PATH_JOIN_def PATH_CHAT_def)

lemma render_fits:
  assumes "\<not> app_down (sc_app s)" "page_placed host (sc_path s) (sc_page s)"
  shows "page_fits host (render_page base host s)"
proof (cases "sc_page s")
  case (Chat_shown p)
  let ?q = "p\<lparr>cp_drawer := cluster_rendered host (ci_status (sc_info s)) (ci_need_more_nodes (sc_info s)) (cp_drawer p)\<rparr>"
  note only = commit_choice_only [OF assms(1), of base host ?q]
  obtain can where "sc_page (commit_choice base host ?q s) =
      Chat_shown (?q\<lparr>cp_can := can, cp_seen := (can, cl_model_name (sc_cluster s))\<rparr>)" using only(3) by blast
  then show ?thesis
    using only(1) assms(2) Chat_shown
    by (simp add: render_page_def page_fits_defs only_starts_def rendered_sees rendered_ok)
qed (use assms(2) in \<open>simp_all add: render_page_def page_fits_defs\<close>)

lemma render_only:
  assumes "\<not> app_down (sc_app s)"
  shows "only_starts base host s (render_page base host s)"
    and "sc_calls (render_page base host s) = sc_calls s \<or> sc_calls (render_page base host s) = sc_calls s @ [Select_caller]"
    and "sc_page (render_page base host s) = sc_page s
      \<or> (shows_chat (sc_page s) \<and> shows_chat (sc_page (render_page base host s)))"
  using commit_choice_only [OF assms, of base host]
  by (simp_all add: render_page_def only_starts_def split: shown_page.split) (metis shows_chat.simps(1))

section \<open>Events of the application\<close>

text \<open>The page after an event of the application is the page before it, its next render, or a new one.\<close>

definition page_follows :: "host_type \<Rightarrow> screen \<Rightarrow> screen \<Rightarrow> bool" where
  "page_follows host s t =
     ((sc_page t = mount_page host (sc_app t) (sc_mounts s) \<and> sc_mounts t = Suc (sc_mounts s))
      \<or> (sc_mounts t = sc_mounts s
          \<and> (sc_page t = sc_page s \<or> (shows_chat (sc_page s) \<and> shows_chat (sc_page t)))))"

lemma in_app_facts:
  assumes "app_down (sc_app s) \<or> page_placed host (sc_path s) (sc_page s)"
    and "t = in_app base host ev s" "a = app_step base host (sc_app s) ev"
  shows "app_reachable base host path (sc_app s) \<Longrightarrow> app_reachable base host path (sc_app t)"
    and "app_down (sc_app t) \<or> page_fits host t" "page_follows host s t"
    and "sc_calls t = sc_calls s \<or> sc_calls t = sc_calls s @ [Select_caller]"
    and "length (sc_calls t) + length (sys_inits (ap_cluster a)) = length (sc_calls s) + length (sys_inits (ap_cluster (sc_app t)))"
proof -
  let ?s = "s\<lparr>sc_app := a\<rparr>"
  have t: "t = refresh base host (sc_app s) ?s" by (simp add: assms(2,3) in_app_def)
  have reach: "app_reachable base host path (sc_app s) \<Longrightarrow> app_reachable base host path a"
    by (simp add: assms(3) app_next)
  consider (down) "app_down a" | (moved) "\<not> app_down a" "sc_path ?s \<noteq> sc_path s" | (stayed) "\<not> app_down a" "sc_path ?s = sc_path s"
    by blast
  then have "(app_reachable base host path (sc_app s) \<longrightarrow> app_reachable base host path (sc_app t))
    \<and> (app_down (sc_app t) \<or> page_fits host t) \<and> page_follows host s t
    \<and> (sc_calls t = sc_calls s \<or> sc_calls t = sc_calls s @ [Select_caller])
    \<and> length (sc_calls t) + length (sys_inits (ap_cluster a)) = length (sc_calls s) + length (sys_inits (ap_cluster (sc_app t)))"
  proof cases
    case down
    then show ?thesis using reach by (simp add: t refresh_def page_follows_def)
  next
    case moved
    then show ?thesis using reach mount_fits by (simp add: t refresh_def page_follows_def page_fits_def)
  next
    case stayed
    then have eq: "t = render_page base host ?s" by (simp add: t refresh_def)
    have up: "\<not> app_down (sc_app ?s)" using stayed by simp
    have "\<not> app_down (sc_app s)" using stayed(1) down_stays assms(3) by blast
    then have fits: "page_fits host t" unfolding eq using assms(1) stayed by (intro render_fits) simp_all
    note only = render_only [OF up, of base host]
    have "app_reachable base host path a \<Longrightarrow> app_reachable base host path (sc_app t)"
      using only_starts_reachable [OF only(1)] eq by simp
    then show ?thesis using reach fits only by (simp add: eq page_follows_def only_starts_def)
  qed
  then show "app_reachable base host path (sc_app s) \<Longrightarrow> app_reachable base host path (sc_app t)"
    and "app_down (sc_app t) \<or> page_fits host t" "page_follows host s t"
    and "sc_calls t = sc_calls s \<or> sc_calls t = sc_calls s @ [Select_caller]"
    and "length (sc_calls t) + length (sys_inits (ap_cluster a)) = length (sc_calls s) + length (sys_inits (ap_cluster (sc_app t)))"
    by blast+
qed

section \<open>The invariant of the screen\<close>

text \<open>A setup page loads while exactly one call of its own waits; \<open>answered\<close> has just lost it.\<close>

definition loading_fits :: "nat option \<Rightarrow> screen \<Rightarrow> bool" where
  "loading_fits answered s =
     ((\<forall>m. Setup_caller m \<in> set (sc_calls s) \<longrightarrow> m < sc_mounts s)
      \<and> (case sc_page s of
           Setup_shown n b \<Rightarrow> n < sc_mounts s
             \<and> count_list (sc_calls s) (Setup_caller n) = (if b \<and> answered \<noteq> Some n then 1 else 0)
         | _ \<Rightarrow> True))"

definition screen_ok :: "string \<Rightarrow> host_type \<Rightarrow> string \<Rightarrow> screen \<Rightarrow> bool" where
  "screen_ok base host path s =
     (app_reachable base host path (sc_app s) \<and> (app_down (sc_app s) \<or> page_fits host s)
      \<and> length (sc_calls s) = length (sys_inits (ap_cluster (sc_app s))) \<and> loading_fits None s)"

lemma mount_page_cases:
  "mount_page host a n = Setup_shown n False \<or> \<not> shows_setup (mount_page host a n)"
  by (simp add: mount_page_def Let_def)

lemma follows_loading:
  assumes "page_follows host s t" "sc_calls t = sc_calls s \<or> sc_calls t = sc_calls s @ [Select_caller]"
    and "loading_fits answered s"
  shows "loading_fits answered t"
proof -
  have bound: "\<forall>m. Setup_caller m \<in> set (sc_calls t) \<longrightarrow> m < sc_mounts s"
    using assms(2,3) by (auto simp: loading_fits_def)
  then have "Setup_caller (sc_mounts s) \<notin> set (sc_calls t)" by blast
  then have none: "count_list (sc_calls t) (Setup_caller (sc_mounts s)) = 0" by (simp add: count_list_0_iff)
  have count: "count_list (sc_calls t) (Setup_caller n) = count_list (sc_calls s) (Setup_caller n)" for n
    using assms(2) by auto
  show ?thesis
  proof (cases "sc_mounts t = sc_mounts s")
    case True
    then have "sc_page t = sc_page s \<or> shows_chat (sc_page t)" using assms(1) by (auto simp: page_follows_def)
    then show ?thesis using assms(3) bound count True by (auto simp: loading_fits_def split: shown_page.split)
  next
    case False
    then have "sc_page t = Setup_shown (sc_mounts s) False \<or> \<not> shows_setup (sc_page t)" "sc_mounts t = Suc (sc_mounts s)"
      using assms(1) mount_page_cases by (auto simp: page_follows_def)
    then show ?thesis using bound none less_SucI by (auto simp: loading_fits_def split: shown_page.split)
  qed
qed

lemma in_app_ok:
  assumes "screen_ok base host path s"
    and "length (sys_inits (ap_cluster (app_step base host (sc_app s) ev))) = length (sys_inits (ap_cluster (sc_app s)))"
  shows "screen_ok base host path (in_app base host ev s)"
proof -
  have "app_down (sc_app s) \<or> page_placed host (sc_path s) (sc_page s)"
    using assms(1) by (auto simp: screen_ok_def page_fits_def)
  note facts = in_app_facts [OF this refl refl, where base = base and ev = ev]
  show ?thesis
    using assms facts(1,2,5) follows_loading [OF facts(3,4)] by (simp add: screen_ok_def)
qed

lemma app_inits:
  "needs_page ev p \<Longrightarrow> sys_inits (ap_cluster (app_step base host a ev)) = sys_inits (ap_cluster a)"
proof (cases ev)
  case (On_cluster e)
  assume "needs_page ev p"
  then show ?thesis using On_cluster
    by (cases e) (auto simp: app_step_def cluster_simps split: sum.split prod.split)
qed (simp_all add: app_step_def)

lemma navigate_inits: "sys_inits (ap_cluster (app_step base host a (On_router ev))) = sys_inits (ap_cluster a)"
  by (simp add: app_step_def)

lemma press_continue_ok:
  assumes "screen_ok base host path s" "\<not> app_down (sc_app s)"
  shows "screen_ok base host path (press_continue base host s)"
proof (cases "\<exists>n c. sc_page s = Setup_shown n False \<and> should_init (sc_cluster s) \<and> init_cluster_call (sc_cluster s) = Inr c")
  case True
  then obtain n c where p: "sc_page s = Setup_shown n False" "should_init (sc_cluster s)" "init_cluster_call (sc_cluster s) = Inr c"
    by blast
  let ?s = "s\<lparr>sc_page := Setup_shown n True\<rparr>"
  let ?t = "start_init base host (Setup_caller n) ?s"
  have t: "press_continue base host s = ?t" using p by (simp add: press_continue_def)
  have only: "only_starts base host ?s ?t" "sc_page ?t = Setup_shown n True"
    using start_init_only [of ?s base host "Setup_caller n"] assms(2) by simp_all
  have "sc_calls ?t = sc_calls s @ [Setup_caller n]" using p(3) by (simp add: start_init_def)
  then have "loading_fits None ?t"
    using assms(1) p(1) only by (auto simp: screen_ok_def loading_fits_def only_starts_def)
  moreover have "app_reachable base host path (sc_app ?t)"
    using only_starts_reachable [OF only(1)] assms(1) by (simp add: screen_ok_def)
  moreover have "page_fits host ?t"
    using assms p(1) only by (auto simp: screen_ok_def page_fits_defs only_starts_def)
  moreover have "length (sc_calls ?t) = length (sys_inits (ap_cluster (sc_app ?t)))"
    using assms(1) only(1) by (simp add: screen_ok_def only_starts_def)
  ultimately show ?thesis unfolding t by (simp add: screen_ok_def)
next
  case False
  then show ?thesis
    using assms in_app_ok [OF assms(1), of "On_router (Navigate PATH_JOIN)"]
    by (auto simp: press_continue_def navigate_inits split: shown_page.split bool.split sum.split)
qed

lemma chat_page_ok:
  assumes "screen_ok base host path s" "sc_page s = Chat_shown p" "page_fits host (s\<lparr>sc_page := Chat_shown q\<rparr>)"
  shows "screen_ok base host path (s\<lparr>sc_page := Chat_shown q\<rparr>)"
  using assms by (simp add: screen_ok_def loading_fits_def)

lemma in_drawer_ok:
  assumes "screen_ok base host path s" "\<not> app_down (sc_app s)" "own_drawer_event ev"
  shows "screen_ok base host path (in_drawer host ev s)"
proof (cases "sc_page s")
  case (Chat_shown p)
  have fits: "page_fits host s" using assms(1,2) by (simp add: screen_ok_def)
  let ?d = "drawer_step host (selected_model_info (sc_cluster s)) (cp_drawer p) ev"
  have "drawer_ok ?d" "drawer_sees ?d = drawer_sees (cp_drawer p)"
    using drawer_step_facts fits Chat_shown drawer_observer.seen_step [of "(_, ev)"] assms(3)
    by (simp_all add: page_fits_defs)
  then show ?thesis
    using chat_page_ok [OF assms(1) Chat_shown] fits Chat_shown by (simp add: in_drawer_def page_fits_defs)
qed (use assms in \<open>simp_all add: in_drawer_def\<close>)

lemma choose_ok:
  assumes "screen_ok base host path s" "\<not> app_down (sc_app s)"
  shows "screen_ok base host path (choose_model_name base host name s)"
proof (cases "sc_page s")
  case (Chat_shown p)
  let ?s = "s\<lparr>sc_page := Chat_shown (p\<lparr>cp_can := True\<rparr>)\<rparr>"
  let ?ev = "On_cluster (Set_model_name (JStr name))"
  have "page_placed host (sc_path ?s) (sc_page ?s)"
    using assms Chat_shown by (simp add: screen_ok_def page_fits_def page_placed_def)
  note facts = in_app_facts [OF disjI2 [OF this] refl refl, where base = base and ev = ?ev]
  have "loading_fits None ?s" using assms(1) Chat_shown by (simp add: screen_ok_def loading_fits_def)
  note loading = follows_loading [OF facts(3,4) this]
  have "sys_inits (ap_cluster (app_step base host (sc_app s) ?ev)) = sys_inits (ap_cluster (sc_app s))"
    by (rule app_inits [of _ "Setup_shown 0 False"]) simp
  then have "screen_ok base host path (in_app base host ?ev ?s)"
    using facts(1,2,5) loading assms(1) by (simp add: screen_ok_def)
  then show ?thesis using assms(1) Chat_shown by (auto simp: choose_model_name_def)
qed (use assms in \<open>simp_all add: choose_model_name_def\<close>)

lemma count_without:
  assumes "k < length xs"
  shows "count_list (take k xs @ drop (Suc k) xs) x + (if xs ! k = x then 1 else 0) = count_list xs x"
proof -
  have "count_list xs x = count_list (take k xs @ xs ! k # drop (Suc k) xs) x"
    using id_take_nth_drop [OF assms] by simp
  then show ?thesis by simp
qed

lemma without_call_loading:
  assumes "loading_fits None s" "k < length (sc_calls s)"
  shows "loading_fits (case sc_calls s ! k of Setup_caller n \<Rightarrow> Some n | Select_caller \<Rightarrow> None) (without_call k s)"
proof -
  let ?rest = "take k (sc_calls s) @ drop (Suc k) (sc_calls s)"
  have "set ?rest \<subseteq> set (sc_calls s)" using set_take_subset set_drop_subset by fastforce
  then have bound: "Setup_caller m \<in> set ?rest \<Longrightarrow> m < sc_mounts s" for m
    using assms(1) by (auto simp only: loading_fits_def)
  have "case sc_page s of Setup_shown n b \<Rightarrow> n < sc_mounts s \<and> count_list ?rest (Setup_caller n) =
      (if b \<and> (case sc_calls s ! k of Setup_caller n \<Rightarrow> Some n | Select_caller \<Rightarrow> None) \<noteq> Some n then 1 else 0)
    | _ \<Rightarrow> True"
  proof (cases "sc_page s")
    case (Setup_shown n b)
    then have "n < sc_mounts s" "count_list (sc_calls s) (Setup_caller n) = (if b then 1 else 0)"
      using assms(1) by (simp_all add: loading_fits_def)
    then show ?thesis
      using Setup_shown count_without [OF assms(2), of "Setup_caller n"]
      by (cases "sc_calls s ! k"; cases b) (auto simp del: count_list_append split: if_splits)
  qed simp_all
  moreover have "sc_calls (without_call k s) = ?rest" "sc_mounts (without_call k s) = sc_mounts s"
    "sc_page (without_call k s) = sc_page s" by (simp_all add: without_call_def)
  note sel = this
  ultimately show ?thesis unfolding loading_fits_def sel using bound by blast
qed

lemma init_response_inits:
  "\<not> app_down a \<Longrightarrow> k < length (sys_inits (ap_cluster a)) \<Longrightarrow>
     length (sys_inits (ap_cluster (app_step base host a (On_cluster (Init_response k r))))) = length (sys_inits (ap_cluster a)) - 1"
  by (simp add: app_step_def app_allowed_def cluster_simps)

lemma end_loading_ok:
  "loading_fits (Some n) s \<Longrightarrow> loading_fits None (end_loading n s)"
  "sc_app (end_loading n s) = sc_app s" "sc_calls (end_loading n s) = sc_calls s"
  "page_fits host (end_loading n s) = page_fits host s"
  by (auto simp: end_loading_def loading_fits_def page_fits_defs split: shown_page.splits)

lemma init_answered_ok:
  assumes "screen_ok base host path s" "\<not> app_down (sc_app s)"
  shows "screen_ok base host path (init_answered base host k r s)"
proof (cases "k < length (sc_calls s)")
  case True
  let ?o = "case sc_calls s ! k of Setup_caller n \<Rightarrow> Some n | Select_caller \<Rightarrow> None"
  let ?ev = "On_cluster (Init_response k r)" and ?nav = "On_router (Navigate PATH_JOIN)"
  define t where "t = in_app base host ?ev (without_call k s)"
  have inits: "length (sc_calls s) = length (sys_inits (ap_cluster (sc_app s)))" using assms by (simp add: screen_ok_def)
  have "app_down (sc_app (without_call k s)) \<or> page_placed host (sc_path (without_call k s)) (sc_page (without_call k s))"
    using assms by (auto simp: screen_ok_def page_fits_def without_call_def)
  note facts = in_app_facts [OF this t_def refl]
  have len: "length (sc_calls t) = length (sys_inits (ap_cluster (sc_app t)))"
    using facts(5) True inits init_response_inits [OF assms(2), of k base host r] by (simp add: without_call_def)
  have load: "loading_fits ?o t"
    using follows_loading [OF facts(3,4) without_call_loading [OF _ True]] assms by (simp add: screen_ok_def)
  have reach: "app_reachable base host path (sc_app t)"
    using facts(1) assms by (simp add: screen_ok_def without_call_def)
  have "app_down (sc_app t) \<or> page_placed host (sc_path t) (sc_page t)" using facts(2) by (auto simp: page_fits_def)
  note nav = in_app_facts [OF this refl refl, where base = base and ev = ?nav]
  note nav_load = follows_loading [OF nav(3,4) load]
  have nav_len: "length (sc_calls (in_app base host ?nav t)) = length (sys_inits (ap_cluster (sc_app (in_app base host ?nav t))))"
    using nav(5) len navigate_inits by simp
  have t: "init_answered base host k r s =
      (case sc_calls s ! k of Select_caller \<Rightarrow> t
       | Setup_caller n \<Rightarrow> end_loading n (case init_scheduler r of Inr d \<Rightarrow> in_app base host ?nav t | Inl e \<Rightarrow> t))"
    unfolding init_answered_def t_def Let_def using True by simp
  show ?thesis
  proof (cases "sc_calls s ! k")
    case (Setup_caller n)
    then have "loading_fits (Some n) t" "loading_fits (Some n) (in_app base host ?nav t)" using load nav_load by simp_all
    then show ?thesis
      unfolding t using Setup_caller facts(2) len reach nav(1) [OF reach] nav(2) nav_len
      by (simp add: screen_ok_def end_loading_ok split: sum.split)
  next
    case Select_caller
    then show ?thesis unfolding t using load facts(2) len reach by (simp add: screen_ok_def)
  qed
qed (use assms in \<open>simp add: init_answered_def\<close>)

lemma screen_step_ok:
  assumes "screen_ok base host path s" shows "screen_ok base host path (screen_step base host s ev)"
proof (cases "screen_allowed s ev")
  case True
  then show ?thesis
    using assms press_continue_ok choose_ok in_drawer_ok init_answered_ok in_app_ok app_inits
    by (cases ev) (simp_all add: screen_step_def)
qed (use assms in \<open>simp add: screen_step_def\<close>)

lemma mount_screen_ok: "screen_ok base host path (mount_screen base host path)"
proof -
  have "sys_inits (ap_cluster (mount_app base host path)) = []"
    by (simp add: mount_app_def mount_cluster_def split: prod.split)
  moreover have "loading_fits None (mount_screen base host path)"
    using mount_page_cases [of host "mount_app base host path" 0]
    by (auto simp: loading_fits_def mount_screen_def split: shown_page.split)
  ultimately show ?thesis
    using mount_fits app_mounted by (simp add: screen_ok_def mount_screen_def page_fits_def)
qed

lemma screen_reachable_ok: "screen_reachable base host path s \<Longrightarrow> screen_ok base host path s"
  by (induction rule: screen_reachable.induct) (simp_all add: mount_screen_ok screen_step_ok)

lemma screen_reachable_run: "screen_reachable base host path s \<Longrightarrow> screen_reachable base host path (screen_run base host s evs)"
  by (induction evs arbitrary: s) (simp_all add: screen_run_def screen_next)

text \<open>C10: Whatever happens, the page shown is the one of the path, each call of \<open>init\<close> that waits for its answer
  is known to the page that made it, a setup page is loading exactly while its own call waits, and the
  layout of the chat page has seen the present status and need of nodes.\<close>

theorem screen_fits_path:
  assumes "screen_reachable base host path s"
  shows "app_reachable base host path (sc_app s)
    \<and> length (sc_calls s) = length (sys_inits (ap_cluster (sc_app s)))
    \<and> (app_down (sc_app s) \<or>
        (case sc_page s of
           Setup_shown n loading \<Rightarrow> host = Cluster_host \<and> sc_path s = PATH_SETUP
             \<and> count_list (sc_calls s) (Setup_caller n) = (if loading then 1 else 0)
         | Join_shown \<Rightarrow> host = Cluster_host \<and> sc_path s = PATH_JOIN
         | Chat_shown p \<Rightarrow> sc_path s = PATH_CHAT \<and> dr_status (cp_drawer p) = ci_status (sc_info s)
             \<and> dr_need (cp_drawer p) = ci_need_more_nodes (sc_info s)
         | Missing_shown \<Rightarrow> sc_path s \<noteq> PATH_CHAT))"
  using screen_reachable_ok [OF assms]
  by (auto simp: screen_ok_def page_fits_defs loading_fits_def drawer_sees_def split: shown_page.split)

end
