(* ===== verification/Application_Runs.thy ===== *)
theory Application_Runs
  imports Application Chat_Stream
begin

text \<open>
  Runs of the whole application: what can bring it down, a reply among other events, what leaves it as a
  request, and the way from a status message on the stream to a request.
\<close>

section \<open>What can bring the application down\<close>

text \<open>Nothing has thrown, and nothing will as soon as it is rendered: no updater, and no list of the nodes.\<close>

definition app_sound :: "app_state \<Rightarrow> bool" where
  "app_sound a =
     (\<not> app_down a \<and> \<not> chat_crashed (cur (ap_chat a)) \<and> nodes_drawable (sys_cluster (ap_cluster a)))"

lemma mount_sound: "app_sound (mount_app base host path)"
  by (simp add: app_sound_def app_down_def mount_app_def mounted_state init_cluster_def init_chat_sys_def
      init_chat_def nodes_drawable_def initial_cluster_info_def placeholders_def)

lemma shown_crash:
  "chat_crashed (shown (chat_step s ev)) \<Longrightarrow> chat_crashed (shown s) \<or> chat_crashed (cur (chat_step s ev))"
  by (cases ev) (auto simp: shown_ui net_shown render_def simp del: chat_step.simps(5) split: if_splits)

lemma share_sound: "app_sound a \<Longrightarrow> app_sound (share host before a)"
  by (auto simp: app_sound_def app_down_def share_def see_cluster_def render_def)

text \<open>Nodes come from chunks alone, and so do the expected numbers of them, but for the calls of \<open>init\<close>.\<close>

lemma reset_drawable: "nodes_drawable (cluster_reset s)"
  by (simp add: nodes_drawable_def cluster_reset_def cluster_simps initial_cluster_info_def placeholders_def)

interpretation cluster_drawable: http_quiet cluster_http nodes_drawable
  by unfold_locales (auto simp: cluster_simps reset_drawable)

lemma effect_drawable: "nodes_drawable (cluster_effect s) = nodes_drawable s"
  by (simp add: nodes_drawable_def cluster_effect_def)

definition too_many :: "cluster_sys \<Rightarrow> nat \<Rightarrow> bool" where
  "too_many s k = (k < length (sys_inits s) \<and> 2 ^ 32 \<le> ic_nodes (sys_inits s ! k))"

lemma init_drawable: "ic_nodes c < 2 ^ 32 \<Longrightarrow> nodes_drawable (init_done c s)"
  by (auto simp: nodes_drawable_def init_done_def placeholders_def)

lemma cluster_step_drawable:
  assumes "nodes_drawable (sys_cluster s)" "\<forall>c t. ev \<noteq> Stream_event (Http_chunk c t)"
    and "\<forall>k r. ev = Init_response k r \<longrightarrow> \<not> too_many s k"
  shows "nodes_drawable (sys_cluster (cluster_step base s ev))"
proof (cases ev)
  case (Stream_event e)
  have "nodes_drawable (stream_data base s e)"
    unfolding stream_data_def using assms Stream_event by (intro cluster_drawable.quiet_step) simp_all
  then show ?thesis
    using Stream_event stream_step [of e base s] assms(1)
    by (cases "from_network e") (simp_all add: effect_drawable)
next
  case (Init_response k r)
  then have "k < length (sys_inits s) \<Longrightarrow> ic_nodes (sys_inits s ! k) < 2 ^ 32" using assms(3) by (simp add: too_many_def)
  then show ?thesis
    using Init_response assms(1) init_drawable
    by (simp add: cluster_simps effect_drawable on_init_response_def split: sum.split)
qed (use assms(1) in \<open>auto simp: cluster_simps effect_drawable nodes_drawable_def split: sum.split\<close>)

lemma sound_step:
  assumes "app_reachable base host path a" "app_sound a" "\<not> app_sound (app_step base host a ev)"
  shows "(\<exists>c t. ev = On_cluster (Stream_event (Http_chunk c t)))
    \<or> (\<exists>c t. ev = On_chat (Net (Chunk c t)) \<and> live (sse (ap_chat a)) c)
    \<or> (\<exists>k r. ev = On_cluster (Init_response k r) \<and> too_many (ap_cluster a) k)"
proof -
  have up: "\<not> cl_crashed (sys_cluster (ap_cluster a))" "\<not> chat_crashed (shown (ap_chat a))"
    "\<not> chat_crashed (cur (ap_chat a))" "\<not> ap_fallen a" "nodes_drawable (sys_cluster (ap_cluster a))"
    using assms(2) by (simp_all add: app_sound_def app_down_def)
  have allowed: "app_allowed a ev" using assms(2,3) by (cases "app_allowed a ev") (simp_all add: app_step_def)
  show ?thesis
  proof (cases ev)
    case (On_cluster e)
    let ?a = "a\<lparr>ap_cluster := cluster_step base (ap_cluster a) e\<rparr>"
    have "\<not> app_sound ?a" using On_cluster allowed assms(3) share_sound by (auto simp: app_step_def)
    then have "cl_crashed (sys_cluster (cluster_step base (ap_cluster a) e))
        \<or> \<not> nodes_drawable (sys_cluster (cluster_step base (ap_cluster a) e))"
      using up by (simp add: app_sound_def app_down_def)
    then show ?thesis using cluster_step_up [OF up(1)] cluster_step_drawable [OF up(5)] On_cluster by blast
  next
    case (On_chat e)
    have "chat_reachable (ap_chat a)" using reachable_refines [OF assms(1)] by (simp add: app_refines_def)
    moreover have "\<not> app_sound (a\<lparr>ap_chat := chat_step (ap_chat a) e\<rparr>)"
      using On_chat allowed assms(3) by (simp add: app_step_def)
    then have "chat_crashed (cur (chat_step (ap_chat a) e))"
      using up shown_crash [of "ap_chat a" e] by (auto simp: app_sound_def app_down_def simp del: chat_step.simps)
    ultimately show ?thesis using chat_crash_only_by_chunk up(3) On_chat by blast
  next
    case (On_router e)
    then show ?thesis using assms(2,3) allowed by (simp add: app_step_def app_sound_def app_down_def)
  next
    case Nodes_drawn
    then show ?thesis using assms(2,3) allowed up(5) by (simp add: app_step_def)
  qed
qed

lemma first_fall:
  assumes "app_reachable base host path a" "app_sound a" "\<not> app_sound (app_run base host a evs)"
  obtains pre ev post where "evs = pre @ ev # post" "app_sound (app_run base host a pre)"
    "\<not> app_sound (app_step base host (app_run base host a pre) ev)"
  using assms
proof (induction evs arbitrary: thesis rule: rev_induct)
  case Nil
  then show ?case by (simp add: app_run_def)
next
  case (snoc ev evs)
  show ?case
  proof (cases "app_sound (app_run base host a evs)")
    case True
    then show ?thesis using snoc.prems(1) [of evs ev "[]"] snoc.prems(4) by (simp add: app_run_def)
  next
    case False
    then obtain pre e post where "evs = pre @ e # post" "app_sound (app_run base host a pre)"
      "\<not> app_sound (app_step base host (app_run base host a pre) e)"
      using snoc.IH snoc.prems(2,3) by blast
    then show ?thesis using snoc.prems(1) [of pre e "post @ [ev]"] by simp
  qed
qed

text \<open>C14: What brings the application down is text from a stream.  Take any run from the mounted application
  after which something has thrown, in an updater or in drawing the list of nodes, or will throw as soon as it is
  rendered.  The event that first made it so is a chunk of text, either of the status stream - also one with a node
  of an unknown status, which throws only later, on a page that draws the nodes - or of the reply to the request that was live;
  the one exception is an accepted start of the scheduler with \<open>2 ^ 32\<close> nodes or more, as many placeholders as
  no array can have.  No other click, key, timer or answer of the server, no navigation, no loss of a
  connection and no order of all these does it.  (Values that React refuses as children, an object for a name say,
  are not followed to where they are drawn.)\<close>

theorem app_falls_by_chunk:
  assumes "\<not> app_sound (app_run base host (mount_app base host path) evs)"
  shows "\<exists>pre ev post. evs = pre @ ev # post
    \<and> (let a = app_run base host (mount_app base host path) pre in
        app_sound a \<and> \<not> app_sound (app_step base host a ev)
        \<and> ((\<exists>c t. ev = On_cluster (Stream_event (Http_chunk c t)))
          \<or> (\<exists>c t. ev = On_chat (Net (Chunk c t)) \<and> live (sse (ap_chat a)) c)
          \<or> (\<exists>k r. ev = On_cluster (Init_response k r) \<and> too_many (ap_cluster a) k)))"
proof -
  obtain pre ev post where run: "evs = pre @ ev # post"
    "app_sound (app_run base host (mount_app base host path) pre)"
    "\<not> app_sound (app_step base host (app_run base host (mount_app base host path) pre) ev)"
    by (rule first_fall [OF app_mounted mount_sound assms])
  show ?thesis
    unfolding Let_def using run sound_step [OF app_reachable_run [OF app_mounted] run(2,3)] by blast
qed

section \<open>A reply among other events\<close>

text \<open>The events for the chat of a run, without the renders.\<close>

fun chat_part :: "app_event list \<Rightarrow> chat_event list" where
  "chat_part [] = []"
| "chat_part (On_chat Render # evs) = chat_part evs"
| "chat_part (On_chat e # evs) = e # chat_part evs"
| "chat_part (ev # evs) = chat_part evs"

definition chat_core :: "chat_sys \<Rightarrow> chat_state \<times> sse_state" where
  "chat_core s = (cur s, sse s)"

lemma on_client_core: "chat_core (on_client f s) = prod.swap (f (prod.swap (chat_core s)))"
  by (simp add: chat_core_def on_client_def split: prod.split)

lemma net_core: "chat_core s = chat_core t \<Longrightarrow> chat_core (chat_step s (Net n)) = chat_core (chat_step t (Net n))"
  by (simp only: chat_step.simps settle_def on_client_core)

lemma share_core: "chat_core (ap_chat (share host before a)) = chat_core (ap_chat a)"
  by (simp add: share_def see_cluster_def render_def chat_core_def)

lemma app_net:
  "\<not> app_down a \<Longrightarrow> app_step base host a (On_chat (Net n)) = a\<lparr>ap_chat := chat_step (ap_chat a) (Net n)\<rparr>"
  by (simp add: app_step_def app_allowed_def)

lemma other_core:
  assumes "chat_part [ev] = []" shows "chat_core (ap_chat (app_step base host a ev)) = chat_core (ap_chat a)"
proof (cases ev)
  case (On_chat e)
  then have "e = Render" using assms by (cases e) simp_all
  with On_chat show ?thesis by (simp add: app_step_def chat_core_def render_def)
qed (simp_all add: app_step_def share_core)

lemma chat_part_Cons: "chat_part (ev # evs) = chat_part [ev] @ chat_part evs"
  by (cases "[ev]" rule: chat_part.cases) auto

lemma net_part: "chat_part [ev] = [Net n] \<Longrightarrow> ev = On_chat (Net n)"
  by (cases "[ev]" rule: chat_part.cases) auto

lemma chat_part_single: "length (chat_part [ev]) \<le> 1"
  by (cases "[ev]" rule: chat_part.cases) auto

lemma up_before: "\<not> app_down (app_run base host a (ev # evs)) \<Longrightarrow> \<not> app_down a \<and> \<not> app_down (app_run base host (app_step base host a ev) evs)"
  using down_run [of a base host "ev # evs"] by (auto simp: app_run_def)

lemma core_run:
  assumes "chat_part evs = map Net ns" "chat_core (ap_chat a) = chat_core s" "\<not> app_down (app_run base host a evs)"
  shows "chat_core (ap_chat (app_run base host a evs)) = chat_core (chat_run s (map Net ns))"
  using assms
proof (induction evs arbitrary: a s ns)
  case Nil
  then show ?case by (simp add: app_run_def chat_run_def)
next
  case (Cons ev evs)
  note up = up_before [OF Cons.prems(3)]
  show ?case
  proof (cases "chat_part [ev]")
    case Nil
    then show ?thesis
      using Cons.IH [of ns "app_step base host a ev" s] Cons.prems(1,2) Nil up other_core [OF Nil, of base host a]
        chat_part_Cons [of ev evs] by (simp add: app_run_def)
  next
    case (Cons e es)
    then have "chat_part [ev] = [e]" using chat_part_single [of ev] by simp
    then obtain n ns' where ns: "ns = n # ns'" "chat_part [ev] = [Net n]" "chat_part evs = map Net ns'"
      using Cons.prems(1) chat_part_Cons [of ev evs] by (cases ns) auto
    have "chat_core (ap_chat (app_step base host a ev)) = chat_core (chat_step s (Net n))"
      using net_core [OF Cons.prems(2)] net_part [OF ns(2)] up by (simp add: app_net del: chat_step.simps)
    from Cons.IH [OF ns(3) this] up show ?thesis using ns(1) by (simp add: app_run_def chat_run_def)
  qed
qed

text \<open>C8: A reply is not disturbed by the rest of the application: whatever status messages, losses of the
  status stream, answers, clicks outside the chat, navigations, renders and timers come between the chunks of a
  reply, and however its text is cut, the reply is added whole as one message, and its end closes the request, as
  long as nothing of all this takes the application down.\<close>

theorem app_reply_undisturbed:
  assumes "app_reachable base host path a" "conns (sse (ap_chat a)) c = Reading []" "normal_number created"
    and "concat cs = reply_text (delta_chunk i created model) ds" "concat ds \<noteq> []"
    and "msg_role (last (chat_messages (cur (ap_chat a)))) \<noteq> Role_assistant"
    and "chat_part evs = map (\<lambda>t. Net (Chunk c t)) cs @ [Net (End_of_stream c)]"
    and "\<not> app_down (app_run base host a evs)"
  shows "let s = ap_chat (app_run base host a evs) in
    chat_messages (cur s) = chat_messages (cur (ap_chat a)) @
      [(reply_message i created model (concat ds))\<lparr>msg_status := Msg_done\<rparr>]
    \<and> chat_status (cur s) = Chat_closed \<and> (\<forall>d. \<not> live (sse s) d)"
proof -
  let ?ns = "map (Chunk c) cs @ [End_of_stream c]"
  have "chat_reachable (ap_chat a)" using reachable_refines [OF assms(1)] by (simp add: app_refines_def)
  note reply = stream_reply [OF this assms(2-6)]
  have "chat_part evs = map Net ?ns" using assms(7) by simp
  from core_run [OF this refl assms(8)] have "chat_core (ap_chat (app_run base host a evs)) =
      chat_core (chat_step (chat_run (ap_chat a) (map (\<lambda>t. Net (Chunk c t)) cs)) (Net (End_of_stream c)))"
    by (simp add: chat_run_def comp_def del: chat_step.simps)
  then show ?thesis using reply by (simp add: Let_def chat_core_def del: chat_step.simps)
qed

section \<open>Requests\<close>

definition plain_message :: "chat_message \<Rightarrow> bool" where
  "plain_message m = ((case msg_id m of JStr i \<Rightarrow> True | _ \<Rightarrow> False)
     \<and> (case msg_role m of Role_other v \<Rightarrow> False | _ \<Rightarrow> True))"

definition message_json :: "chat_message \<Rightarrow> jsval" where
  "message_json m = JObj [(''id'', msg_id m), (''role'', role_js (msg_role m)), (''content'', JStr (msg_content m))]"

lemma message_json_wf: "plain_message m \<Longrightarrow> json_wf (message_json m)"
  by (auto simp: plain_message_def message_json_def split: jsval.splits role.splits)

lemma request_messages: "map request_json (map to_request ms) = map message_json ms"
  by (simp add: request_json_def to_request_def message_json_def)

lemma wire_body_wf:
  assumes "list_all plain_message ms"
  shows "json_wf (wire_body (JStr model, map to_request ms))"
proof -
  have "json_wf (JArr (map message_json ms))"
    using assms message_json_wf by (auto simp: json_wf_items_all list_all_iff)
  then show ?thesis
    by (simp add: wire_body_def request_body_def request_messages num_of_int_def del: map_map)
qed

text \<open>Only an event of the chat can send a request.\<close>

lemma see_cluster_requests: "requests (see_cluster v s) = requests s"
  by (cases v) (simp add: see_cluster_def render_def)

lemma share_requests: "requests (ap_chat (share host before a)) = requests (ap_chat a)"
  by (simp add: share_def see_cluster_requests)

lemma app_requests:
  assumes "requests (ap_chat (app_step base host a ev)) \<noteq> requests (ap_chat a)"
  obtains e where "ev = On_chat e" "app_allowed a ev" "app_step base host a ev = a\<lparr>ap_chat := chat_step (ap_chat a) e\<rparr>"
  using assms by (cases ev; cases "app_allowed a ev") (simp_all add: app_step_def share_requests split: if_splits)

lemma app_request_cases:
  assumes "app_reachable base host path a"
    and new: "requests (ap_chat (app_step base host a ev)) \<noteq> requests (ap_chat a)"
  shows "(\<exists>now m. ev = On_chat (Generate now m)) \<and> ci_status (app_info a) = JStr ''available''
    \<and> truthy (ci_model_name (app_info a)) \<and> (\<forall>c. \<not> live (sse (ap_chat a)) c)
    \<and> requests (ap_chat (app_step base host a ev)) = requests (ap_chat a) @
        [(ci_model_name (app_info a), map to_request (chat_messages (shown (ap_chat (app_step base host a ev)))))]"
proof -
  obtain e where e: "ev = On_chat e" "app_allowed a ev"
    "app_step base host a ev = a\<lparr>ap_chat := chat_step (ap_chat a) e\<rparr>" using new by (rule app_requests)
  have "chat_reachable (ap_chat a)" using reachable_refines [OF assms(1)] by (simp add: app_refines_def)
  note guard = request_cases [OF this, of e]
  then obtain now m where g: "e = Generate now m" using new e(3) by auto
  then have "\<not> app_down a" using e(1,2) by (simp add: app_allowed_def)
  then have "app_agrees a" using reachable_agrees [OF assms(1)] by blast
  then show ?thesis using guard new e g by (simp add: app_agrees_def chat_sees_def del: chat_step.simps)
qed

text \<open>C17: A request leaves the application only when the user generates, while the cluster it shows is
  available and no other request is live; and what the server reads when it parses the text on the
  wire are the model that the cluster runs and the id, role and content of every message shown, in
  order.\<close>

theorem app_request_wire:
  assumes "app_reachable base host path a"
    and "requests (ap_chat (app_step base host a ev)) \<noteq> requests (ap_chat a)"
    and "ci_model_name (app_info a) = JStr model"
    and "list_all plain_message (chat_messages (shown (ap_chat (app_step base host a ev))))"
  shows "let s' = ap_chat (app_step base host a ev); body = wire_body (last (requests s')) in
    (\<exists>now m. ev = On_chat (Generate now m)) \<and> ci_status (app_info a) = JStr ''available''
    \<and> (\<forall>c. \<not> live (sse (ap_chat a)) c)
    \<and> json_parse (stringify body) = Inr body \<and> get_prop body ''model'' = Inr (JStr model)
    \<and> get_prop body ''messages'' = Inr (JArr (map message_json (chat_messages (shown s'))))"
  using app_request_cases [OF assms(1,2)] assms(3) json_parse_stringify [OF wire_body_wf [OF assms(4), of model]]
  by (simp add: Let_def wire_body_def request_body_def request_messages del: map_map)

section \<open>From the stream to a request\<close>

text \<open>Chunks of the status stream concern the cluster alone, and leave an idle chat as it is.\<close>

definition chat_still :: "chat_sys \<Rightarrow> chat_sys \<Rightarrow> bool" where
  "chat_still s t = (shown t = shown s \<and> cur t = cur s \<and> sse t = sse s \<and> requests t = requests s)"

lemma share_still: "shown (ap_chat a) = cur (ap_chat a) \<Longrightarrow> chat_still (ap_chat a) (ap_chat (share host before a))"
  by (simp add: share_def see_cluster_def render_def chat_still_def)

abbreviation app_stream :: "cluster_event list \<Rightarrow> app_event list" where
  "app_stream evs \<equiv> map On_cluster evs"

lemma cluster_run_crashed: "cl_crashed (sys_cluster s) \<Longrightarrow> cl_crashed (sys_cluster (cluster_run base s evs))"
  by (induction evs arbitrary: s) (simp_all add: cluster_run_def cluster_step_crashed del: cluster_step.simps)

lemma stream_run:
  assumes "shown (ap_chat a) = cur (ap_chat a)" "\<not> app_down a"
    and "\<not> cl_crashed (sys_cluster (cluster_run base (ap_cluster a) (chunk_events c cs)))"
  shows "ap_cluster (app_run base host a (app_stream (chunk_events c cs)))
      = cluster_run base (ap_cluster a) (chunk_events c cs)
    \<and> chat_still (ap_chat a) (ap_chat (app_run base host a (app_stream (chunk_events c cs))))
    \<and> \<not> app_down (app_run base host a (app_stream (chunk_events c cs)))"
  using assms
proof (induction cs arbitrary: a)
  case Nil
  then show ?case by (simp add: app_run_def cluster_run_def chat_still_def)
next
  case (Cons t cs)
  let ?e = "Stream_event (Http_chunk c t)"
  let ?a = "app_step base host a (On_cluster ?e)"
  have st: "?a = share host (sys_cluster (ap_cluster a)) (a\<lparr>ap_cluster := cluster_step base (ap_cluster a) ?e\<rparr>)"
    using Cons.prems(2) by (simp add: app_step_def app_allowed_def del: cluster_step.simps)
  have still: "chat_still (ap_chat a) (ap_chat ?a)"
    unfolding st using Cons.prems(1) share_still [of "a\<lparr>ap_cluster := cluster_step base (ap_cluster a) ?e\<rparr>" host]
    by (simp del: cluster_step.simps)
  have cl: "ap_cluster ?a = cluster_step base (ap_cluster a) ?e" unfolding st by simp
  have run: "cluster_run base (ap_cluster ?a) (chunk_events c cs) = cluster_run base (ap_cluster a) (chunk_events c (t # cs))"
    unfolding cl by (simp add: cluster_run_def del: cluster_step.simps)
  have idle: "shown (ap_chat ?a) = cur (ap_chat ?a)" using Cons.prems(1) still by (simp add: chat_still_def)
  have whole: "\<not> cl_crashed (sys_cluster (cluster_run base (ap_cluster ?a) (chunk_events c cs)))"
    unfolding run by (rule Cons.prems(3))
  then have "\<not> cl_crashed (sys_cluster (ap_cluster ?a))" using cluster_run_crashed by blast
  moreover have "ap_fallen ?a = ap_fallen a" unfolding st by (simp add: share_def del: cluster_step.simps)
  ultimately have "\<not> app_down ?a" using Cons.prems(2) still by (simp add: app_down_def chat_still_def)
  from Cons.IH [OF idle this whole] show ?case
    unfolding run using still by (simp add: app_run_def chat_still_def del: cluster_step.simps map_map)
qed

lemma status_arrives:
  assumes "app_reachable base host path a" "\<not> app_down a"
    and "solo c [] (sys_http (ap_cluster a))" "concat cs = stringify m @ [newline]" "json_wf m"
    and "get_prop m ''type'' = Inr (JStr ''cluster_status'')" "get_prop m ''data'' = Inr d"
    and "get_prop d ''node_list'' = Inr (JArr xs)" "map_sum_list node_of_js xs = Inr reported"
    and "get_prop d ''status'' = Inr (JStr x)" "x \<noteq> []" "get_prop d ''model_name'' = Inr (JStr y)" "y \<noteq> []"
    and "\<not> chat_busy (shown (ap_chat a))"
    and "b = app_run base host a (app_stream (chunk_events c cs))"
  shows "\<not> app_down b" "ci_status (app_info b) = JStr x" "ci_model_name (app_info b) = JStr y"
    and "chat_still (ap_chat a) (ap_chat b)"
    and "app_info b = update_cluster_info (cl_captured (sys_cluster (ap_cluster a))) d (app_info a)"
proof -
  have parts: "cluster_reachable base host (ap_cluster a)" "chat_reachable (ap_chat a)"
    using reachable_refines [OF assms(1)] by (simp_all add: app_refines_def)
  note line = cluster_status_line [OF parts(1) assms(3-9)]
  have whole: "\<not> cl_crashed (sys_cluster (cluster_run base (ap_cluster a) (chunk_events c cs)))"
    using line(2) assms(2) by (simp add: app_down_def)
  have run: "ap_cluster b = cluster_run base (ap_cluster a) (chunk_events c cs)" "chat_still (ap_chat a) (ap_chat b)"
    "\<not> app_down b" unfolding assms(15) using stream_run [OF idle_shown [OF parts(2) assms(14)] assms(2) whole] by simp_all
  show "\<not> app_down b" by (rule run(3))
  show "ci_status (app_info b) = JStr x" "ci_model_name (app_info b) = JStr y"
    using update_info_texts [OF assms(10-13)] line(1) run(1) by (simp_all add: cluster_simps apply_status_sel)
  show "chat_still (ap_chat a) (ap_chat b)" by (rule run(2))
  show "app_info b = update_cluster_info (cl_captured (sys_cluster (ap_cluster a))) d (app_info a)"
    using line(1) run(1) by (simp add: cluster_simps apply_status_sel)
qed




section \<open>A run\<close>

definition available_data :: jsval where
  "available_data = JObj [(''status'', JStr ''available''), (''model_name'', JStr ''m''), (''node_list'', JArr [])]"

definition available_message :: jsval where
  "available_message = JObj [(''type'', JStr ''cluster_status''), (''data'', available_data)]"

definition available_chunks :: "string list" where
  "available_chunks = [take 20 (stringify available_message), drop 20 (stringify available_message), [newline]]"

definition app_available :: app_state where
  "app_available = app_run [] Cluster_host app_listening (app_stream (chunk_events 0 available_chunks))"

definition app_generating :: app_state where
  "app_generating = app_step [] Cluster_host app_available (On_chat (Generate (Num 5 0) None))"

lemma app_available_reachable: "app_reachable [] Cluster_host ''/'' app_available"
  unfolding app_available_def by (rule app_reachable_run [OF app_listening_reachable])

lemma available_message_facts:
  "concat available_chunks = stringify available_message @ [newline]" "json_wf available_message"
  "get_prop available_message ''type'' = Inr (JStr ''cluster_status'')"
  "get_prop available_message ''data'' = Inr available_data"
  "get_prop available_data ''node_list'' = Inr (JArr [])" "map_sum_list node_of_js [] = Inr []"
  "get_prop available_data ''status'' = Inr (JStr ''available'')"
  "get_prop available_data ''model_name'' = Inr (JStr ''m'')"
  by code_simp+

lemma available_drawable: "nodes_drawable (sys_cluster (ap_cluster app_available))"
proof -
  note parts = reachable_refines [OF app_listening_reachable, unfolded app_refines_def]
  note line = cluster_status_line [OF conjunct1 [OF parts] app_listening_facts(2) available_message_facts(1-6)]
  have "\<not> cl_crashed (sys_cluster (cluster_run [] (ap_cluster app_listening) (chunk_events 0 available_chunks)))"
    using line(2) app_listening_facts(1) by (simp add: app_down_def)
  from stream_run [OF _ app_listening_facts(1) this, of Cluster_host] idle_shown [OF _ app_listening_facts(3)] parts
  have "ap_cluster app_available = cluster_run [] (ap_cluster app_listening) (chunk_events 0 available_chunks)"
    unfolding app_available_def by blast
  then have eq: "sys_cluster (ap_cluster app_available) =
      cluster_effect (apply_status available_data (JArr []) (sys_cluster (ap_cluster app_listening)))"
    using line(1) by simp
  moreover have "cl_nodes (apply_status available_data (JArr []) (sys_cluster (ap_cluster app_listening))) = []"
    by code_simp
  moreover have "placeholders (cl_info (apply_status available_data (JArr []) (sys_cluster (ap_cluster app_listening)))) 0 = 0"
    by code_simp
  ultimately have "nodes_drawable (apply_status available_data (JArr []) (sys_cluster (ap_cluster app_listening)))"
    by (simp add: nodes_drawable_def)
  with eq show ?thesis by (simp add: effect_drawable)
qed

lemma app_available_facts:
  "\<not> app_down app_available" "ci_status (app_info app_available) = JStr ''available''"
  "ci_model_name (app_info app_available) = JStr ''m''" "chat_still (ap_chat app_listening) (ap_chat app_available)"
  using status_arrives [OF app_listening_reachable app_listening_facts(1,2) available_message_facts(1-7) _
      available_message_facts(8) _ app_listening_facts(3) app_available_def] by simp_all

lemma available_chat:
  "ap_chat app_available = (ap_chat app_listening)\<lparr>cluster_status := JStr ''available'', cluster_model := JStr ''m''\<rparr>"
proof -
  have "cluster_status (ap_chat app_available) = JStr ''available''" "cluster_model (ap_chat app_available) = JStr ''m''"
    using reachable_agrees [OF app_available_reachable] app_available_facts
    by (simp_all add: app_agrees_def chat_sees_def)
  then show ?thesis using app_available_facts(4) by (simp add: chat_still_def)
qed

lemma generating_chat: "ap_chat app_generating = chat_step (ap_chat app_available) (Generate (Num 5 0) None)"
  using app_available_facts(1) by (simp add: app_generating_def app_step_def app_allowed_def del: chat_step.simps)

lemma app_generating_facts:
  "requests (ap_chat app_available) = []"
  "requests (ap_chat app_generating) = [(JStr ''m'', [to_request (user_message (Num 5 0) ''hi'')])]"
  "chat_messages (shown (ap_chat app_generating)) = [user_message (Num 5 0) ''hi'']"
  "plain_message (user_message (Num 5 0) ''hi'')"
  unfolding generating_chat available_chat by code_simp+

lemma app_generating_eq:
  "app_generating = app_available\<lparr>ap_chat := chat_step (ap_chat app_available) (Generate (Num 5 0) None)\<rparr>"
  using app_available_facts(1) by (simp add: app_generating_def app_step_def app_allowed_def del: chat_step.simps)

lemma app_generating_up: "\<not> app_down app_generating"
proof -
  have "\<not> chat_crashed (shown (ap_chat app_generating))" unfolding generating_chat available_chat by code_simp
  then show ?thesis using app_available_facts(1) by (simp add: app_generating_eq app_down_def del: chat_step.simps)
qed

definition app_reading :: app_state where
  "app_reading = app_step [] Cluster_host app_generating
     (On_chat (Net (Response 0 200 (Some ''text/event-stream'') True)))"

lemma app_reading_reachable: "app_reachable [] Cluster_host ''/'' app_reading"
  unfolding app_reading_def app_generating_def by (intro app_next app_available_reachable)

lemma app_reading_facts:
  "conns (sse (ap_chat app_reading)) 0 = Reading []"
  "chat_messages (cur (ap_chat app_reading)) = [user_message (Num 5 0) ''hi'']"
  unfolding app_reading_def app_net [OF app_generating_up] app_state.simps generating_chat available_chat by code_simp+

lemma app_reading_whole: "\<not> chat_crashed (shown (ap_chat app_reading))" "\<not> chat_crashed (cur (ap_chat app_reading))"
  unfolding app_reading_def app_net [OF app_generating_up] app_state.simps generating_chat available_chat by code_simp+

lemma app_reading_eq: "app_reading = app_generating\<lparr>ap_chat := chat_step (ap_chat app_generating)
    (Net (Response 0 200 (Some ''text/event-stream'') True))\<rparr>"
  unfolding app_reading_def by (rule app_net [OF app_generating_up])

lemma app_reading_sound: "app_sound app_reading"
proof -
  have "ap_cluster app_reading = ap_cluster app_available" "ap_fallen app_reading = ap_fallen app_available"
    unfolding app_reading_eq app_generating_eq by (simp_all del: chat_step.simps)
  then show ?thesis
    using app_reading_whole app_available_facts(1) available_drawable by (simp add: app_sound_def app_down_def)
qed

definition sample_reply :: string where
  "sample_reply = reply_text (delta_chunk ''r'' (Num 7 0) ''llama'') [''yo'', ''!'']"

definition disturbed_reply :: "app_event list" where
  "disturbed_reply = [On_chat (Net (Chunk 0 (take 9 sample_reply))), On_cluster (Stream_event (Http_end 0)),
     On_router Timer_fires, On_chat Render, On_chat (Net (Chunk 0 (drop 9 sample_reply))),
     On_chat (Net (End_of_stream 0))]"

lemma reply_chunks:
  "\<not> chat_crashed (fst (chat_core (chat_run (ap_chat app_reading) [Net (Chunk 0 (take 9 sample_reply))])))"
  "\<not> chat_crashed (fst (chat_core (chat_run (ap_chat app_reading)
     [Net (Chunk 0 (take 9 sample_reply)), Net (Chunk 0 (drop 9 sample_reply))])))"
  unfolding app_reading_def app_net [OF app_generating_up] app_state.simps generating_chat available_chat by code_simp+

lemma disturbed_up: "\<not> app_down (app_run [] Cluster_host app_reading disturbed_reply)"
proof (rule ccontr)
  assume "\<not> ?thesis"
  then have "\<not> app_sound (app_run [] Cluster_host app_reading disturbed_reply)" by (simp add: app_sound_def)
  from first_fall [OF app_reading_reachable app_reading_sound this] obtain pre ev post where
    run: "disturbed_reply = pre @ ev # post" "app_sound (app_run [] Cluster_host app_reading pre)"
      "\<not> app_sound (app_step [] Cluster_host (app_run [] Cluster_host app_reading pre) ev)" by blast
  let ?a = "app_run [] Cluster_host app_reading pre"
  have up: "\<not> app_down ?a" using run(2) by (simp add: app_sound_def)
  from sound_step [OF app_reachable_run [OF app_reading_reachable] run(2,3)] run(1)
  obtain c t where ev: "ev = On_chat (Net (Chunk c t))" by (auto simp: disturbed_reply_def Cons_eq_append_conv)
  have step: "app_step [] Cluster_host ?a ev = ?a\<lparr>ap_chat := chat_step (ap_chat ?a) (Net (Chunk c t))\<rparr>"
    unfolding ev by (rule app_net [OF up])
  let ?ts = "map (Chunk 0) [take 9 sample_reply, drop 9 sample_reply]"
  obtain k where k: "chat_part pre = map Net (take k ?ts)" "Chunk c t = ?ts ! k" "k < 2"
  proof (cases "pre = []")
    case True
    then show ?thesis using run(1) ev that [of 0] by (simp add: disturbed_reply_def)
  next
    case False
    then show ?thesis using run(1) ev that [of 1] by (auto simp: disturbed_reply_def Cons_eq_append_conv)
  qed
  have "chat_core (ap_chat (app_step [] Cluster_host ?a ev)) =
      chat_core (chat_step (chat_run (ap_chat app_reading) (map Net (take k ?ts))) (Net (Chunk c t)))"
    unfolding step using net_core [OF core_run [OF k(1) refl up]] by (simp del: chat_step.simps)
  also have "\<dots> = chat_core (chat_run (ap_chat app_reading) (map Net (take (Suc k) ?ts)))"
    unfolding k(2) using k(3) by (cases k) (auto simp: chat_run_def less_Suc_eq numeral_2_eq_2 simp del: chat_step.simps)
  finally have "\<not> chat_crashed (cur (ap_chat (app_step [] Cluster_host ?a ev)))"
    using reply_chunks k(3) by (cases k) (auto simp: chat_core_def less_Suc_eq numeral_2_eq_2)
  then show False using run(2,3) unfolding step by (simp add: app_sound_def app_down_def net_shown del: chat_step.simps)
qed

theorem app_reply_undisturbed_witness:
  "map msg_content (chat_messages (cur (ap_chat (app_run [] Cluster_host app_reading disturbed_reply)))) = [''hi'', ''yo!'']"
proof -
  let ?cs = "[take 9 sample_reply, drop 9 sample_reply]"
  have "chat_part disturbed_reply = map (\<lambda>t. Net (Chunk 0 t)) ?cs @ [Net (End_of_stream 0)]"
    by (simp add: disturbed_reply_def)
  moreover have "concat ?cs = reply_text (delta_chunk ''r'' (Num 7 0) ''llama'') [''yo'', ''!'']"
    by (simp add: sample_reply_def)
  moreover have "msg_content (reply_message ''r'' (Num 7 0) ''llama'' ''yo!'') = ''yo!''" by code_simp
  ultimately show ?thesis
    using app_reply_undisturbed [OF app_reading_reachable app_reading_facts(1), of "Num 7 0" ?cs "''r''" "''llama''"
        "[''yo'', ''!'']" disturbed_reply] app_reading_facts(2) disturbed_up
    by (simp add: Let_def user_message_def normal_number.simps)
qed

theorem app_request_wire_witness:
  "let body = wire_body (JStr ''m'', [to_request (user_message (Num 5 0) ''hi'')]) in
    json_parse (stringify body) = Inr body
    \<and> get_prop body ''messages'' = Inr (JArr [message_json (user_message (Num 5 0) ''hi'')])
    \<and> ci_status (app_info app_available) = JStr ''available''"
proof -
  have "list_all plain_message (chat_messages (shown (ap_chat app_generating)))"
    using app_generating_facts by simp
  then show ?thesis
    using app_request_wire [OF app_available_reachable _ app_available_facts(3), of "On_chat (Generate (Num 5 0) None)"]
      app_generating_facts(1-3)
    by (simp add: app_generating_def Let_def del: stringify.simps)
qed


text \<open>A status message whose list of nodes is \<open>null\<close>.\<close>

definition broken_message :: jsval where
  "broken_message = JObj [(''type'', JStr ''cluster_status''), (''data'', JObj [(''node_list'', JNull)])]"

definition app_broken :: "app_event list" where
  "app_broken = [On_router Timer_fires, On_cluster (Stream_event (http_ok 0)), On_chat (Set_input '' hi ''),
     On_cluster (Stream_event (Http_chunk 0 (stringify broken_message @ [newline])))]"

theorem app_falls_by_chunk_witness:
  "\<not> app_sound (app_run [] Cluster_host (mount_app [] Cluster_host ''/'') app_broken)
   \<and> (\<exists>ev \<in> set app_broken. (\<exists>c t. ev = On_cluster (Stream_event (Http_chunk c t)))
        \<or> (\<exists>c t. ev = On_chat (Net (Chunk c t))))"
proof -
  let ?e = "Stream_event (Http_chunk 0 (stringify broken_message @ [newline]))"
  let ?s = "cluster_step [] (ap_cluster app_listening) ?e"
  have "http_feed [] (stringify broken_message @ [newline]) = ([stringify broken_message], [])"
    using http_lines.feed_line [of "[]" "stringify broken_message"] stringify_no_newline(1) by simp
  note step = cluster_chunk(2) [OF app_listening_facts(2) this, of "[]"]
  have "json_wf broken_message" by code_simp
  then have crash: "cl_crashed (sys_cluster ?s)"
    unfolding step by (simp add: handle_line_def cluster_stream_def deliver_def cluster_http_def json_parse_stringify
        cluster_simps) (simp add: cluster_on_message_def broken_message_def update_nodes_def Let_def)
  then have "app_step [] Cluster_host app_listening (On_cluster ?e) = app_listening\<lparr>ap_cluster := ?s\<rparr>"
    using app_listening_facts(1) by (simp add: app_step_def app_allowed_def share_def app_down_def del: cluster_step.simps)
  moreover have "app_run [] Cluster_host (mount_app [] Cluster_host ''/'') app_broken =
      app_step [] Cluster_host app_listening (On_cluster ?e)"
    by (simp add: app_run_def app_listening_def app_broken_def)
  ultimately have fallen: "\<not> app_sound (app_run [] Cluster_host (mount_app [] Cluster_host ''/'') app_broken)"
    using crash by (simp add: app_sound_def app_down_def del: cluster_step.simps)
  from app_falls_by_chunk [OF this] obtain pre ev post where "app_broken = pre @ ev # post"
    "(\<exists>c t. ev = On_cluster (Stream_event (Http_chunk c t))) \<or> (\<exists>c t. ev = On_chat (Net (Chunk c t)))
      \<or> (\<exists>k r. ev = On_cluster (Init_response k r))"
    unfolding Let_def by blast
  moreover from this(1) have "ev \<in> set app_broken" by (metis in_set_conv_decomp)
  moreover from this have "\<nexists>k r. ev = On_cluster (Init_response k r)" by (auto simp: app_broken_def)
  ultimately show ?thesis using fallen by blast
qed

end
