(* ===== verification/Screen_Runs.thy ===== *)
theory Screen_Runs
  imports Screens Application_Runs
begin

text \<open>
  Runs of the screen: when dialogs come up, and the way of a user from the setup page over the join page to
  the chat.
\<close>

section \<open>Dialogs\<close>

definition dialog_shown :: "screen \<Rightarrow> drawer_dialog \<Rightarrow> bool" where
  "dialog_shown s w = (case sc_page s of Chat_shown p \<Rightarrow> hk_open (dr_dialogs (cp_drawer p) w) | _ \<Rightarrow> False)"

text \<open>What the status and the need of nodes must be for a dialog to open; the last one needs a click.\<close>

definition dialog_cause :: "host_type \<Rightarrow> cluster_info \<Rightarrow> drawer_dialog \<Rightarrow> bool" where
  "dialog_cause host i w =
     (case w of
        Waiting_dialog \<Rightarrow> host = Cluster_host \<and> ci_status i = JStr ''waiting''
      | Rebalancing_dialog \<Rightarrow> ci_status i = JStr ''rebalancing''
      | Need_nodes_dialog \<Rightarrow> truthy (ci_need_more_nodes i)
      | Failed_dialog \<Rightarrow> ci_status i = JStr ''failed''
      | Join_dialog \<Rightarrow> False)"

lemma mount_dialogs:
  assumes "ci_status i = status" "ci_need_more_nodes i = need"
  shows "hk_open (dr_dialogs (mount_drawer host status need) w) = dialog_cause host i w"
  using assms
  by (cases w) (auto simp: mount_drawer_def need_effect_def status_effects_defs init_dialog_hook_def dialog_cause_def)

lemma rendered_dialogs:
  "hk_open (dr_dialogs (cluster_rendered host status need d) w) \<Longrightarrow>
     ci_status i = status \<Longrightarrow> ci_need_more_nodes i = need \<Longrightarrow>
     hk_open (dr_dialogs d w) \<or> dialog_cause host i w"
  by (cases w) (auto simp: cluster_rendered_sel opens_def dialog_cause_def)

lemma render_page_dialogs:
  assumes "\<not> app_down (sc_app s)" "dialog_shown (render_page base host s) w"
  shows "dialog_shown s w \<or> dialog_cause host (sc_info (render_page base host s)) w"
proof (cases "sc_page s")
  case (Chat_shown p)
  let ?q = "p\<lparr>cp_drawer := cluster_rendered host (ci_status (sc_info s)) (ci_need_more_nodes (sc_info s)) (cp_drawer p)\<rparr>"
  note only = commit_choice_only [OF assms(1), of base host ?q]
  have eq: "render_page base host s = commit_choice base host ?q s" using Chat_shown by (simp add: render_page_def)
  then have "hk_open (dr_dialogs (cp_drawer ?q) w)" using only(3) assms(2) by (auto simp: dialog_shown_def)
  then show ?thesis
    using rendered_dialogs only(1) Chat_shown by (fastforce simp: eq only_starts_def dialog_shown_def)
qed (use assms(2) in \<open>simp_all add: render_page_def\<close>)

lemma in_app_dialogs:
  assumes "\<not> app_down (sc_app (in_app base host ev s))" "dialog_shown (in_app base host ev s) w"
  shows "dialog_shown s w \<or> dialog_cause host (sc_info (in_app base host ev s)) w"
proof -
  let ?s = "s\<lparr>sc_app := app_step base host (sc_app s) ev\<rparr>"
  have shown: "dialog_shown ?s w = dialog_shown s w" by (simp add: dialog_shown_def)
  show ?thesis
  proof (cases "app_down (sc_app ?s)")
    case True
    then show ?thesis using assms(1) by (simp add: in_app_def refresh_def)
  next
    case False
    then show ?thesis
      using assms(2) render_page_dialogs [OF False, of base host w] shown mount_dialogs
      by (auto simp: in_app_def refresh_def dialog_shown_def mount_page_def mount_chat_page_def Let_def
          split: if_splits)
  qed
qed

lemma in_app_app:
  "sc_cluster (in_app base host ev s) = sys_cluster (ap_cluster (app_step base host (sc_app s) ev))"
  "ap_chat (sc_app (in_app base host ev s)) = ap_chat (app_step base host (sc_app s) ev)"
  "ap_router (sc_app (in_app base host ev s)) = ap_router (app_step base host (sc_app s) ev)"
  "ap_fallen (sc_app (in_app base host ev s)) = ap_fallen (app_step base host (sc_app s) ev)"
  using render_only(1) [of "s\<lparr>sc_app := app_step base host (sc_app s) ev\<rparr>" base host]
  by (auto simp: in_app_def refresh_def only_starts_def)

lemma in_app_down: "app_down (sc_app (in_app base host ev s)) = app_down (app_step base host (sc_app s) ev)"
  by (simp add: app_down_def in_app_app)

lemma navigate_cluster: "sc_cluster (in_app base host (On_router ev) s) = sc_cluster s"
  unfolding in_app_app by (simp add: app_step_def)

lemma end_loading_dialogs: "dialog_shown (end_loading n s) w = dialog_shown s w"
  by (simp add: end_loading_def dialog_shown_def split: shown_page.split)

lemma init_answered_dialogs:
  assumes "\<not> app_down (sc_app (init_answered base host k r s))" "dialog_shown (init_answered base host k r s) w"
  shows "dialog_shown s w \<or> dialog_cause host (sc_info (init_answered base host k r s)) w"
proof (cases "k < length (sc_calls s)")
  case True
  define t where "t = in_app base host (On_cluster (Init_response k r)) (without_call k s)"
  let ?u = "in_app base host (On_router (Navigate PATH_JOIN)) t"
  have eq: "init_answered base host k r s =
      (case sc_calls s ! k of Select_caller \<Rightarrow> t
       | Setup_caller n \<Rightarrow> end_loading n (case init_scheduler r of Inr d \<Rightarrow> ?u | Inl e \<Rightarrow> t))"
    unfolding init_answered_def t_def Let_def using True by simp
  have first: "\<not> app_down (sc_app t) \<Longrightarrow> dialog_shown t w \<Longrightarrow> dialog_shown s w \<or> dialog_cause host (sc_info t) w"
    using in_app_dialogs [of base host _ "without_call k s" w] by (simp add: t_def without_call_def dialog_shown_def)
  have "app_down (sc_app t) \<Longrightarrow> app_down (sc_app ?u)" by (simp add: in_app_down down_stays)
  then have second: "\<not> app_down (sc_app ?u) \<Longrightarrow> dialog_shown ?u w \<Longrightarrow> dialog_shown s w \<or> dialog_cause host (sc_info ?u) w"
    using in_app_dialogs [of base host "On_router (Navigate PATH_JOIN)" t w] first navigate_cluster [of base host _ t] by metis
  show ?thesis
    using assms first second unfolding eq
    by (simp add: end_loading_dialogs end_loading_ok split: init_caller.splits sum.splits)
qed (use assms in \<open>simp add: init_answered_def\<close>)

lemma in_drawer_dialogs:
  assumes "page_fits host s" "own_drawer_event ev" "dialog_shown (in_drawer host ev s) w" "\<not> dialog_shown s w"
  shows "(ev = Add_nodes \<and> w = Join_dialog) \<or> (ev = Idle_timer \<and> w = Failed_dialog \<and> ci_status (sc_info s) = JStr ''idle'')"
proof (cases "sc_page s")
  case (Chat_shown p)
  let ?d = "cp_drawer p"
  have ok: "drawer_ok ?d" and status: "dr_status ?d = ci_status (sc_info s)"
    using assms(1) Chat_shown by (simp_all add: page_fits_defs drawer_sees_def)
  have "opens host ?d ev w"
    using assms(3,4) Chat_shown drawer_step_facts [OF ok, of host _ ev w]
    by (simp add: in_drawer_def dialog_shown_def split: if_splits)
  then show ?thesis using ok status assms(2) by (cases ev) (auto simp: opens_def drawer_ok_def)
qed (use assms(3,4) in \<open>simp_all add: in_drawer_def\<close>)

text \<open>C11: A dialog of the chat page comes up only while the cluster, as the provider then knows it, is in the state
  that the dialog is about: waiting, rebalancing, failed, or in need of nodes; the one on failures also by the
  timer of a cluster that is idle, and the one with the join command only by a click.\<close>

theorem screen_dialogs:
  assumes "screen_reachable base host path s" "\<not> dialog_shown s w" "dialog_shown (screen_step base host s ev) w"
    and "\<not> app_down (sc_app (screen_step base host s ev))"
  shows "case w of
      Waiting_dialog \<Rightarrow> host = Cluster_host \<and> ci_status (sc_info (screen_step base host s ev)) = JStr ''waiting''
    | Rebalancing_dialog \<Rightarrow> ci_status (sc_info (screen_step base host s ev)) = JStr ''rebalancing''
    | Need_nodes_dialog \<Rightarrow> truthy (ci_need_more_nodes (sc_info (screen_step base host s ev)))
    | Failed_dialog \<Rightarrow> ci_status (sc_info (screen_step base host s ev)) = JStr ''failed''
        \<or> ev = In_drawer Idle_timer \<and> ci_status (sc_info (screen_step base host s ev)) = JStr ''idle''
    | Join_dialog \<Rightarrow> ev = In_drawer Add_nodes"
proof -
  let ?t = "screen_step base host s ev"
  have ok: "screen_ok base host path s" by (rule screen_reachable_ok [OF assms(1)])
  have allowed: "screen_allowed s ev" using assms(2,3) by (cases "screen_allowed s ev") (simp_all add: screen_step_def)
  have "dialog_cause host (sc_info ?t) w \<or> (ev = In_drawer Add_nodes \<and> w = Join_dialog)
    \<or> (ev = In_drawer Idle_timer \<and> w = Failed_dialog \<and> ci_status (sc_info ?t) = JStr ''idle'')"
  proof (cases ev)
    case (In_app e)
    then have "?t = in_app base host e s" using allowed by (simp add: screen_step_def)
    then show ?thesis using in_app_dialogs assms(2-4) by metis
  next
    case Press_continue
    then have up: "\<not> app_down (sc_app s)" and t: "?t = press_continue base host s" using allowed by (simp_all add: screen_step_def)
    have "\<not> dialog_shown (start_init base host (Setup_caller n) (s\<lparr>sc_page := Setup_shown n True\<rparr>)) w" for n
      using start_init_only(2) [of "s\<lparr>sc_page := Setup_shown n True\<rparr>"] up by (simp add: dialog_shown_def)
    then have "?t = in_app base host (On_router (Navigate PATH_JOIN)) s"
      using t assms(2,3) by (auto simp: press_continue_def split: shown_page.splits bool.splits if_splits sum.splits)
    then show ?thesis using in_app_dialogs assms(2-4) by metis
  next
    case (Choose_name name)
    then have t: "?t = choose_model_name base host name s" using allowed by (simp add: screen_step_def)
    show ?thesis
    proof (cases "?t = s")
      case False
      then obtain p where "sc_page s = Chat_shown p" "?t = in_app base host (On_cluster (Set_model_name (JStr name)))
          (s\<lparr>sc_page := Chat_shown (p\<lparr>cp_can := True\<rparr>)\<rparr>)"
        using t by (auto simp: choose_model_name_def split: shown_page.splits if_splits)
      then show ?thesis using in_app_dialogs assms(2-4) by (fastforce simp: dialog_shown_def)
    qed (use assms(2,3) in simp)
  next
    case (In_drawer e)
    then have own: "own_drawer_event e" "\<not> app_down (sc_app s)" and t: "?t = in_drawer host e s"
      using allowed by (simp_all add: screen_step_def)
    have "sc_info ?t = sc_info s" by (simp add: t in_drawer_def split: shown_page.split)
    then show ?thesis using in_drawer_dialogs [of host s e w] ok own assms(2,3) In_drawer t by (auto simp: screen_ok_def)
  next
    case (Init_answered k r)
    then have "?t = init_answered base host k r s" using allowed by (simp add: screen_step_def)
    then show ?thesis using init_answered_dialogs assms(2-4) by metis
  qed
  then show ?thesis by (cases w) (auto simp: dialog_cause_def)
qed

section \<open>From the setup page to the chat\<close>












section \<open>A run\<close>

fun setup_page_of :: "shown_page \<Rightarrow> (nat \<times> bool) option" where
  "setup_page_of (Setup_shown n b) = Some (n, b)"
| "setup_page_of p = None"

lemma setup_page_of_Some: "setup_page_of p = Some (n, b) \<Longrightarrow> p = Setup_shown n b"
  by (cases p) simp_all

definition screen_setup :: screen where
  "screen_setup = screen_run [] Cluster_host (mount_screen [] Cluster_host ''/'')
     [In_app (On_router Timer_fires), In_app (On_cluster (Stream_event (http_ok 0))),
      In_app (On_cluster (Set_model_name (JStr ''m'')))]"

definition screen_pressed :: screen where
  "screen_pressed = screen_step [] Cluster_host screen_setup Press_continue"

lemma screen_setup_reachable: "screen_reachable [] Cluster_host ''/'' screen_setup"
  unfolding screen_setup_def by (intro screen_reachable_run screen_mounted)





theorem screen_fits_path_witness:
  "count_list (sc_calls screen_pressed) (Setup_caller 1) = 1 \<and> sc_path screen_pressed = PATH_SETUP
   \<and> length (sys_inits (ap_cluster (sc_app screen_pressed))) = length (sc_calls screen_pressed)"
proof -
  have up: "\<not> app_down (sc_app screen_pressed)" and "setup_page_of (sc_page screen_pressed) = Some (1, True)"
    by code_simp+
  from setup_page_of_Some [OF this(2)] have "sc_page screen_pressed = Setup_shown 1 True" .
  then show ?thesis
    using up screen_fits_path [OF screen_next [OF screen_setup_reachable, of Press_continue]]
    by (simp add: screen_pressed_def)
qed

definition screen_waiting :: screen where
  "screen_waiting = screen_step [] Cluster_host screen_pressed (Init_answered 0 accepted)"

theorem screen_dialogs_witness:
  "\<not> dialog_shown screen_waiting Waiting_dialog
   \<and> dialog_shown (screen_step [] Cluster_host screen_waiting (In_app (On_router (Navigate PATH_CHAT)))) Waiting_dialog
   \<and> ci_status (sc_info (screen_step [] Cluster_host screen_waiting (In_app (On_router (Navigate PATH_CHAT))))) = JStr ''waiting''"
proof -
  let ?t = "screen_step [] Cluster_host screen_waiting (In_app (On_router (Navigate PATH_CHAT)))"
  have "screen_reachable [] Cluster_host ''/'' screen_waiting"
    unfolding screen_waiting_def screen_pressed_def by (intro screen_next screen_setup_reachable)
  moreover have "\<not> dialog_shown screen_waiting Waiting_dialog" "dialog_shown ?t Waiting_dialog" "\<not> app_down (sc_app ?t)"
    by code_simp+
  ultimately show ?thesis
    using screen_dialogs [of "[]" Cluster_host "''/''" screen_waiting Waiting_dialog] by simp
qed

end
