(* ===== verification/Spec2Isabelle.thy ===== *)
theory Spec2Isabelle
  imports Chat_Stream Cluster_Facts React_Hooks Node_List Number_Input Router Pages Chat_Input
    Chat_Messages Model_Select Join_Command Markdown Alert_Dialog Notification Title_Icon Layout
    Theme_Facts Screen_Runs
begin

text \<open>
  The web frontend of the repository, \<open>src/src/frontend/src\<close>, as executable
  definitions, and what makes it correct. (Paths below are relative to that directory.)

  \<^bold>\<open>The program.\<close> The frontend lets a user set up a cluster of machines that
  serve a language model, watch its nodes, and chat with the model. Three providers hold its state
  and hand it to the components below them: the host context (\<open>services/host.tsx\<close>), the
  cluster (\<open>services/cluster.tsx\<close>) and the chat (\<open>services/chat.tsx\<close>). The
  cluster provider keeps a never-ending stream of status messages open through the NDJSON client of
  \<open>services/http-stream.ts\<close>, asks for the model list and initialises the scheduler
  through \<open>services/api.ts\<close>. The chat provider posts the history and reads the reply
  through the event-stream client at the end of its own file; the raw text of a reply is split into
  thinking and answer by \<open>services/chat-helper.tsx\<close>. Routers, pages, layouts and inputs
  render that state and call the operations of the providers.

  \<^bold>\<open>Foundations.\<close>
  \<^item> \<open>Prelude\<close>: thrown errors as the left of a sum, sequencing, rule collections,
    list lemmas.
  \<^item> \<open>Js_String\<close>, \<open>Js_Value\<close>: the JavaScript the frontend uses:
    string operations, decimals, dynamic values with property access that throws on
    \<open>null\<close> and \<open>undefined\<close>, \<open>JSON.stringify\<close> and
    \<open>JSON.parse\<close>.
  \<^item> \<open>Json_Roundtrip\<close>: parsing a printed value gives the value back.
  \<^item> \<open>Doubles\<close>: rounding, overflow and printing of the integers among JavaScript's
    numbers, for the texts of the number field.
  \<^item> \<open>Line_Framing\<close>: the interface of a line buffer as a locale: the lines
    delivered do not depend on how the text was cut into chunks. Both clients are interpretations.
  \<^item> \<open>View\<close>: elements with tags, props, handlers and children, the result of
    every component; \<open>Theme\<close>: palette, typography, shadows, spacing, provider
    (\<open>themes/\<close>).

  \<^bold>\<open>Services.\<close>
  \<^item> \<open>Sse\<close>: \<open>createSSE\<close>; a record for its closure variables,
    \<open>connect\<close>, \<open>disconnect\<close> and one step per response, chunk, end and
    failure. The locales \<open>sse_owner\<close> and \<open>sse_effect\<close> state what its
    callbacks have to keep.
  \<^item> \<open>Chat_Helper\<close>: both generation parsers, the regular expression written out
    as a scanner.
  \<^item> \<open>Chat\<close>, \<open>Chat_History\<close>, \<open>Chat_Stream\<close>: the chat
    provider; its interpretations of the client's locales; what happens to the history; the way from
    the bytes of a reply to the message shown. The inductive relation \<open>chat_reachable\<close>
    holds every order of user actions and network events.
  \<^item> \<open>Http_Stream\<close>: the NDJSON client with its variables that outlive a request,
    its timers, its promise chain with catch and finally, and reconnection. The locale
    \<open>http_quiet\<close> carries an owner's invariant through the steps that bring no text, its
    extension \<open>http_owner\<close> through every step.
  \<^item> \<open>Api\<close>, \<open>Cluster\<close>, \<open>Cluster_Facts\<close>,
    \<open>Cluster_Stream\<close>: calls to the backend; state, message handler, model list loop,
    initialisation and effect of the cluster provider; its invariants over
    \<open>cluster_reachable\<close>; the effect of messages that arrive in chunks.
  \<^item> \<open>React_Hooks\<close>: the constant-value and callback hooks over the renders of a
    component (\<open>hooks/\<close>), and the host context.

  \<^bold>\<open>Components.\<close> Each theory has the state of the component's hooks, one
  definition per handler and effect, its view, and the lemmas about both.
  \<^item> \<open>Router\<close> (\<open>router/\<close>, \<open>App.tsx\<close>),
    \<open>Pages\<close> (\<open>pages/\<close>), \<open>Layout\<close>
    (\<open>components/common/\<close>).
  \<^item> \<open>Chat_Input\<close>, \<open>Chat_Messages\<close>, \<open>Markdown\<close>,
    \<open>Model_Select\<close>, \<open>Join_Command\<close>, \<open>Node_List\<close>,
    \<open>Number_Input\<close>: the files of the same names under
    \<open>components/inputs/\<close>.
  \<^item> \<open>Alert_Dialog\<close>, \<open>Notification\<close>, \<open>Title_Icon\<close>: \<open>components/mui/\<close>,
    with the snackbar of \<open>themes/components/feedback/notistack.tsx\<close>.
  \<^item> \<open>Style_Rules\<close>, \<open>Button_Styles\<close>, \<open>Form_Styles\<close>,
    \<open>Data_Styles\<close>, \<open>Feedback_Styles\<close>: the overrides of Material UI's
    components under \<open>themes/components/\<close>, functions of the theme; the rules list their
    variants. \<open>Theme_Components\<close> has the loop of \<open>themes/index.tsx\<close> that
    installs them, \<open>Theme_Facts\<close> shows that no value in them is missing.

  \<^bold>\<open>The whole.\<close> \<open>Application\<close> runs the cluster provider, the
  chat provider and the router together, nested as in \<open>App.tsx\<close>, and \<open>Application_Runs\<close>
  has what holds of its runs. A tagged event goes
  to one of the three; when the cluster provider's values change, its context makes the other two
  render with the new status and model (\<open>share\<close>), and a throw while rendering takes
  the tree down: one of an updater, or one of a list of nodes that is drawn (\<open>Nodes_drawn\<close>, an event of
  its own, since the pages that draw them come and go), with a node of an unknown status or with more placeholders
  than an array has room for. Nothing happens to the state of a tree that is down. The locale \<open>observer\<close> states what reading a context means; the chat and
  the router are its interpretations. Every run of the whole is a run of each part, so that the
  theorems on the parts hold in it.
  \<open>Screens\<close> adds the page that the router shows: the setup page and the selector in the
  header of the chat page, whose handlers call \<open>init\<close> and go on when it is answered, and the
  layout with its dialogs. A route matches its very path, a page lives from the navigation that mounts it
  to the one that leaves its path, and a lazily loaded page is there at once; \<open>Screen_Runs\<close>
  follows a user through the pages.

  \<^bold>\<open>What the lemmas show.\<close> The clients: cutting a stream anywhere changes
  nothing, what is delivered is what was sent, which events reconnect, and how shared variables of
  overlapping requests spoil it. The providers: one request at a time, a reply only extends the history,
  stopping ends a reply, a throw comes from a malformed chunk only, nodes that vanish are kept as
  failed and repeated messages change nothing, a user's choice of model survives the server's. The
  parsers: thoughts and answer, or the messages of the channels, are told apart in finished and
  unfinished replies. The components: what is drawn is the state, handlers refine the operations of
  the providers, redirections and countdowns end, dialogs open in the right states. The whole: chat and router agree
  with the cluster provider while the application is up; the server can parse every request and
  finds the running model and the messages shown in it; a status message on the stream, however it
  is cut, leads to the chat page and to requests to the model it reports; what happens elsewhere does
  not disturb a reply as long as the application stays up; and only text received from a stream, or a start with a
  monstrous number of nodes, can make an updater or a list of nodes throw. The
  page shown is always the one of the path, a setup page loads while its own call waits, dialogs come up
  in their own states of the cluster alone, and Continue leads over the join page to the chat.

  \<^bold>\<open>Bounds and fuel.\<close> The parser of JSON takes \<open>2 * length s + 2\<close>
  as fuel: every call consumes a character or passes once from a value to its members, and the round
  trip shows that it suffices for every printed value. All other loops are recursions with a
  termination proof.

  \<^bold>\<open>Reading of the environment.\<close>
  \<^item> The decoder's output for each chunk is given by the event; a string is a list of code
    units below 256, enough for the ASCII of the protocol.
  \<^item> Microtasks and the renders an event causes are finished before the next event; timers
    expire in any order and at any time.
  \<^item> Numbers are decimals; they are rounded to doubles in the number field, which takes any
    digits from the user, and where a product of the button sizes needs it. The number of nodes that the cluster
    provider holds is an integer, as the field gives it. Not modelled are the names every object inherits from its
    prototype when an object serves as a map, and what React refuses to draw as a child.
  \<^item> A disabled or loading button gets no clicks; a select reports choices that differ from
    its value.
  \<^item> Functions of Material UI that name CSS classes, the SVG modules and the renderer of
    Markdown are parameters or tags.

  \<^bold>\<open>Not modelled.\<close> How Material UI applies the variants of the overrides is its
  own. The brand images, the unused cluster icon of the drawer, the two calls in
  \<open>main.tsx\<close> and \<open>chat.tsx\<close> that mount the application, re-exporting index
  files and files of types have nothing to prove. \<open>dist/\<close> is generated from these
  sources. The Python scheduler, router and inference engine and the native kernels are programs of
  their own, which the frontend meets only through the messages of the HTTP interface.
\<close>

end
